(* ===== verification/Prelude.thy ===== *)
theory Prelude
  imports Main "HOL-Library.Word" "HOL-Library.List_Lexorder" "HOL-Library.Char_ord"
    "HOL-Library.Mapping" "HOL-Library.AList_Mapping"
    "HOL-Library.Code_Target_Nat"
begin

text \<open>
  Shared vocabulary of the development: the outcome of a Go call that may panic, Go errors,
  the collections of simplification rules that the component theories extend, and a few
  facts about lists, options and words that several components use.
\<close>

section \<open>Collections of rules\<close>

named_theorems go_simps
  \<open>evaluation rules for the model of Go's standard library\<close>

named_theorems frame_simps
  \<open>fields that an operation of the model leaves alone\<close>

named_theorems call_simps
  \<open>the calls to the outside world that an operation of the model issues\<close>

section \<open>Outcomes of a call\<close>

text \<open>
  A Go call either returns or panics (an index out of range, a nil pointer that is
  dereferenced). A panic carries the reason; it is never recovered in this program.
\<close>

datatype 'a outcome = Ret 'a | Panic string

definition bind_outcome :: "'a outcome \<Rightarrow> ('a \<Rightarrow> 'b outcome) \<Rightarrow> 'b outcome" where
  "bind_outcome x f = (case x of Ret a \<Rightarrow> f a | Panic e \<Rightarrow> Panic e)"

lemma bind_outcome_simps [simp]:
  "bind_outcome (Ret a) f = f a"
  "bind_outcome (Panic e) f = Panic e"
  by (simp_all add: bind_outcome_def)

lemma bind_outcome_Ret_iff:
  "bind_outcome x f = Ret b \<longleftrightarrow> (\<exists>a. x = Ret a \<and> f a = Ret b)"
  by (cases x) auto

lemma bind_outcome_Panic_iff:
  "bind_outcome x f = Panic e \<longleftrightarrow> x = Panic e \<or> (\<exists>a. x = Ret a \<and> f a = Panic e)"
  by (cases x) auto

text \<open>A loop that appends one result per element stops at the first panic.\<close>

fun map_outcome :: "('a \<Rightarrow> 'b outcome) \<Rightarrow> 'a list \<Rightarrow> 'b list outcome" where
  "map_outcome f [] = Ret []"
| "map_outcome f (x # xs) =
     bind_outcome (f x) (\<lambda>y. bind_outcome (map_outcome f xs) (\<lambda>ys. Ret (y # ys)))"

lemma map_outcome_Ret_iff:
  "map_outcome f xs = Ret ys \<longleftrightarrow> list_all2 (\<lambda>x y. f x = Ret y) xs ys"
proof (induction xs arbitrary: ys)
  case Nil
  then show ?case by auto
next
  case (Cons x xs)
  then show ?case
    by (cases ys) (auto simp: bind_outcome_Ret_iff)
qed

lemma map_outcome_total:
  "(\<And>x. x \<in> set xs \<Longrightarrow> \<exists>y. f x = Ret y) \<Longrightarrow> \<exists>ys. map_outcome f xs = Ret ys"
  by (induction xs) (auto, metis bind_outcome_simps(1))

lemma map_outcome_map:
  "map_outcome f xs = Ret ys \<Longrightarrow> (\<And>x y. x \<in> set xs \<Longrightarrow> f x = Ret y \<Longrightarrow> g y = h x) \<Longrightarrow>
   map g ys = map h xs"
proof (induction xs arbitrary: ys)
  case Nil
  then show ?case by simp
next
  case (Cons x xs)
  then show ?case by (auto simp: bind_outcome_Ret_iff)
qed

section \<open>Errors\<close>

text \<open>
  A Go \<open>error\<close> value is a message; an error of the API server also has the reason of its
  status, which \<open>errors.IsNotFound\<close> and \<open>errors.IsConflict\<close> read. \<open>ErrSkip\<close> is the sentinel
  of the wrangler library, which it compares by identity. The nil error is the \<open>None\<close> of a \<open>go_error option\<close>.
\<close>

datatype go_error = StatusError string string | PlainError string | ErrSkip

fun Error :: "go_error \<Rightarrow> string" where
  "Error (StatusError rsn msg) = msg"
| "Error (PlainError msg) = msg"
| "Error ErrSkip = ''ignore handler error''"

definition IsNotFound :: "go_error option \<Rightarrow> bool" where
  "IsNotFound err = (case err of Some (StatusError r m) \<Rightarrow> r = ''NotFound'' | _ \<Rightarrow> False)"

definition IsConflict :: "go_error option \<Rightarrow> bool" where
  "IsConflict err = (case err of Some (StatusError r m) \<Rightarrow> r = ''Conflict'' | _ \<Rightarrow> False)"

lemma IsNotFound_simps [simp]:
  "\<not> IsNotFound None"
  "IsNotFound (Some (StatusError r m)) \<longleftrightarrow> r = ''NotFound''"
  "\<not> IsNotFound (Some (PlainError m))"
  by (simp_all add: IsNotFound_def)

section \<open>Lists\<close>

text \<open>A loop over a slice that returns at the first element it accepts.\<close>

lemma find_append:
  "find P (xs @ ys) = (case find P xs of None \<Rightarrow> find P ys | Some x \<Rightarrow> Some x)"
  by (induction xs) auto

lemma find_Some_mem: "find P xs = Some x \<Longrightarrow> x \<in> set xs \<and> P x"
  by (auto simp: find_Some_iff)

lemma find_None_all: "find P xs = None \<longleftrightarrow> (\<forall>x \<in> set xs. \<not> P x)"
  by (auto simp: find_None_iff)

lemma find_unique:
  assumes "distinct (map f xs)" and "x \<in> set xs"
  shows "find (\<lambda>y. f y = f x) xs = Some x"
  using assms by (induction xs) (auto simp: rev_image_eqI)

lemma take_length_append_eq: "take (length p) s = p \<longleftrightarrow> (\<exists>t. s = p @ t)"
  by (metis append_eq_conv_conj append_take_drop_id)

end
