(* ===== verification/Go_Strings.thy ===== *)
theory Go_Strings
  imports Prelude
begin

text \<open>
  The part of Go's standard library that the program computes with: packages \<open>strings\<close>,
  \<open>strconv\<close>, \<open>path/filepath\<close> and the line scanner of \<open>bufio\<close>. A Go string is a list
  of bytes, here a HOL \<open>string\<close> (whose characters are the 256 bytes).
\<close>

section \<open>Prefixes, suffixes, substrings\<close>

definition HasPrefix :: "string \<Rightarrow> string \<Rightarrow> bool" where
  "HasPrefix s p \<longleftrightarrow> take (length p) s = p"

definition HasSuffix :: "string \<Rightarrow> string \<Rightarrow> bool" where
  "HasSuffix s p \<longleftrightarrow> length p \<le> length s \<and> drop (length s - length p) s = p"

definition TrimPrefix :: "string \<Rightarrow> string \<Rightarrow> string" where
  "TrimPrefix s p = (if HasPrefix s p then drop (length p) s else s)"

definition TrimSuffix :: "string \<Rightarrow> string \<Rightarrow> string" where
  "TrimSuffix s p = (if HasSuffix s p then take (length s - length p) s else s)"

text \<open>The text before and after the first occurrence of a separator.\<close>

fun cut_at :: "string \<Rightarrow> string \<Rightarrow> (string \<times> string) option" where
  "cut_at [] sep = (if sep = [] then Some ([], []) else None)"
| "cut_at (c # cs) sep =
     (if HasPrefix (c # cs) sep then Some ([], drop (length sep) (c # cs))
      else (case cut_at cs sep of None \<Rightarrow> None | Some (a, b) \<Rightarrow> Some (c # a, b)))"

definition Contains :: "string \<Rightarrow> string \<Rightarrow> bool" where
  "Contains s sub \<longleftrightarrow> cut_at s sub \<noteq> None"

lemma HasPrefix_iff: "HasPrefix s p \<longleftrightarrow> (\<exists>t. s = p @ t)"
  by (simp add: HasPrefix_def take_length_append_eq)

lemma HasPrefix_append [simp]: "HasPrefix (p @ s) p"
  by (simp add: HasPrefix_def)

lemma HasPrefix_Nil [simp]: "HasPrefix s []"
  by (simp add: HasPrefix_def)

lemma HasPrefix_Cons [simp]:
  "HasPrefix (c # s) (d # p) \<longleftrightarrow> c = d \<and> HasPrefix s p"
  "\<not> HasPrefix [] (d # p)"
  by (auto simp: HasPrefix_def)

lemma HasSuffix_iff: "HasSuffix s p \<longleftrightarrow> (\<exists>t. s = t @ p)"
proof
  assume "HasSuffix s p"
  then show "\<exists>t. s = t @ p"
    by (metis HasSuffix_def append_take_drop_id)
qed (auto simp: HasSuffix_def)

lemma TrimPrefix_append [simp]: "TrimPrefix (p @ s) p = s"
  by (simp add: TrimPrefix_def)

lemma TrimSuffix_append [simp]: "TrimSuffix (s @ p) p = s"
  by (simp add: TrimSuffix_def HasSuffix_iff)

lemma cut_at_SomeD: "cut_at s sep = Some (a, b) \<Longrightarrow> s = a @ sep @ b"
proof (induction s sep arbitrary: a b rule: cut_at.induct)
  case (1 sep)
  then show ?case by (simp split: if_splits)
next
  case (2 c cs sep)
  then show ?case
    by (auto simp: HasPrefix_def split: if_splits option.splits)
       (metis append_take_drop_id)
qed

lemma cut_at_shorter: "cut_at s sep = Some (a, b) \<Longrightarrow> sep \<noteq> [] \<Longrightarrow> length b < length s"
  using cut_at_SomeD [of s sep a b] by simp

lemma cut_at_None_iff: "cut_at s sep = None \<longleftrightarrow> (\<nexists>a b. s = a @ sep @ b)"
proof (induction s sep rule: cut_at.induct)
  case (1 sep)
  then show ?case by simp
next
  case (2 c cs sep)
  show ?case
  proof (cases "HasPrefix (c # cs) sep")
    case True
    then obtain t where "c # cs = [] @ sep @ t" by (auto simp: HasPrefix_iff)
    with True show ?thesis by (metis cut_at.simps(2) option.distinct(1))
  next
    case False
    have "(\<nexists>a b. c # cs = a @ sep @ b) \<longleftrightarrow> (\<nexists>a b. cs = a @ sep @ b)"
    proof (intro iffI notI; elim exE)
      fix a b assume *: "\<nexists>a b. c # cs = a @ sep @ b" and "cs = a @ sep @ b"
      then have "c # cs = (c # a) @ sep @ b" by simp
      with * show False by blast
    next
      fix a b assume *: "\<nexists>a b. cs = a @ sep @ b" and eq: "c # cs = a @ sep @ b"
      with False have "a \<noteq> []" by (auto simp: HasPrefix_iff)
      with eq obtain a' where "cs = a' @ sep @ b" by (cases a) auto
      with * show False by blast
    qed
    with 2 False show ?thesis by (auto split: option.splits)
  qed
qed

lemma Contains_iff: "Contains s sub \<longleftrightarrow> (\<exists>a b. s = a @ sub @ b)"
  by (auto simp: Contains_def cut_at_None_iff)

text \<open>The first byte of a separator does not occur before it.\<close>

lemma cut_at_free:
  assumes "d \<notin> set a"
  shows "cut_at (a @ (d # sep) @ b) (d # sep) = Some (a, b)"
  using assms by (induction a) auto

lemma cut_at_absent: "d \<notin> set s \<Longrightarrow> cut_at s (d # sep) = None"
  by (auto simp: cut_at_None_iff)

section \<open>Splitting and replacing\<close>

text \<open>
  \<open>strings.Split\<close> for a separator that is not empty, as everywhere in the program.
\<close>

function Split :: "string \<Rightarrow> string \<Rightarrow> string list" where
  "Split s sep =
     (case cut_at s sep of
        None \<Rightarrow> [s]
      | Some (a, b) \<Rightarrow> if sep = [] then [s] else a # Split b sep)"
  by pat_completeness auto
termination
  by (relation "measure (\<lambda>(s, sep). length s)") (auto dest: cut_at_shorter)

declare Split.simps [simp del]

text \<open>\<open>strings.SplitN\<close> for a count that is positive.\<close>

fun SplitN :: "string \<Rightarrow> string \<Rightarrow> nat \<Rightarrow> string list" where
  "SplitN s sep 0 = []"
| "SplitN s sep (Suc 0) = [s]"
| "SplitN s sep (Suc n) =
     (case cut_at s sep of None \<Rightarrow> [s] | Some (a, b) \<Rightarrow> a # SplitN b sep n)"

fun Join :: "string list \<Rightarrow> string \<Rightarrow> string" where
  "Join [] sep = []"
| "Join [s] sep = s"
| "Join (s # ss) sep = s @ sep @ Join ss sep"

text \<open>
  \<open>strings.ReplaceAll\<close> for an old text that is not empty.
\<close>

definition ReplaceAll :: "string \<Rightarrow> string \<Rightarrow> string \<Rightarrow> string" where
  "ReplaceAll s old new = Join (Split s old) new"

text \<open>
  \<open>strings.NewReplacer(pairs).Replace\<close>: at each position the first pair, in argument order,
  whose old text starts there is replaced, without overlapping matches.
\<close>

function Replace :: "(string \<times> string) list \<Rightarrow> string \<Rightarrow> string" where
  "Replace ps [] = []"
| "Replace ps (c # cs) =
     (case find (\<lambda>(old, new). old \<noteq> [] \<and> HasPrefix (c # cs) old) ps of
        None \<Rightarrow> c # Replace ps cs
      | Some (old, new) \<Rightarrow> new @ Replace ps (drop (length old) (c # cs)))"
  by pat_completeness auto
termination
  by (relation "measure (\<lambda>(ps, s). length s)") (auto dest!: find_Some_mem)

lemma Split_absent: "d \<notin> set s \<Longrightarrow> Split s (d # sep) = [s]"
  by (subst Split.simps) (simp add: cut_at_absent)

lemma Split_free: "d \<notin> set a \<Longrightarrow> Split (a @ (d # sep) @ b) (d # sep) = a # Split b (d # sep)"
  by (subst Split.simps) (use cut_at_free [of d a sep b] in simp)

lemma Split_not_Nil [simp]: "Split s sep \<noteq> []"
  by (subst Split.simps) (auto split: option.splits)

lemma Split_Join:
  assumes "ss \<noteq> []" and "\<forall>s \<in> set ss. d \<notin> set s"
  shows "Split (Join ss [d]) [d] = ss"
  using assms
proof (induction ss "[d]" rule: Join.induct)
  case 1
  then show ?case by simp
next
  case (2 s)
  then show ?case by (simp add: Split_absent)
next
  case (3 s s' ss)
  then show ?case using Split_free [of d s "[]" "Join (s' # ss) [d]"] by simp
qed

lemma Join_Split: "Join (Split s sep) sep = s"
proof (induction s sep rule: Split.induct)
  case (1 s sep)
  show ?case
  proof (cases "cut_at s sep")
    case None
    then show ?thesis by (subst Split.simps) simp
  next
    case (Some ab)
    obtain a b where ab: "ab = (a, b)" by (cases ab)
    show ?thesis
    proof (cases "sep = []")
      case True
      with Some ab show ?thesis by (subst Split.simps) simp
    next
      case False
      then obtain x xs where split: "Split b sep = x # xs"
        by (meson Split_not_Nil neq_Nil_conv)
      from 1 [OF Some ab [symmetric] False] have "Join (Split b sep) sep = b" .
      moreover from Some ab have "s = a @ sep @ b" by (simp add: cut_at_SomeD)
      ultimately show ?thesis
        using Some ab False split by (subst Split.simps) simp
    qed
  qed
qed

lemma ReplaceAll_absent: "d \<notin> set s \<Longrightarrow> ReplaceAll s (d # old) new = s"
  by (simp add: ReplaceAll_def Split_absent)

section \<open>White space\<close>

text \<open>
  The UTF-8 encodings of the runes that \<open>unicode.IsSpace\<close> accepts. No proper suffix of a
  UTF-8 sequence starts with the first byte of one of them, so scanning byte by byte finds
  the same runes as decoding.
\<close>

definition space_runes :: "string list" where
  "space_runes =
     map (\<lambda>c. [c]) [CHR 0x09, CHR 0x0A, CHR 0x0B, CHR 0x0C, CHR 0x0D, CHR 0x20]
     @ [[CHR 0xC2, CHR 0x85], [CHR 0xC2, CHR 0xA0], [CHR 0xE1, CHR 0x9A, CHR 0x80]]
     @ map (\<lambda>c. [CHR 0xE2, CHR 0x80, c])
         [CHR 0x80, CHR 0x81, CHR 0x82, CHR 0x83, CHR 0x84, CHR 0x85, CHR 0x86, CHR 0x87,
          CHR 0x88, CHR 0x89, CHR 0x8A, CHR 0xA8, CHR 0xA9, CHR 0xAF]
     @ [[CHR 0xE2, CHR 0x81, CHR 0x9F], [CHR 0xE3, CHR 0x80, CHR 0x80]]"

text \<open>The number of bytes of the white-space rune a string starts (ends) with, or 0.\<close>

definition space_prefix :: "string \<Rightarrow> nat" where
  "space_prefix s = (case find (HasPrefix s) space_runes of None \<Rightarrow> 0 | Some r \<Rightarrow> length r)"

definition space_suffix :: "string \<Rightarrow> nat" where
  "space_suffix s = (case find (HasSuffix s) space_runes of None \<Rightarrow> 0 | Some r \<Rightarrow> length r)"

lemma space_prefix_le: "space_prefix s \<le> length s"
  by (auto simp: space_prefix_def HasPrefix_iff split: option.splits dest!: find_Some_mem)

lemma space_suffix_le: "space_suffix s \<le> length s"
  by (auto simp: space_suffix_def HasSuffix_def split: option.splits dest!: find_Some_mem)

function TrimLeftSpace :: "string \<Rightarrow> string" where
  "TrimLeftSpace s =
     (if space_prefix s = 0 then s else TrimLeftSpace (drop (space_prefix s) s))"
  by pat_completeness auto
termination
proof (relation "measure length")
  fix s assume "space_prefix s \<noteq> 0"
  with space_prefix_le [of s] show "(drop (space_prefix s) s, s) \<in> measure length" by simp
qed simp

function TrimRightSpace :: "string \<Rightarrow> string" where
  "TrimRightSpace s =
     (if space_suffix s = 0 then s
      else TrimRightSpace (take (length s - space_suffix s) s))"
  by pat_completeness auto
termination
proof (relation "measure length")
  fix s assume "space_suffix s \<noteq> 0"
  with space_suffix_le [of s]
  show "(take (length s - space_suffix s) s, s) \<in> measure length" by simp
qed simp

declare TrimLeftSpace.simps [simp del] TrimRightSpace.simps [simp del]

definition TrimSpace :: "string \<Rightarrow> string" where
  "TrimSpace s = TrimRightSpace (TrimLeftSpace s)"

text \<open>\<open>strings.Fields\<close>; the first argument is the field that is being read.\<close>

function fields_from :: "string \<Rightarrow> string \<Rightarrow> string list" where
  "fields_from cur [] = (if cur = [] then [] else [cur])"
| "fields_from cur (c # cs) =
     (if space_prefix (c # cs) = 0 then fields_from (cur @ [c]) cs
      else (if cur = [] then [] else [cur])
           @ fields_from [] (drop (space_prefix (c # cs)) (c # cs)))"
  by pat_completeness auto
termination
  by (relation "measure (\<lambda>(cur, s). length s)") auto

definition Fields :: "string \<Rightarrow> string list" where
  "Fields s = fields_from [] s"

text \<open>
  Bytes of which no white-space rune is made: what the texts the program reads consist of.
\<close>

definition space_bytes :: "char list" where
  "space_bytes = remdups (concat space_runes)"

definition no_space :: "string \<Rightarrow> bool" where
  "no_space s \<longleftrightarrow> (\<forall>c \<in> set s. c \<notin> set space_bytes)"

lemma no_space_simps [simp]:
  "no_space []"
  "no_space (c # s) \<longleftrightarrow> c \<notin> set space_bytes \<and> no_space s"
  "no_space (s @ t) \<longleftrightarrow> no_space s \<and> no_space t"
  by (auto simp: no_space_def)

lemma space_runes_nonempty: "[] \<notin> set space_runes"
  by (simp add: space_runes_def)

lemma space_rune_bytes: "r \<in> set space_runes \<Longrightarrow> c \<in> set r \<Longrightarrow> c \<in> set space_bytes"
  by (auto simp: space_bytes_def)

lemma space_prefix_clean: "c \<notin> set space_bytes \<Longrightarrow> space_prefix (c # s) = 0"
proof -
  assume c: "c \<notin> set space_bytes"
  have "find (HasPrefix (c # s)) space_runes = None"
    unfolding find_None_all
  proof
    fix r assume r: "r \<in> set space_runes"
    with space_runes_nonempty obtain d r' where "r = d # r'" by (cases r) auto
    with r c show "\<not> HasPrefix (c # s) r" by (auto dest: space_rune_bytes)
  qed
  then show ?thesis by (simp add: space_prefix_def)
qed

lemma space_suffix_clean: "c \<notin> set space_bytes \<Longrightarrow> space_suffix (s @ [c]) = 0"
proof -
  assume c: "c \<notin> set space_bytes"
  have "find (HasSuffix (s @ [c])) space_runes = None"
    unfolding find_None_all
  proof
    fix r assume r: "r \<in> set space_runes"
    with space_runes_nonempty obtain d r' where "r = r' @ [d]" by (cases r rule: rev_cases) auto
    with r c show "\<not> HasSuffix (s @ [c]) r" by (auto simp: HasSuffix_iff dest: space_rune_bytes)
  qed
  then show ?thesis by (simp add: space_suffix_def)
qed

lemma TrimLeftSpace_clean: "c \<notin> set space_bytes \<Longrightarrow> TrimLeftSpace (c # s) = c # s"
  by (subst TrimLeftSpace.simps) (simp add: space_prefix_clean)

lemma TrimRightSpace_clean: "c \<notin> set space_bytes \<Longrightarrow> TrimRightSpace (s @ [c]) = s @ [c]"
  by (subst TrimRightSpace.simps) (simp add: space_suffix_clean)

lemma TrimRightSpace_no_space: "no_space s \<Longrightarrow> TrimRightSpace s = s"
proof (cases s rule: rev_cases)
  case Nil
  have "find (HasSuffix []) space_runes = None"
    using space_runes_nonempty by (auto simp: find_None_all HasSuffix_iff)
  with Nil show ?thesis by (subst TrimRightSpace.simps) (simp add: space_suffix_def)
next
  case (snoc t c)
  assume "no_space s"
  with snoc show ?thesis by (simp add: TrimRightSpace_clean)
qed

lemma TrimSpace_no_space: "no_space s \<Longrightarrow> TrimSpace s = s"
proof (cases s)
  case Nil
  have "find (HasPrefix []) space_runes = None"
    using space_runes_nonempty by (auto simp: find_None_all HasPrefix_iff)
  with Nil show ?thesis
    by (simp add: TrimSpace_def TrimLeftSpace.simps [of "[]"] space_prefix_def
        TrimRightSpace_no_space)
next
  case (Cons c t)
  assume "no_space s"
  with Cons show ?thesis
    by (simp add: TrimSpace_def TrimLeftSpace_clean TrimRightSpace_no_space)
qed

text \<open>The space, the tab and the newline are white space: each of them is one rune.\<close>

lemma space_prefix_ascii [simp]:
  "space_prefix (CHR '' '' # s) = 1"
  "space_prefix (CHR 0x09 # s) = 1"
  "space_prefix (CHR 0x0A # s) = 1"
  by (simp_all add: space_prefix_def space_runes_def)

lemma space_suffix_newline [simp]: "space_suffix (s @ [CHR 0x0A]) = 1"
  by (simp add: space_suffix_def space_runes_def HasSuffix_def)

lemma TrimSpace_newline:
  assumes "no_space s"
  shows "TrimSpace (s @ [CHR 0x0A]) = s"
proof (cases s)
  case Nil
  then show ?thesis
    using TrimSpace_no_space [of "[]"]
    by (simp add: TrimSpace_def TrimLeftSpace.simps [of "[CHR 0x0A]"])
next
  case (Cons c t)
  with assms have "TrimLeftSpace (s @ [CHR 0x0A]) = s @ [CHR 0x0A]"
    by (simp add: TrimLeftSpace_clean)
  moreover have "TrimRightSpace (s @ [CHR 0x0A]) = TrimRightSpace s"
    by (subst TrimRightSpace.simps) simp
  ultimately show ?thesis
    using assms by (simp add: TrimSpace_def TrimRightSpace_no_space)
qed

lemma fields_from_clean: "no_space s \<Longrightarrow> fields_from cur (s @ t) = fields_from (cur @ s) t"
  by (induction s arbitrary: cur) (auto simp: space_prefix_clean)

lemma fields_from_space:
  "fields_from cur (CHR '' '' # t) = (if cur = [] then [] else [cur]) @ fields_from [] t"
  by simp

text \<open>Fields without white space, joined by single spaces, are read back.\<close>

lemma Fields_Join:
  assumes "\<forall>f \<in> set fs. f \<noteq> [] \<and> no_space f"
  shows "Fields (Join fs '' '') = fs"
  using assms
proof (induction fs "'' ''" rule: Join.induct)
  case 1
  then show ?case by (simp add: Fields_def)
next
  case (2 s)
  then show ?case using fields_from_clean [of s "[]" "[]"] by (simp add: Fields_def)
next
  case (3 s s' ss)
  then show ?case
    using fields_from_clean [of s "[]" "CHR '' '' # Join (s' # ss) '' ''"]
    by (simp add: Fields_def)
qed

end
