(* ===== verification/Go_Runtime.thy ===== *)
theory Go_Runtime
  imports Go_Strings
begin

text \<open>
  Numbers (\<open>strconv\<close>), paths (\<open>path/filepath\<close> on Unix) and the line scanner of \<open>bufio\<close>,
  as the program uses them.
\<close>

section \<open>Numbers\<close>

datatype num_error = ErrSyntax | ErrRange

definition is_digit :: "char \<Rightarrow> bool" where
  "is_digit c \<longleftrightarrow> of_char c \<ge> (48::nat) \<and> of_char c \<le> (57::nat)"

definition digit_val :: "char \<Rightarrow> nat" where
  "digit_val c = of_char c - 48"

text \<open>
  The digit loop of \<open>strconv.ParseUint\<close> in base 10 and 64 bits: it fails at the first byte
  that is not a digit or that makes the value exceed 64 bits, whichever comes first.
\<close>

fun parse_digits :: "nat \<Rightarrow> string \<Rightarrow> num_error + nat" where
  "parse_digits n [] = Inr n"
| "parse_digits n (c # cs) =
     (if \<not> is_digit c then Inl ErrSyntax
      else if 10 * n + digit_val c \<ge> 2 ^ 64 then Inl ErrRange
      else parse_digits (10 * n + digit_val c) cs)"

definition ParseUint :: "string \<Rightarrow> num_error + 64 word" where
  "ParseUint s =
     (if s = [] then Inl ErrSyntax
      else case parse_digits 0 s of Inl e \<Rightarrow> Inl e | Inr n \<Rightarrow> Inr (word_of_nat n))"

text \<open>
  \<open>strconv.Atoi\<close> on a 64-bit \<open>int\<close>: the value and the error. On a syntax error the value
  is 0, on a range error it is the nearest bound.
\<close>

definition Atoi :: "string \<Rightarrow> int \<times> num_error option" where
  "Atoi s =
     (let neg = HasPrefix s ''-'';
          body = (if neg \<or> HasPrefix s ''+'' then drop 1 s else s)
      in if body = [] then (0, Some ErrSyntax)
         else case parse_digits 0 body of
           Inl ErrSyntax \<Rightarrow> (0, Some ErrSyntax)
         | Inl ErrRange \<Rightarrow> (if neg then - (2 ^ 63) else 2 ^ 63 - 1, Some ErrRange)
         | Inr n \<Rightarrow>
             (if \<not> neg \<and> n \<ge> 2 ^ 63 then (2 ^ 63 - 1, Some ErrRange)
              else if neg \<and> n > 2 ^ 63 then (- (2 ^ 63), Some ErrRange)
              else (if neg then - int n else int n, None)))"

lemma parse_digits_bound: "parse_digits n s = Inr m \<Longrightarrow> n < 2 ^ 64 \<Longrightarrow> m < 2 ^ 64"
  by (induction n s rule: parse_digits.induct) (auto split: if_splits)

lemma parse_digits_syntax: "\<not> is_digit c \<Longrightarrow> c \<in> set s \<Longrightarrow> \<exists>e. parse_digits n s = Inl e"
  by (induction n s rule: parse_digits.induct) auto

lemma unat_ParseUint: "ParseUint s = Inr w \<Longrightarrow> parse_digits 0 s = Inr (unat w)"
  using parse_digits_bound [of 0 s]
  by (auto simp: ParseUint_def unat_of_nat split: if_splits sum.splits)

lemma Atoi_Nil [simp]: "Atoi [] = (0, Some ErrSyntax)"
  by (simp add: Atoi_def HasPrefix_def)

lemma Atoi_bounds: "Atoi s = (v, e) \<Longrightarrow> - (2 ^ 63) \<le> v \<and> v \<le> 2 ^ 63 - 1"
  by (auto simp: Atoi_def Let_def split: if_splits sum.splits num_error.splits)

section \<open>Decimal rendering\<close>

text \<open>
  Decimal digits as \<open>fmt.Sprintf("%d")\<close> and the kernel print them; used to state that a
  printed size is read back.
\<close>

fun decimal :: "nat \<Rightarrow> string" where
  "decimal n =
     (if n < 10 then [char_of (48 + n)] else decimal (n div 10) @ [char_of (48 + n mod 10)])"

declare decimal.simps [simp del]

lemma of_char_digit: "d < (10::nat) \<Longrightarrow> of_char (char_of (48 + d)) = 48 + d"
  by simp

lemma digit_char [simp]: "d < (10::nat) \<Longrightarrow> is_digit (char_of (48 + d))"
  by (simp add: is_digit_def)

lemma digit_val_char [simp]: "d < (10::nat) \<Longrightarrow> digit_val (char_of (48 + d)) = d"
  by (simp add: digit_val_def)

lemma parse_digits_append:
  "parse_digits n (s @ t) =
     (case parse_digits n s of Inl e \<Rightarrow> Inl e | Inr m \<Rightarrow> parse_digits m t)"
  by (induction n s rule: parse_digits.induct) auto

lemma parse_digits_decimal: "m < 2 ^ 64 \<Longrightarrow> parse_digits 0 (decimal m) = Inr m"
proof (induction m rule: decimal.induct)
  case (1 n)
  show ?case
  proof (cases "n < 10")
    case True
    with "1.prems" show ?thesis by (subst decimal.simps) simp
  next
    case False
    with 1 have "parse_digits 0 (decimal (n div 10)) = Inr (n div 10)" by auto
    with False "1.prems" show ?thesis
      by (subst decimal.simps) (simp add: parse_digits_append)
  qed
qed

lemma decimal_not_Nil [simp]: "decimal n \<noteq> []"
  by (subst decimal.simps) simp

lemma ParseUint_decimal: "ParseUint (decimal (unat w)) = Inr (w :: 64 word)"
proof -
  have "unat w < 2 ^ 64" using unsigned_less [of w] by simp
  then show ?thesis by (simp add: ParseUint_def parse_digits_decimal)
qed

lemma digit_no_space: "d < (10::nat) \<Longrightarrow> char_of (48 + d) \<notin> set space_bytes"
proof -
  assume "d < 10"
  then have "of_char (char_of (48 + d) :: char) = 48 + d" by (rule of_char_digit)
  moreover have "\<forall>c \<in> set space_bytes. of_char c \<notin> {48 .. 57 :: nat}"
    by (simp add: space_bytes_def space_runes_def)
  ultimately show ?thesis using \<open>d < 10\<close> by fastforce
qed

lemma no_space_decimal [simp]: "no_space (decimal n)"
proof (induction n rule: decimal.induct)
  case (1 n)
  then show ?case
    by (subst decimal.simps) (auto simp: digit_no_space)
qed

section \<open>Paths\<close>

text \<open>
  \<open>filepath.Clean\<close>: empty and \<open>.\<close> elements disappear, \<open>..\<close> removes the element before it.
\<close>

definition clean_step :: "bool \<Rightarrow> string list \<Rightarrow> string \<Rightarrow> string list" where
  "clean_step rooted out c =
     (if c = [] \<or> c = ''.'' then out
      else if c = ''..'' then
        (case out of
           o1 # os \<Rightarrow> if o1 \<noteq> ''..'' then os else ''..'' # out
         | [] \<Rightarrow> if rooted then [] else [''..''])
      else c # out)"

definition Clean :: "string \<Rightarrow> string" where
  "Clean path =
     (if path = [] then ''.''
      else
        let rooted = HasPrefix path ''/'';
            out = foldl (clean_step rooted) [] (Split path ''/'');
            res = (if rooted then ''/'' else []) @ Join (rev out) ''/''
        in if res = [] then ''.'' else res)"

definition PathJoin :: "string list \<Rightarrow> string" where
  "PathJoin elems =
     (case dropWhile (\<lambda>e. e = []) elems of
        [] \<Rightarrow> [] | es \<Rightarrow> Clean (Join es ''/''))"

definition Base :: "string \<Rightarrow> string" where
  "Base path =
     (if path = [] then ''.''
      else
        let p = rev (dropWhile (\<lambda>c. c = CHR ''/'') (rev path));
            q = last (Split p ''/'')
        in if q = [] then ''/'' else q)"

lemma Split_pieces: "x \<in> set (Split s [d]) \<Longrightarrow> d \<notin> set x"
proof (induction s "[d]" rule: Split.induct)
  case (1 s)
  have free: "d \<notin> set a" if "cut_at s [d] = Some (a, b)" for a b
    using that
  proof (induction s arbitrary: a)
    case (Cons c cs)
    then show ?case by (auto split: if_splits option.splits)
  qed simp
  show ?case
  proof (cases "cut_at s [d]")
    case None
    with "1.prems" have "x = s" by (subst (asm) Split.simps) simp
    with None show ?thesis by (auto simp: cut_at_None_iff) (metis split_list)
  next
    case (Some ab)
    obtain a b where "ab = (a, b)" by (cases ab)
    with Some 1 free show ?thesis by (subst (asm) (2) Split.simps) auto
  qed
qed

lemma Base_no_slash: "Base p = ''/'' \<or> CHR ''/'' \<notin> set (Base p)"
  using Split_pieces [where d = "CHR ''/''", OF last_in_set [OF Split_not_Nil]]
  by (simp add: Base_def Let_def)

lemma Base_not_below: "\<not> HasPrefix (Base p) (c # d # s @ ''/'')"
  using Base_no_slash [of p] by (auto simp: HasPrefix_iff)

section \<open>Lines\<close>

text \<open>
  \<open>bufio.Scanner\<close> with its default settings (split at newlines, tokens of at most 64 KiB):
  a line that is longer stops the scan. A carriage return before the newline is dropped.
\<close>

definition MaxScanTokenSize :: nat where
  "MaxScanTokenSize = 65536"

definition dropCR :: "string \<Rightarrow> string" where
  "dropCR s = TrimSuffix s [CHR 0x0D]"

definition raw_lines :: "string \<Rightarrow> string list" where
  "raw_lines s =
     (let ls = Split s [CHR 0x0A] in if last ls = [] then butlast ls else ls)"

definition scan_lines :: "string \<Rightarrow> string list" where
  "scan_lines s = map dropCR (takeWhile (\<lambda>l. length l < MaxScanTokenSize) (raw_lines s))"

lemma raw_lines_unlines:
  assumes "\<forall>l \<in> set ls. CHR 0x0A \<notin> set l"
  shows "raw_lines (concat (map (\<lambda>l. l @ [CHR 0x0A]) ls)) = ls"
proof -
  have "Split (concat (map (\<lambda>l. l @ [CHR 0x0A]) ls)) [CHR 0x0A] = ls @ [[]]"
    using assms
  proof (induction ls)
    case Nil
    then show ?case by (simp add: Split_absent)
  next
    case (Cons l ls)
    then show ?case
      using Split_free [of "CHR 0x0A" l "[]" "concat (map (\<lambda>l. l @ [CHR 0x0A]) ls)"] by simp
  qed
  then show ?thesis by (simp add: raw_lines_def Let_def)
qed

lemma scan_lines_unlines:
  assumes "\<forall>l \<in> set ls. CHR 0x0A \<notin> set l \<and> \<not> HasSuffix l [CHR 0x0D] \<and> length l < MaxScanTokenSize"
  shows "scan_lines (concat (map (\<lambda>l. l @ [CHR 0x0A]) ls)) = ls"
proof -
  have "takeWhile (\<lambda>l. length l < MaxScanTokenSize) ls = ls"
    using assms by simp
  moreover have "map dropCR ls = ls"
    using assms by (intro map_idI) (auto simp: dropCR_def TrimSuffix_def)
  moreover have "raw_lines (concat (map (\<lambda>l. l @ [CHR 0x0A]) ls)) = ls"
    using assms by (intro raw_lines_unlines) blast
  ultimately show ?thesis by (simp only: scan_lines_def)
qed

end
