(* ===== verification/Host.thy ===== *)
theory Host
  imports Go_Runtime
begin

text \<open>
  What the scanner of block devices sees of the machine it runs on: files, directories,
  symbolic links and the output of commands. The kernel, udev and the \<open>blkid\<close> program are
  not part of the repository, so a host is an arbitrary record of their answers; the model
  computes on it. One host is the machine at one moment.
\<close>

section \<open>The machine\<close>

text \<open>
  A read either fails at the open, or fails after some bytes were read, or yields the
  whole contents.
\<close>

datatype file_read = OpenFails string | ReadFails string string | Contents string

datatype file_stat = StatOK | StatNotExist string | StatFails string

record host =
  host_file :: "string \<Rightarrow> file_read"
  host_dir :: "string \<Rightarrow> string list option"
  host_link :: "string \<Rightarrow> string option"
  host_exec :: "string list \<Rightarrow> string + string"
  host_stat :: "string \<Rightarrow> file_stat"

text \<open>
  \<open>ioutil.ReadFile\<close> returns the bytes it read together with the error;
  \<open>ioutil.ReadDir\<close> returns the entries sorted by name.
\<close>

definition ReadFile :: "host \<Rightarrow> string \<Rightarrow> string \<times> string option" where
  "ReadFile h path =
     (case host_file h path of
        OpenFails e \<Rightarrow> ([], Some e)
      | ReadFails part e \<Rightarrow> (part, Some e)
      | Contents s \<Rightarrow> (s, None))"

definition ReadDir :: "host \<Rightarrow> string \<Rightarrow> string list option" where
  "ReadDir h path = map_option sort (host_dir h path)"

text \<open>
  \<open>os.Open\<close> followed by a line scanner: the lines read before an error are delivered.
\<close>

definition open_lines :: "host \<Rightarrow> string \<Rightarrow> string list option" where
  "open_lines h path =
     (case host_file h path of
        OpenFails e \<Rightarrow> None
      | ReadFails part e \<Rightarrow> Some (scan_lines part)
      | Contents s \<Rightarrow> Some (scan_lines s))"

lemma ReadFile_None [simp]: "ReadFile h path = (s, None) \<longleftrightarrow> host_file h path = Contents s"
  by (auto simp: ReadFile_def split: file_read.splits)

lemma ReadDir_sorted: "ReadDir h path = Some fs \<Longrightarrow> sorted fs"
  by (auto simp: ReadDir_def)

lemma ReadDir_set: "host_dir h path = Some fs \<Longrightarrow> \<exists>gs. ReadDir h path = Some gs \<and> set gs = set fs"
  by (simp add: ReadDir_def)

section \<open>Paths and helpers of the ghw library\<close>

text \<open>The fields of \<open>linuxpath.Paths\<close> that the scanner uses.\<close>

record paths =
  SysBlock :: string
  ProcMounts :: string
  RunUdevData :: string

record ghw_ctx =
  Chroot :: string
  PathOverrides :: "(string \<times> string) list"

definition path_root :: "ghw_ctx \<Rightarrow> string \<Rightarrow> string" where
  "path_root ctx d = (case map_of (PathOverrides ctx) d of None \<Rightarrow> d | Some p \<Rightarrow> p)"

definition linuxpath_New :: "ghw_ctx \<Rightarrow> paths" where
  "linuxpath_New ctx =
     \<lparr> SysBlock = PathJoin [Chroot ctx, path_root ctx ''/sys'', ''block''],
       ProcMounts = PathJoin [Chroot ctx, path_root ctx ''/proc'', ''self'', ''mounts''],
       RunUdevData = PathJoin [Chroot ctx, path_root ctx ''/run'', ''udev'', ''data''] \<rparr>"

definition UNKNOWN :: string where
  "UNKNOWN = ''unknown''"

definition SafeIntFromFile :: "host \<Rightarrow> string \<Rightarrow> int" where
  "SafeIntFromFile h path =
     (case ReadFile h path of
        (buf, Some e) \<Rightarrow> - 1
      | (buf, None) \<Rightarrow>
          (case Atoi (TrimSpace buf) of (res, None) \<Rightarrow> res | (res, Some e) \<Rightarrow> - 1))"

datatype DriveType =
    DRIVE_TYPE_UNKNOWN | DRIVE_TYPE_HDD | DRIVE_TYPE_FDD | DRIVE_TYPE_ODD | DRIVE_TYPE_SSD

datatype StorageController =
    STORAGE_CONTROLLER_UNKNOWN | STORAGE_CONTROLLER_IDE | STORAGE_CONTROLLER_SCSI
  | STORAGE_CONTROLLER_NVME | STORAGE_CONTROLLER_VIRTIO | STORAGE_CONTROLLER_MMC

fun DriveType_String :: "DriveType \<Rightarrow> string" where
  "DriveType_String DRIVE_TYPE_UNKNOWN = ''Unknown''"
| "DriveType_String DRIVE_TYPE_HDD = ''HDD''"
| "DriveType_String DRIVE_TYPE_FDD = ''FDD''"
| "DriveType_String DRIVE_TYPE_ODD = ''ODD''"
| "DriveType_String DRIVE_TYPE_SSD = ''SSD''"

fun StorageController_String :: "StorageController \<Rightarrow> string" where
  "StorageController_String STORAGE_CONTROLLER_UNKNOWN = ''Unknown''"
| "StorageController_String STORAGE_CONTROLLER_IDE = ''IDE''"
| "StorageController_String STORAGE_CONTROLLER_SCSI = ''SCSI''"
| "StorageController_String STORAGE_CONTROLLER_NVME = ''NVMe''"
| "StorageController_String STORAGE_CONTROLLER_VIRTIO = ''virtio''"
| "StorageController_String STORAGE_CONTROLLER_MMC = ''MMC''"

text \<open>With the default context the scanner reads \<open>/sys/block\<close> and the mount table.\<close>

lemma linuxpath_New_default:
  "linuxpath_New \<lparr>Chroot = ''/'', PathOverrides = []\<rparr> =
     \<lparr>SysBlock = ''/sys/block'', ProcMounts = ''/proc/self/mounts'', RunUdevData = ''/run/udev/data''\<rparr>"
  by code_simp

end
