(* ===== verification/Block.thy ===== *)
theory Block
  imports Host
begin

text \<open>
  Package \<open>pkg/block\<close>: reading the disks, partitions and mounts of a host
  (\<open>block.go\<close>, \<open>block_device.go\<close>, \<open>blkid.go\<close>). Logging is left out; every other effect of
  these functions is a read of the host.
\<close>

section \<open>Data\<close>

record FileSystemInfo =
  fsi_FsType :: string
  fsi_IsReadOnly :: bool
  fsi_MountPoint :: string

text \<open>The pointer from a partition to its disk is represented by the disk's name.\<close>

record Partition =
  part_Disk :: "string option"
  part_Name :: string
  part_Label :: string
  part_SizeBytes :: "64 word"
  part_UUID :: string
  part_FileSystemInfo :: FileSystemInfo

record Disk =
  disk_Name :: string
  disk_SizeBytes :: "64 word"
  disk_PhysicalBlockSizeBytes :: "64 word"
  disk_DriveType :: DriveType
  disk_IsRemovable :: bool
  disk_StorageController :: StorageController
  disk_UUID :: string
  disk_PtUUID :: string
  disk_BusPath :: string
  disk_FileSystemInfo :: FileSystemInfo
  disk_NUMANodeID :: int
  disk_Vendor :: string
  disk_Model :: string
  disk_SerialNumber :: string
  disk_WWN :: string
  disk_Partitions :: "Partition list"

record Info =
  info_ctx :: ghw_ctx
  info_Disks :: "Disk list"

definition sectorSize :: "64 word" where
  "sectorSize = 512"

section \<open>blkid\<close>

definition full_path :: "string \<Rightarrow> string" where
  "full_path part = (if \<not> HasPrefix part ''/dev'' then ''/dev/'' @ part else part)"

definition blkid_field :: "string \<Rightarrow> string \<Rightarrow> string" where
  "blkid_field sep out =
     (let parts = Split out sep
      in if length parts \<noteq> 2 then []
         else ReplaceAll (TrimSpace (parts ! 1)) [CHR 0x22] [])"

definition GetFileSystemType :: "host \<Rightarrow> string \<Rightarrow> string" where
  "GetFileSystemType h part =
     (case host_exec h [''blkid'', ''-s'', ''TYPE'', full_path part] of
        Inl err \<Rightarrow> []
      | Inr out \<Rightarrow> if out = [] then [] else blkid_field ''TYPE='' out)"

definition GetDiskUUID :: "host \<Rightarrow> string \<Rightarrow> string \<Rightarrow> string" where
  "GetDiskUUID h part uuidType =
     (case host_exec h [''blkid'', ''-s'', uuidType, full_path part] of
        Inl err \<Rightarrow> []
      | Inr out \<Rightarrow> if out = [] then [] else blkid_field ''UUID='' out)"

section \<open>Attributes of a disk in sysfs\<close>

text \<open>A sysfs or udev file that holds one unsigned number.\<close>

definition read_uint :: "host \<Rightarrow> string \<Rightarrow> 64 word option" where
  "read_uint h path =
     (case ReadFile h path of
        (contents, Some err) \<Rightarrow> None
      | (contents, None) \<Rightarrow>
          (case ParseUint (TrimSpace contents) of Inl err \<Rightarrow> None | Inr n \<Rightarrow> Some n))"

definition diskPhysicalBlockSizeBytes :: "host \<Rightarrow> paths \<Rightarrow> string \<Rightarrow> 64 word" where
  "diskPhysicalBlockSizeBytes h ps disk =
     (case read_uint h (PathJoin [SysBlock ps, disk, ''queue'', ''physical_block_size'']) of
        None \<Rightarrow> 0 | Some n \<Rightarrow> n)"

definition diskSizeBytes :: "host \<Rightarrow> paths \<Rightarrow> string \<Rightarrow> 64 word" where
  "diskSizeBytes h ps disk =
     (case read_uint h (PathJoin [SysBlock ps, disk, ''size'']) of
        None \<Rightarrow> 0 | Some n \<Rightarrow> n * sectorSize)"

definition partitionSizeBytes :: "host \<Rightarrow> paths \<Rightarrow> string \<Rightarrow> string \<Rightarrow> 64 word" where
  "partitionSizeBytes h ps disk part =
     (case read_uint h (PathJoin [SysBlock ps, disk, part, ''size'']) of
        None \<Rightarrow> 0 | Some n \<Rightarrow> n * sectorSize)"

function numa_loop :: "host \<Rightarrow> paths \<Rightarrow> string \<Rightarrow> int" where
  "numa_loop h ps partial =
     (if \<not> HasPrefix partial ''../devices/'' then - 1
      else
        (case ReadFile h (PathJoin [SysBlock ps, partial, ''numa_node'']) of
           (nodeContents, Some err) \<Rightarrow>
             (case Atoi nodeContents of
                (nodeInt, Some err) \<Rightarrow> nodeInt
              | (nodeInt, None) \<Rightarrow> numa_loop h ps (Base partial))
         | (nodeContents, None) \<Rightarrow> numa_loop h ps (Base partial)))"
  by pat_completeness auto
termination
proof (relation "measure (\<lambda>(h, ps, partial). if HasPrefix partial ''../devices/'' then 1 else 0)")
qed (use Base_not_below [of _ "CHR ''.''" "CHR ''.''" "''/devices''"] in auto)

declare numa_loop.simps [simp del]

definition diskNUMANodeID :: "host \<Rightarrow> paths \<Rightarrow> string \<Rightarrow> int" where
  "diskNUMANodeID h ps disk =
     (case host_link h (PathJoin [SysBlock ps, disk]) of
        None \<Rightarrow> - 1 | Some link \<Rightarrow> numa_loop h ps link)"

definition diskVendor :: "host \<Rightarrow> paths \<Rightarrow> string \<Rightarrow> string" where
  "diskVendor h ps disk =
     (case ReadFile h (PathJoin [SysBlock ps, disk, ''device'', ''vendor'']) of
        (contents, Some err) \<Rightarrow> UNKNOWN
      | (contents, None) \<Rightarrow> TrimSpace contents)"

definition diskIsRemovable :: "host \<Rightarrow> paths \<Rightarrow> string \<Rightarrow> bool" where
  "diskIsRemovable h ps disk =
     (case ReadFile h (PathJoin [SysBlock ps, disk, ''removable'']) of
        (contents, Some err) \<Rightarrow> False
      | (contents, None) \<Rightarrow> TrimSpace contents = ''1'')"

definition diskIsRotational :: "host \<Rightarrow> paths \<Rightarrow> string \<Rightarrow> bool" where
  "diskIsRotational h ps devName =
     (SafeIntFromFile h (PathJoin [SysBlock ps, devName, ''queue'', ''rotational'']) = 1)"

definition diskTypes :: "string \<Rightarrow> DriveType \<times> StorageController" where
  "diskTypes dname =
     (if HasPrefix dname ''fd'' then (DRIVE_TYPE_FDD, STORAGE_CONTROLLER_UNKNOWN)
      else if HasPrefix dname ''sd'' then (DRIVE_TYPE_HDD, STORAGE_CONTROLLER_SCSI)
      else if HasPrefix dname ''hd'' then (DRIVE_TYPE_HDD, STORAGE_CONTROLLER_IDE)
      else if HasPrefix dname ''vd'' then (DRIVE_TYPE_HDD, STORAGE_CONTROLLER_VIRTIO)
      else if HasPrefix dname ''nvme'' then (DRIVE_TYPE_SSD, STORAGE_CONTROLLER_NVME)
      else if HasPrefix dname ''sr'' then (DRIVE_TYPE_ODD, STORAGE_CONTROLLER_SCSI)
      else if HasPrefix dname ''xvd'' then (DRIVE_TYPE_HDD, STORAGE_CONTROLLER_SCSI)
      else if HasPrefix dname ''mmc'' then (DRIVE_TYPE_SSD, STORAGE_CONTROLLER_MMC)
      else (DRIVE_TYPE_UNKNOWN, STORAGE_CONTROLLER_UNKNOWN))"

section \<open>The udev database\<close>

definition udev_line :: "(string \<rightharpoonup> string) \<Rightarrow> string \<Rightarrow> (string \<rightharpoonup> string)" where
  "udev_line m udevLine =
     (if HasPrefix udevLine ''E:'' then
        (case SplitN (drop 2 udevLine) ''='' 2 of
           [k, v] \<Rightarrow> m(k \<mapsto> v)
         | _ \<Rightarrow> m)
      else m)"

definition udevInfo :: "host \<Rightarrow> paths \<Rightarrow> string \<Rightarrow> string + (string \<rightharpoonup> string)" where
  "udevInfo h ps disk =
     (case ReadFile h (PathJoin [SysBlock ps, disk, ''dev'']) of
        (devNo, Some err) \<Rightarrow> Inl err
      | (devNo, None) \<Rightarrow>
          (case ReadFile h (PathJoin [RunUdevData ps, ''b'' @ TrimSpace devNo]) of
             (udevBytes, Some err) \<Rightarrow> Inl err
           | (udevBytes, None) \<Rightarrow>
               Inr (foldl udev_line Map.empty (Split udevBytes [CHR 0x0A]))))"

text \<open>The value of the first of the given keys that the database has.\<close>

definition udev_lookup :: "host \<Rightarrow> paths \<Rightarrow> string \<Rightarrow> string list \<Rightarrow> string" where
  "udev_lookup h ps disk ks =
     (case udevInfo h ps disk of
        Inl err \<Rightarrow> UNKNOWN
      | Inr info \<Rightarrow>
          (case find (\<lambda>k. info k \<noteq> None) ks of None \<Rightarrow> UNKNOWN | Some k \<Rightarrow> the (info k)))"

definition diskModel :: "host \<Rightarrow> paths \<Rightarrow> string \<Rightarrow> string" where
  "diskModel h ps disk = udev_lookup h ps disk [''ID_MODEL'']"

definition diskSerialNumber :: "host \<Rightarrow> paths \<Rightarrow> string \<Rightarrow> string" where
  "diskSerialNumber h ps disk = udev_lookup h ps disk [''ID_SERIAL_SHORT'', ''ID_SERIAL'']"

definition diskBusPath :: "host \<Rightarrow> paths \<Rightarrow> string \<Rightarrow> string" where
  "diskBusPath h ps disk = udev_lookup h ps disk [''ID_PATH'']"

definition diskWWN :: "host \<Rightarrow> paths \<Rightarrow> string \<Rightarrow> string" where
  "diskWWN h ps disk = udev_lookup h ps disk [''ID_WWN_WITH_EXTENSION'', ''ID_WWN'']"

section \<open>Mounts\<close>

record mountEntry =
  me_Partition :: string
  me_Mountpoint :: string
  me_FilesystemType :: string
  me_Options :: "string list"

definition mount_replacer :: "(string \<times> string) list" where
  "mount_replacer =
     [([CHR 0x5C] @ ''011'', [CHR 0x09]), ([CHR 0x5C] @ ''012'', [CHR 0x0A]),
      ([CHR 0x5C] @ ''040'', '' ''), ([CHR 0x5C, CHR 0x5C], [CHR 0x5C])]"

text \<open>The read of \<open>line[0]\<close> panics on an empty line.\<close>

fun parseMountEntry :: "string \<Rightarrow> mountEntry option outcome" where
  "parseMountEntry [] = Panic ''index out of range [0] with length 0''"
| "parseMountEntry (c # cs) =
     (if c \<noteq> CHR ''/'' then Ret None
      else
        let fields = Fields (c # cs)
        in if length fields < 4 then Ret None
           else Ret (Some
             \<lparr> me_Partition = fields ! 0,
               me_Mountpoint = Replace mount_replacer (fields ! 1),
               me_FilesystemType = fields ! 2,
               me_Options = Split (fields ! 3) '','' \<rparr>))"

text \<open>The scan of the mount table for one device; the loop stops at its first entry.\<close>

fun mount_scan :: "string \<Rightarrow> string list \<Rightarrow> (string \<times> string \<times> bool) outcome" where
  "mount_scan part [] = Ret ([], [], True)"
| "mount_scan part (line # lines) =
     (case parseMountEntry line of
        Panic e \<Rightarrow> Panic e
      | Ret None \<Rightarrow> mount_scan part lines
      | Ret (Some entry) \<Rightarrow>
          if me_Partition entry \<noteq> part then mount_scan part lines
          else Ret (me_Mountpoint entry, me_FilesystemType entry,
                    \<not> List.member (me_Options entry) ''rw''))"

definition partitionInfo :: "host \<Rightarrow> paths \<Rightarrow> string \<Rightarrow> (string \<times> string \<times> bool) outcome" where
  "partitionInfo h ps part =
     (case open_lines h (ProcMounts ps) of
        None \<Rightarrow> Ret ([], [], True)
      | Some lines \<Rightarrow> mount_scan (full_path part) lines)"

section \<open>Disks\<close>

definition newPartition :: "host \<Rightarrow> paths \<Rightarrow> string \<Rightarrow> string \<Rightarrow> Partition outcome" where
  "newPartition h ps disk fname =
     bind_outcome (partitionInfo h ps fname) (\<lambda>(mp, pt, ro).
       Ret \<lparr> part_Disk = None,
             part_Name = fname,
             part_Label = [],
             part_SizeBytes = partitionSizeBytes h ps disk fname,
             part_UUID = GetDiskUUID h fname ''PARTUUID'',
             part_FileSystemInfo =
               \<lparr> fsi_FsType = pt, fsi_IsReadOnly = ro, fsi_MountPoint = mp \<rparr> \<rparr>)"

definition diskPartitions :: "host \<Rightarrow> paths \<Rightarrow> string \<Rightarrow> Partition list outcome" where
  "diskPartitions h ps disk =
     (case ReadDir h (PathJoin [SysBlock ps, disk]) of
        None \<Rightarrow> Ret []
      | Some files \<Rightarrow>
          map_outcome (newPartition h ps disk) (filter (\<lambda>fname. HasPrefix fname disk) files))"

definition getDisk :: "host \<Rightarrow> paths \<Rightarrow> string \<Rightarrow> Disk outcome" where
  "getDisk h ps dname =
     (let (driveType, storageController) = diskTypes dname;
          driveType = (if \<not> diskIsRotational h ps dname then DRIVE_TYPE_SSD else driveType)
      in bind_outcome (partitionInfo h ps dname) (\<lambda>(mp, pt, ro).
           let fs = \<lparr> fsi_FsType = (if pt = [] then GetFileSystemType h dname else pt),
                      fsi_IsReadOnly = ro, fsi_MountPoint = mp \<rparr>
           in bind_outcome (diskPartitions h ps dname) (\<lambda>parts.
                Ret \<lparr> disk_Name = dname,
                      disk_SizeBytes = diskSizeBytes h ps dname,
                      disk_PhysicalBlockSizeBytes = diskPhysicalBlockSizeBytes h ps dname,
                      disk_DriveType = driveType,
                      disk_IsRemovable = diskIsRemovable h ps dname,
                      disk_StorageController = storageController,
                      disk_UUID = GetDiskUUID h dname ''UUID'',
                      disk_PtUUID = GetDiskUUID h dname ''PTUUID'',
                      disk_BusPath = diskBusPath h ps dname,
                      disk_FileSystemInfo = fs,
                      disk_NUMANodeID = diskNUMANodeID h ps dname,
                      disk_Vendor = diskVendor h ps dname,
                      disk_Model = diskModel h ps dname,
                      disk_SerialNumber = diskSerialNumber h ps dname,
                      disk_WWN = diskWWN h ps dname,
                      disk_Partitions = map (\<lambda>p. p\<lparr>part_Disk := Some dname\<rparr>) parts \<rparr>)))"

definition disks :: "host \<Rightarrow> paths \<Rightarrow> Disk list outcome" where
  "disks h ps =
     (case ReadDir h (SysBlock ps) of
        None \<Rightarrow> Ret []
      | Some files \<Rightarrow>
          map_outcome (getDisk h ps) (filter (\<lambda>dname. \<not> HasPrefix dname ''loop'') files))"

text \<open>
  \<open>New\<close> runs \<open>load\<close> inside the library's \<open>ctx.Do\<close>, whose setup may fail.
\<close>

definition load :: "host \<Rightarrow> ghw_ctx \<Rightarrow> Info outcome" where
  "load h ctx =
     bind_outcome (disks h (linuxpath_New ctx)) (\<lambda>ds. Ret \<lparr>info_ctx = ctx, info_Disks = ds\<rparr>)"

definition New :: "host \<Rightarrow> ghw_ctx \<Rightarrow> go_error option \<Rightarrow> (go_error + Info) outcome" where
  "New h ctx setup_err =
     (case setup_err of
        Some err \<Rightarrow> Ret (Inl err)
      | None \<Rightarrow> bind_outcome (load h ctx) (\<lambda>info. Ret (Inr info)))"

definition GetDiskByName :: "host \<Rightarrow> Info \<Rightarrow> string \<Rightarrow> Disk outcome" where
  "GetDiskByName h i name = getDisk h (linuxpath_New (info_ctx i)) (TrimPrefix name ''/dev/'')"

end
