(* ===== verification/Api_Types.thy ===== *)
theory Api_Types
  imports Block
begin

text \<open>
  The custom resources of \<open>pkg/apis/longhorn.io/v1beta1/types.go\<close> and the metadata that
  Kubernetes adds to every object. Go's nil and empty slices are both the empty list; the
  label map keeps the difference, because writing to a nil map panics.
\<close>

section \<open>Kubernetes metadata\<close>

type_synonym time = int

type_synonym labels = "(string, string) mapping"

record TypeMeta =
  tm_Kind :: string
  tm_APIVersion :: string

text \<open>
  \<open>om_Rest\<close> stands for the remaining fields of \<open>metav1.ObjectMeta\<close> (owner references,
  managed fields, ...), which the program copies and compares and never reads.
\<close>

record ObjectMeta =
  om_Name :: string
  om_Namespace :: string
  om_UID :: string
  om_ResourceVersion :: string
  om_Generation :: int
  om_DeletionTimestamp :: "time option"
  om_Labels :: "labels option"
  om_Finalizers :: "string list"
  om_Rest :: "string list"

definition zero_meta :: ObjectMeta where
  "zero_meta =
     \<lparr> om_Name = [], om_Namespace = [], om_UID = [], om_ResourceVersion = [], om_Generation = 0,
       om_DeletionTimestamp = None, om_Labels = None, om_Finalizers = [], om_Rest = [] \<rparr>"

definition LabelHostname :: string where
  "LabelHostname = ''kubernetes.io/hostname''"

section \<open>The BlockDevice resource\<close>

record Condition =
  cond_Type :: string
  cond_Status :: string
  cond_LastUpdateTime :: string
  cond_LastTransitionTime :: string
  cond_Reason :: string
  cond_Message :: string

record FilesystemInfo =
  fi_MountPoint :: string
  fi_ForceFormatted :: bool

record FilesystemStatus =
  fst_IsReadOnly :: bool
  fst_Type :: string
  fst_MountPoint :: string
  fst_LastFormattedAt :: "time option"

record DeviceCapcity =
  dc_SizeBytes :: "64 word"
  dc_PhysicalBlockSizeBytes :: "64 word"

record DeviceDetails =
  dd_DeviceType :: string
  dd_DriveType :: string
  dd_PartUUID :: string
  dd_UUID :: string
  dd_PtUUID :: string
  dd_IsRemovable :: bool
  dd_StorageController :: string
  dd_BusPath :: string
  dd_Model :: string
  dd_Vendor :: string
  dd_SerialNumber :: string
  dd_NUMANodeID :: int
  dd_WWN :: string
  dd_Label :: string

record DeviceStatus =
  ds_ParentDevice :: string
  ds_Partitioned :: bool
  ds_Capacity :: DeviceCapcity
  ds_Details :: DeviceDetails
  ds_FileSystem :: FilesystemStatus

record BlockDeviceSpec =
  spec_NodeName :: string
  spec_DevPath :: string
  spec_FileSystem :: FilesystemInfo

record BlockDeviceStatus =
  bs_State :: string
  bs_Conditions :: "Condition list"
  bs_DeviceStatus :: DeviceStatus

record BlockDevice =
  bd_TypeMeta :: TypeMeta
  bd_ObjectMeta :: ObjectMeta
  bd_Spec :: BlockDeviceSpec
  bd_Status :: BlockDeviceStatus

abbreviation bd_Name :: "BlockDevice \<Rightarrow> string" where
  "bd_Name bd \<equiv> om_Name (bd_ObjectMeta bd)"

abbreviation bd_Namespace :: "BlockDevice \<Rightarrow> string" where
  "bd_Namespace bd \<equiv> om_Namespace (bd_ObjectMeta bd)"

abbreviation bd_DeviceStatus :: "BlockDevice \<Rightarrow> DeviceStatus" where
  "bd_DeviceStatus bd \<equiv> bs_DeviceStatus (bd_Status bd)"

definition BlockDeviceActive :: string where
  "BlockDeviceActive = ''Active''"

definition BlockDeviceInactive :: string where
  "BlockDeviceInactive = ''Inactive''"

definition BlockDeviceUnknown :: string where
  "BlockDeviceUnknown = ''Unknown''"

definition DeviceTypeDisk :: string where
  "DeviceTypeDisk = ''disk''"

definition DeviceTypePart :: string where
  "DeviceTypePart = ''partition''"

definition StorageControllerIDE :: string where
  "StorageControllerIDE = ''IDE''"

definition StorageControllerSCSI :: string where
  "StorageControllerSCSI = ''SCSI''"

definition StorageControllerNVMe :: string where
  "StorageControllerNVMe = ''NVMe''"

definition StorageControllerVirtio :: string where
  "StorageControllerVirtio = ''virtio''"

definition StorageControllerMMC :: string where
  "StorageControllerMMC = ''MMC''"

definition DriveTypeHDD :: string where
  "DriveTypeHDD = ''HDD''"

definition DriveTypeFDD :: string where
  "DriveTypeFDD = ''FDD''"

definition DriveTypeODD :: string where
  "DriveTypeODD = ''ODD''"

definition DriveTypeSSD :: string where
  "DriveTypeSSD = ''SSD''"

definition DeviceMounted :: string where
  "DeviceMounted = ''Mounted''"

text \<open>The validation rules of the resource, as the kubebuilder markers of the types state them.\<close>

definition valid_details :: "DeviceDetails \<Rightarrow> bool" where
  "valid_details d \<longleftrightarrow>
     dd_DeviceType d \<in> {DeviceTypeDisk, DeviceTypePart}
     \<and> dd_DriveType d \<in> {''HDD'', ''FDD'', ''ODD'', ''SSD'', ''Unknown''}
     \<and> dd_StorageController d \<in> {''SCSI'', ''IDE'', ''virtio'', ''MMC'', ''NVMe'', ''Unknown''}"

text \<open>The enumerations are the declared constants and \<open>Unknown\<close>.\<close>

lemma valid_details_constants:
  "valid_details d \<longleftrightarrow>
     dd_DeviceType d \<in> {DeviceTypeDisk, DeviceTypePart}
     \<and> dd_DriveType d \<in> {DriveTypeHDD, DriveTypeFDD, DriveTypeODD, DriveTypeSSD, ''Unknown''}
     \<and> dd_StorageController d \<in> {StorageControllerSCSI, StorageControllerIDE, StorageControllerVirtio,
         StorageControllerMMC, StorageControllerNVMe, ''Unknown''}"
  by (simp add: valid_details_def DriveTypeHDD_def DriveTypeFDD_def DriveTypeODD_def DriveTypeSSD_def
      StorageControllerSCSI_def StorageControllerIDE_def StorageControllerVirtio_def StorageControllerMMC_def
      StorageControllerNVMe_def)

definition valid_device :: "BlockDevice \<Rightarrow> bool" where
  "valid_device bd \<longleftrightarrow>
     bs_State (bd_Status bd) \<in> {BlockDeviceActive, BlockDeviceInactive, BlockDeviceUnknown}
     \<and> valid_details (ds_Details (bd_DeviceStatus bd))"

section \<open>The Node resource\<close>

text \<open>
  A Longhorn node; its specification and status are types of the Longhorn manager
  (\<open>vendor/github.com/longhorn/longhorn-manager/types/resource.go\<close>). The program reads only
  the metadata, and writes a node back when it sets or removes a finalizer.
\<close>

record NodeCondition =
  nc_Type :: string
  nc_Status :: string
  nc_LastProbeTime :: string
  nc_LastTransitionTime :: string
  nc_Reason :: string
  nc_Message :: string

record DiskSpec =
  dsp_Path :: string
  dsp_AllowScheduling :: bool
  dsp_EvictionRequested :: bool
  dsp_StorageReserved :: "64 word"
  dsp_Tags :: "string list"

record DiskStatus =
  dst_Conditions :: "(string, NodeCondition) mapping option"
  dst_StorageAvailable :: "64 word"
  dst_StorageScheduled :: "64 word"
  dst_StorageMaximum :: "64 word"
  dst_ScheduledReplica :: "(string, 64 word) mapping option"
  dst_DiskUUID :: string

record NodeSpec =
  nsp_Name :: string
  nsp_Disks :: "(string, DiskSpec) mapping option"
  nsp_AllowScheduling :: bool
  nsp_EvictionRequested :: bool
  nsp_Tags :: "string list"
  nsp_EngineManagerCPURequest :: int
  nsp_ReplicaManagerCPURequest :: int

record NodeStatus =
  nst_Conditions :: "(string, NodeCondition) mapping option"
  nst_DiskStatus :: "(string, DiskStatus option) mapping option"
  nst_Region :: string
  nst_Zone :: string

record Node =
  node_TypeMeta :: TypeMeta
  node_ObjectMeta :: ObjectMeta
  node_Spec :: NodeSpec
  node_Status :: NodeStatus

definition zero_node_spec :: NodeSpec where
  "zero_node_spec =
     \<lparr> nsp_Name = [], nsp_Disks = None, nsp_AllowScheduling = False, nsp_EvictionRequested = False,
       nsp_Tags = [], nsp_EngineManagerCPURequest = 0, nsp_ReplicaManagerCPURequest = 0 \<rparr>"

definition zero_node_status :: NodeStatus where
  "zero_node_status = \<lparr> nst_Conditions = None, nst_DiskStatus = None, nst_Region = [], nst_Zone = [] \<rparr>"

definition zero_block_device :: BlockDevice where
  "zero_block_device =
     \<lparr> bd_TypeMeta = \<lparr>tm_Kind = [], tm_APIVersion = []\<rparr>, bd_ObjectMeta = zero_meta,
       bd_Spec = \<lparr> spec_NodeName = [], spec_DevPath = [], spec_FileSystem = \<lparr>fi_MountPoint = [], fi_ForceFormatted = False\<rparr> \<rparr>,
       bd_Status = \<lparr> bs_State = [], bs_Conditions = [],
         bs_DeviceStatus = \<lparr> ds_ParentDevice = [], ds_Partitioned = False,
           ds_Capacity = \<lparr>dc_SizeBytes = 0, dc_PhysicalBlockSizeBytes = 0\<rparr>,
           ds_Details = \<lparr> dd_DeviceType = [], dd_DriveType = [], dd_PartUUID = [], dd_UUID = [], dd_PtUUID = [],
             dd_IsRemovable = False, dd_StorageController = [], dd_BusPath = [], dd_Model = [], dd_Vendor = [],
             dd_SerialNumber = [], dd_NUMANodeID = 0, dd_WWN = [], dd_Label = [] \<rparr>,
           ds_FileSystem = \<lparr>fst_IsReadOnly = False, fst_Type = [], fst_MountPoint = [], fst_LastFormattedAt = None\<rparr> \<rparr> \<rparr> \<rparr>"

section \<open>Lists of resources\<close>

text \<open>
  \<open>zz_generated_list_types.go\<close>. \<open>lm_ResourceVersion\<close> is the field of \<open>metav1.ListMeta\<close> that
  matters to a reader; \<open>lm_RemainingItemCount\<close> is a pointer in Go.
\<close>

record ListMeta =
  lm_SelfLink :: string
  lm_ResourceVersion :: string
  lm_Continue :: string
  lm_RemainingItemCount :: "int option"

record BlockDeviceList =
  bdl_TypeMeta :: TypeMeta
  bdl_ListMeta :: ListMeta
  bdl_Items :: "BlockDevice list"

record NodeList =
  nl_TypeMeta :: TypeMeta
  nl_ListMeta :: ListMeta
  nl_Items :: "Node list"

text \<open>The group and version that the types are registered under (\<open>zz_generated_register.go\<close>).\<close>

record GroupVersionKind =
  gvk_Group :: string
  gvk_Version :: string
  gvk_Kind :: string

definition GroupName :: string where
  "GroupName = ''longhorn.io''"

definition BlockDeviceResourceName :: string where
  "BlockDeviceResourceName = ''blockdevices''"

definition NodeResourceName :: string where
  "NodeResourceName = ''nodes''"

definition SchemeGroupVersion :: "string \<times> string" where
  "SchemeGroupVersion = (GroupName, ''v1beta1'')"

definition Kind :: "string \<Rightarrow> string \<times> string" where
  "Kind kind = (fst SchemeGroupVersion, kind)"

definition Resource :: "string \<Rightarrow> string \<times> string" where
  "Resource resource = (fst SchemeGroupVersion, resource)"

definition with_kind :: "string \<Rightarrow> GroupVersionKind" where
  "with_kind kind =
     \<lparr> gvk_Group = fst SchemeGroupVersion, gvk_Version = snd SchemeGroupVersion, gvk_Kind = kind \<rparr>"

definition ToAPIVersionAndKind :: "GroupVersionKind \<Rightarrow> string \<times> string" where
  "ToAPIVersionAndKind gvk =
     (if gvk = \<lparr>gvk_Group = [], gvk_Version = [], gvk_Kind = []\<rparr> then ([], [])
      else (if gvk_Group gvk \<noteq> [] then gvk_Group gvk @ ''/'' @ gvk_Version gvk else gvk_Version gvk,
            gvk_Kind gvk))"

definition NewBlockDevice :: "string \<Rightarrow> string \<Rightarrow> BlockDevice \<Rightarrow> BlockDevice" where
  "NewBlockDevice namespace name obj =
     (let (apiVersion, kind) = ToAPIVersionAndKind (with_kind ''BlockDevice'')
      in obj\<lparr> bd_TypeMeta := \<lparr>tm_Kind = kind, tm_APIVersion = apiVersion\<rparr>,
              bd_ObjectMeta := (bd_ObjectMeta obj)\<lparr>om_Name := name, om_Namespace := namespace\<rparr> \<rparr>)"

definition NewNode :: "string \<Rightarrow> string \<Rightarrow> Node \<Rightarrow> Node" where
  "NewNode namespace name obj =
     (let (apiVersion, kind) = ToAPIVersionAndKind (with_kind ''Node'')
      in obj\<lparr> node_TypeMeta := \<lparr>tm_Kind = kind, tm_APIVersion = apiVersion\<rparr>,
              node_ObjectMeta := (node_ObjectMeta obj)\<lparr>om_Name := name, om_Namespace := namespace\<rparr> \<rparr>)"

end
