(* ===== verification/Builder.thy ===== *)
theory Builder
  imports Api_Types
begin

text \<open>
  \<open>pkg/controller/blockdevice/blockdevice.go\<close> and \<open>pkg/util/util.go\<close>: the BlockDevice
  resources that describe a disk and its partitions. \<open>DeepCopy\<close> is the identity here, because
  a HOL value is never shared; theory \<open>Object_Copies\<close> justifies that on an explicit heap.
\<close>

section \<open>Names\<close>

definition LonghornBusPathSubstring :: string where
  "LonghornBusPathSubstring = ''longhorn''"

definition GetBlockDeviceName :: "string \<Rightarrow> string \<Rightarrow> string" where
  "GetBlockDeviceName deviceName nodeName = deviceName @ ''-'' @ nodeName"

definition IsLonghornBlockDevice :: "string \<Rightarrow> bool" where
  "IsLonghornBlockDevice path = Contains path LonghornBusPathSubstring"

definition ParentDeviceLabel :: string where
  "ParentDeviceLabel = ''block.longhorn.io/parent-device''"

definition getFullDevPath :: "string \<Rightarrow> string" where
  "getFullDevPath shortPath = (if shortPath = [] then [] else ''/dev/'' @ shortPath)"

section \<open>Building the resources\<close>

definition GetPartitionBlockDevice :: "Partition \<Rightarrow> BlockDevice \<Rightarrow> string \<Rightarrow> BlockDevice outcome" where
  "GetPartitionBlockDevice part parentDisk nodeName =
     (let fileSystemInfo =
            \<lparr> fst_IsReadOnly = fsi_IsReadOnly (part_FileSystemInfo part),
              fst_Type = fsi_FsType (part_FileSystemInfo part),
              fst_MountPoint = fsi_MountPoint (part_FileSystemInfo part),
              fst_LastFormattedAt = None \<rparr>;
          diskCpy = parentDisk
      in case om_Labels (bd_ObjectMeta diskCpy) of
           None \<Rightarrow> Panic ''assignment to entry in nil map''
         | Some ls \<Rightarrow> Ret (diskCpy
             \<lparr> bd_ObjectMeta := (bd_ObjectMeta diskCpy)
                 \<lparr> om_Labels := Some (Mapping.update ParentDeviceLabel (bd_Name parentDisk) ls),
                   om_Name := GetBlockDeviceName (part_Name part) nodeName \<rparr>,
               bd_Spec := (bd_Spec diskCpy)
                 \<lparr> spec_DevPath := getFullDevPath (part_Name part),
                   spec_FileSystem := (spec_FileSystem (bd_Spec diskCpy))
                     \<lparr> fi_MountPoint := fsi_MountPoint (part_FileSystemInfo part) \<rparr> \<rparr>,
               bd_Status := (bd_Status diskCpy)
                 \<lparr> bs_DeviceStatus := (bd_DeviceStatus diskCpy)
                     \<lparr> ds_Partitioned := False,
                       ds_ParentDevice := spec_DevPath (bd_Spec parentDisk),
                       ds_Details := (ds_Details (bd_DeviceStatus diskCpy))
                         \<lparr> dd_DeviceType := DeviceTypePart,
                           dd_Label := part_Label part,
                           dd_PartUUID := part_UUID part \<rparr>,
                       ds_Capacity := (ds_Capacity (bd_DeviceStatus diskCpy))
                         \<lparr> dc_SizeBytes := part_SizeBytes part \<rparr>,
                       ds_FileSystem := fileSystemInfo \<rparr> \<rparr> \<rparr>))"

definition GetPartitionBlockDevices ::
    "Partition list \<Rightarrow> BlockDevice \<Rightarrow> string \<Rightarrow> BlockDevice list outcome" where
  "GetPartitionBlockDevices partitions parentDisk nodeName =
     map_outcome (\<lambda>part. GetPartitionBlockDevice part parentDisk nodeName) partitions"

definition disk_block_device :: "Disk \<Rightarrow> string \<Rightarrow> string \<Rightarrow> BlockDevice" where
  "disk_block_device disk nodeName namespace =
     (let fileSystemInfo =
            \<lparr> fst_IsReadOnly = fsi_IsReadOnly (disk_FileSystemInfo disk),
              fst_Type = fsi_FsType (disk_FileSystemInfo disk),
              fst_MountPoint = fsi_MountPoint (disk_FileSystemInfo disk),
              fst_LastFormattedAt = None \<rparr>
      in \<lparr> bd_TypeMeta = \<lparr>tm_Kind = [], tm_APIVersion = []\<rparr>,
           bd_ObjectMeta = zero_meta
             \<lparr> om_Name := GetBlockDeviceName (disk_Name disk) nodeName,
               om_Namespace := namespace,
               om_Labels := Some (Mapping.update LabelHostname nodeName Mapping.empty) \<rparr>,
           bd_Spec =
             \<lparr> spec_NodeName = nodeName,
               spec_DevPath = getFullDevPath (disk_Name disk),
               spec_FileSystem =
                 \<lparr> fi_MountPoint = fst_MountPoint fileSystemInfo, fi_ForceFormatted = False \<rparr> \<rparr>,
           bd_Status =
             \<lparr> bs_State = BlockDeviceActive,
               bs_Conditions = [],
               bs_DeviceStatus =
                 \<lparr> ds_ParentDevice = [],
                   ds_Partitioned = (length (disk_Partitions disk) > 0),
                   ds_Capacity =
                     \<lparr> dc_SizeBytes = disk_SizeBytes disk,
                       dc_PhysicalBlockSizeBytes = disk_PhysicalBlockSizeBytes disk \<rparr>,
                   ds_Details =
                     \<lparr> dd_DeviceType = DeviceTypeDisk,
                       dd_DriveType = DriveType_String (disk_DriveType disk),
                       dd_PartUUID = [],
                       dd_UUID = disk_UUID disk,
                       dd_PtUUID = disk_PtUUID disk,
                       dd_IsRemovable = disk_IsRemovable disk,
                       dd_StorageController = StorageController_String (disk_StorageController disk),
                       dd_BusPath = disk_BusPath disk,
                       dd_Model = disk_Model disk,
                       dd_Vendor = disk_Vendor disk,
                       dd_SerialNumber = disk_SerialNumber disk,
                       dd_NUMANodeID = disk_NUMANodeID disk,
                       dd_WWN = disk_WWN disk,
                       dd_Label = [] \<rparr>,
                   ds_FileSystem = fileSystemInfo \<rparr> \<rparr> \<rparr>)"

definition GetNewBlockDevices :: "Disk \<Rightarrow> string \<Rightarrow> string \<Rightarrow> BlockDevice list outcome" where
  "GetNewBlockDevices disk nodeName namespace =
     (let parent = disk_block_device disk nodeName namespace
      in bind_outcome (GetPartitionBlockDevices (disk_Partitions disk) parent nodeName)
           (\<lambda>parts. Ret ([parent] @ parts)))"

section \<open>What is built\<close>

text \<open>
  A partition's resource, for a parent that has a label map. With it the loop over the
  partitions is a plain map.
\<close>

definition part_block_device :: "BlockDevice \<Rightarrow> string \<Rightarrow> Partition \<Rightarrow> BlockDevice" where
  "part_block_device parent nodeName part =
     (case GetPartitionBlockDevice part parent nodeName of Ret bd \<Rightarrow> bd | Panic e \<Rightarrow> parent)"

lemma disk_block_device_simps [simp]:
  "bd_Name (disk_block_device d n ns) = GetBlockDeviceName (disk_Name d) n"
  "bd_Namespace (disk_block_device d n ns) = ns"
  "om_Labels (bd_ObjectMeta (disk_block_device d n ns)) =
     Some (Mapping.update LabelHostname n Mapping.empty)"
  "spec_NodeName (bd_Spec (disk_block_device d n ns)) = n"
  "spec_DevPath (bd_Spec (disk_block_device d n ns)) = getFullDevPath (disk_Name d)"
  "bs_State (bd_Status (disk_block_device d n ns)) = BlockDeviceActive"
  "bs_Conditions (bd_Status (disk_block_device d n ns)) = []"
  by (simp_all add: disk_block_device_def Let_def zero_meta_def)

lemma GetPartitionBlockDevices_Ret:
  assumes "om_Labels (bd_ObjectMeta parent) = Some ls"
  shows "GetPartitionBlockDevices parts parent n = Ret (map (part_block_device parent n) parts)"
proof -
  have "GetPartitionBlockDevice part parent n = Ret (part_block_device parent n part)" for part
    using assms by (simp add: part_block_device_def GetPartitionBlockDevice_def Let_def)
  then show ?thesis by (induction parts) (auto simp: GetPartitionBlockDevices_def)
qed

lemma GetNewBlockDevices_Ret:
  "GetNewBlockDevices d n ns =
     Ret (disk_block_device d n ns
          # map (part_block_device (disk_block_device d n ns) n) (disk_Partitions d))"
  using GetPartitionBlockDevices_Ret [of "disk_block_device d n ns"]
  by (simp add: GetNewBlockDevices_def Let_def)

lemma part_block_device_simps [simp]:
  assumes "om_Labels (bd_ObjectMeta parent) = Some ls"
  shows "bd_Name (part_block_device parent n part) = GetBlockDeviceName (part_Name part) n"
    and "bd_Namespace (part_block_device parent n part) = bd_Namespace parent"
    and "om_Labels (bd_ObjectMeta (part_block_device parent n part)) =
      Some (Mapping.update ParentDeviceLabel (bd_Name parent) ls)"
    and "spec_DevPath (bd_Spec (part_block_device parent n part)) = getFullDevPath (part_Name part)"
    and "spec_NodeName (bd_Spec (part_block_device parent n part)) = spec_NodeName (bd_Spec parent)"
    and "ds_ParentDevice (bd_DeviceStatus (part_block_device parent n part)) = spec_DevPath (bd_Spec parent)"
    and "ds_Partitioned (bd_DeviceStatus (part_block_device parent n part)) = False"
    and "dd_DeviceType (ds_Details (bd_DeviceStatus (part_block_device parent n part))) = DeviceTypePart"
    and "bs_State (bd_Status (part_block_device parent n part)) = bs_State (bd_Status parent)"
  using assms by (simp_all add: part_block_device_def GetPartitionBlockDevice_def Let_def)

end
