(* ===== verification/Cache.thy ===== *)
theory Cache
  imports Api_Types "HOL-Library.AList"
begin

text \<open>
  The informer cache that the controllers read: the thread-safe indexed store of client-go
  (\<open>vendor/k8s.io/client-go/tools/cache\<close>), label selectors
  (\<open>vendor/k8s.io/apimachinery/pkg/labels\<close>) and the generated \<open>blockDeviceCache\<close>
  (\<open>pkg/generated/controllers/longhorn.io/v1beta1/blockdevice.go\<close>).
  A Go map is an association list: its order stands for the order in which Go happens to
  iterate, so facts proved for every store hold for every iteration order.
\<close>

section \<open>Label selectors\<close>

datatype Operator =
    In | NotIn | Equals | DoubleEquals | NotEquals | Exists | DoesNotExist | GreaterThan | LessThan

record Requirement =
  req_key :: string
  req_operator :: Operator
  req_strValues :: "string list"

definition labels_Has :: "labels option \<Rightarrow> string \<Rightarrow> bool" where
  "labels_Has ls k = (case ls of None \<Rightarrow> False | Some m \<Rightarrow> Mapping.lookup m k \<noteq> None)"

definition labels_Get :: "labels option \<Rightarrow> string \<Rightarrow> string" where
  "labels_Get ls k =
     (case ls of None \<Rightarrow> []
      | Some m \<Rightarrow> (case Mapping.lookup m k of None \<Rightarrow> [] | Some v \<Rightarrow> v))"

definition Requirement_Matches :: "Requirement \<Rightarrow> labels option \<Rightarrow> bool" where
  "Requirement_Matches r ls =
     (let has = labels_Has ls (req_key r);
          hasValue = List.member (req_strValues r) (labels_Get ls (req_key r))
      in case req_operator r of
           In \<Rightarrow> has \<and> hasValue
         | Equals \<Rightarrow> has \<and> hasValue
         | DoubleEquals \<Rightarrow> has \<and> hasValue
         | NotIn \<Rightarrow> \<not> has \<or> \<not> hasValue
         | NotEquals \<Rightarrow> \<not> has \<or> \<not> hasValue
         | Exists \<Rightarrow> has
         | DoesNotExist \<Rightarrow> \<not> has
         | op \<Rightarrow>
             has \<and>
             (case (Atoi (labels_Get ls (req_key r)), req_strValues r) of
                ((lsValue, None), [s]) \<Rightarrow>
                  (case Atoi s of
                     (rValue, None) \<Rightarrow>
                       (op = GreaterThan \<and> lsValue > rValue) \<or> (op = LessThan \<and> lsValue < rValue)
                   | _ \<Rightarrow> False)
              | _ \<Rightarrow> False))"

type_synonym selector = "Requirement list"

definition Everything :: selector where
  "Everything = []"

definition SelectorFromSet :: "(string \<times> string) list \<Rightarrow> selector" where
  "SelectorFromSet ls =
     sort_key req_key
       (map (\<lambda>(label, v). \<lparr>req_key = label, req_operator = Equals, req_strValues = [v]\<rparr>) ls)"

definition selector_Empty :: "selector \<Rightarrow> bool" where
  "selector_Empty s \<longleftrightarrow> s = []"

fun selector_Matches :: "selector \<Rightarrow> labels option \<Rightarrow> bool" where
  "selector_Matches [] ls = True"
| "selector_Matches (r # rs) ls = (if \<not> Requirement_Matches r ls then False else selector_Matches rs ls)"

lemma selector_Matches_all: "selector_Matches s ls \<longleftrightarrow> (\<forall>r \<in> set s. Requirement_Matches r ls)"
  by (induction s) auto

lemma selector_Matches_Everything [simp]: "selector_Matches Everything ls"
  by (simp add: Everything_def)

lemma Requirement_Matches_Equals:
  "Requirement_Matches \<lparr>req_key = k, req_operator = Equals, req_strValues = [v]\<rparr> ls \<longleftrightarrow>
   (\<exists>m. ls = Some m \<and> Mapping.lookup m k = Some v)"
  by (auto simp: Requirement_Matches_def labels_Has_def labels_Get_def Let_def split: option.splits)

lemma selector_Matches_SelectorFromSet:
  "selector_Matches (SelectorFromSet kvs) ls \<longleftrightarrow>
   (\<forall>(k, v) \<in> set kvs. \<exists>m. ls = Some m \<and> Mapping.lookup m k = Some v)"
  by (auto simp: selector_Matches_all SelectorFromSet_def Requirement_Matches_Equals)

lemma selector_Matches_single [simp]:
  "selector_Matches (SelectorFromSet [(k, v)]) ls \<longleftrightarrow>
   (\<exists>m. ls = Some m \<and> Mapping.lookup m k = Some v)"
  by (simp add: selector_Matches_SelectorFromSet)

section \<open>The thread-safe store\<close>

type_synonym index = "(string \<times> string list) list"

record 'a store =
  items :: "(string \<times> 'a) list"
  indexers :: "(string \<times> ('a \<Rightarrow> string list)) list"
  indices :: "(string \<times> index) list"

definition index_get :: "index \<Rightarrow> string \<Rightarrow> string list" where
  "index_get i v = (case map_of i v of None \<Rightarrow> [] | Some s \<Rightarrow> s)"

definition set_Insert :: "string \<Rightarrow> string list \<Rightarrow> string list" where
  "set_Insert k ks = (if k \<in> set ks then ks else ks @ [k])"

definition index_add :: "string \<Rightarrow> index \<Rightarrow> string list \<Rightarrow> index" where
  "index_add key i vals = foldl (\<lambda>i v. AList.update v (set_Insert key (index_get i v)) i) i vals"

definition index_remove1 :: "string \<Rightarrow> index \<Rightarrow> string \<Rightarrow> index" where
  "index_remove1 key i v =
     (case map_of i v of
        None \<Rightarrow> i
      | Some s \<Rightarrow>
          let s' = removeAll key s
          in if s' = [] then AList.delete v i else AList.update v s' i)"

definition index_remove :: "string \<Rightarrow> index \<Rightarrow> string list \<Rightarrow> index" where
  "index_remove key i vals = foldl (index_remove1 key) i vals"

definition deleteFromIndices :: "'a \<Rightarrow> string \<Rightarrow> 'a store \<Rightarrow> 'a store" where
  "deleteFromIndices obj key c =
     c\<lparr> indices := foldl
          (\<lambda>ix (name, f).
             case map_of ix name of
               None \<Rightarrow> ix
             | Some i \<Rightarrow> AList.update name (index_remove key i (f obj)) ix)
          (indices c) (indexers c) \<rparr>"

text \<open>
  The library panics when an index function returns an error. Those that the program and its
  library install, \<open>MetaNamespaceIndexFunc\<close> on objects with metadata, never do, so an index
  function is a total function here.
\<close>

definition updateIndices :: "'a option \<Rightarrow> 'a \<Rightarrow> string \<Rightarrow> 'a store \<Rightarrow> 'a store" where
  "updateIndices oldObj newObj key c =
     (let c = (case oldObj of None \<Rightarrow> c | Some old \<Rightarrow> deleteFromIndices old key c)
      in c\<lparr> indices := foldl
              (\<lambda>ix (name, f).
                 AList.update name
                   (index_add key (case map_of ix name of None \<Rightarrow> [] | Some i \<Rightarrow> i) (f newObj)) ix)
              (indices c) (indexers c) \<rparr>)"

definition store_Add :: "string \<Rightarrow> 'a \<Rightarrow> 'a store \<Rightarrow> 'a store" where
  "store_Add key obj c =
     (let oldObject = map_of (items c) key;
          c = c\<lparr>items := AList.update key obj (items c)\<rparr>
      in updateIndices oldObject obj key c)"

definition store_Delete :: "string \<Rightarrow> 'a store \<Rightarrow> 'a store" where
  "store_Delete key c =
     (case map_of (items c) key of
        None \<Rightarrow> c
      | Some obj \<Rightarrow>
          let c = deleteFromIndices obj key c
          in c\<lparr>items := AList.delete key (items c)\<rparr>)"

definition store_Get :: "'a store \<Rightarrow> string \<Rightarrow> 'a option" where
  "store_Get c key = map_of (items c) key"

definition store_List :: "'a store \<Rightarrow> 'a list" where
  "store_List c = map snd (items c)"

definition store_Replace :: "(string \<times> 'a) list \<Rightarrow> 'a store \<Rightarrow> 'a store" where
  "store_Replace new_items c =
     foldl (\<lambda>c (key, item). updateIndices None item key c)
       (c\<lparr>items := new_items, indices := []\<rparr>) new_items"

definition index_keys :: "'a store \<Rightarrow> string \<Rightarrow> string \<Rightarrow> string list" where
  "index_keys c name v = (case map_of (indices c) name of None \<Rightarrow> [] | Some i \<Rightarrow> index_get i v)"

text \<open>
  The lookup by one index value. Every key of an index is a key of the items (\<open>store_ok\<close>
  below), so \<open>the\<close> always finds an object.
\<close>

definition store_ByIndex :: "'a store \<Rightarrow> string \<Rightarrow> string \<Rightarrow> string + 'a list" where
  "store_ByIndex c name v =
     (case map_of (indexers c) name of
        None \<Rightarrow> Inl (''Index with name '' @ name @ '' does not exist'')
      | Some f \<Rightarrow> Inr (map (\<lambda>k. the (map_of (items c) k)) (index_keys c name v)))"

section \<open>The indices agree with the items\<close>

definition store_ok :: "'a store \<Rightarrow> bool" where
  "store_ok c \<longleftrightarrow>
     distinct (map fst (items c)) \<and> distinct (map fst (indexers c))
     \<and> (\<forall>name f v. map_of (indexers c) name = Some f \<longrightarrow>
          distinct (index_keys c name v)
          \<and> set (index_keys c name v) = {k. \<exists>obj. map_of (items c) k = Some obj \<and> v \<in> set (f obj)})"

lemma set_Insert_simps [simp]:
  "set (set_Insert k ks) = insert k (set ks)"
  "distinct ks \<Longrightarrow> distinct (set_Insert k ks)"
  "set_Insert k (set_Insert k ks) = set_Insert k ks"
  by (auto simp: set_Insert_def)

lemma index_get_update [simp]:
  "index_get (AList.update v s i) w = (if v = w then s else index_get i w)"
  by (simp add: index_get_def update_conv')

lemma index_get_remove1 [simp]:
  "index_get (index_remove1 key i v) w =
     (if v = w then removeAll key (index_get i w) else index_get i w)"
  by (auto simp: index_remove1_def index_get_def update_conv' delete_conv' Let_def split: option.splits)

lemma index_get_add:
  "index_get (index_add key i vals) v =
     (if v \<in> set vals then set_Insert key (index_get i v) else index_get i v)"
  unfolding index_add_def by (induction vals arbitrary: i) auto

lemma index_get_remove:
  "index_get (index_remove key i vals) v =
     (if v \<in> set vals then removeAll key (index_get i v) else index_get i v)"
  unfolding index_remove_def by (induction vals arbitrary: i) auto

text \<open>The loop over the indexers touches the index of each name once.\<close>

lemma map_of_add_loop:
  assumes "distinct (map fst fs)"
  shows "map_of (foldl (\<lambda>ix (name, f).
             AList.update name (g (case map_of ix name of None \<Rightarrow> [] | Some i \<Rightarrow> i) f) ix) ix fs) name =
     (case map_of fs name of
        None \<Rightarrow> map_of ix name
      | Some f \<Rightarrow> Some (g (case map_of ix name of None \<Rightarrow> [] | Some i \<Rightarrow> i) f))"
  using assms
proof (induction fs arbitrary: ix)
  case (Cons p fs)
  obtain n f where p: "p = (n, f)" by (cases p)
  from Cons.prems p have "name = n \<Longrightarrow> map_of fs name = None"
    by (auto simp: map_of_eq_None_iff)
  with Cons p show ?case
    by (auto simp: Let_def update_conv' split: option.splits)
qed simp

lemma map_of_remove_loop:
  assumes "distinct (map fst fs)"
  shows "map_of (foldl (\<lambda>ix (name, f).
             case map_of ix name of
               None \<Rightarrow> ix
             | Some i \<Rightarrow> AList.update name (g i f) ix) ix fs) name =
     (case map_of fs name of
        None \<Rightarrow> map_of ix name
      | Some f \<Rightarrow> map_option (\<lambda>i. g i f) (map_of ix name))"
  using assms
proof (induction fs arbitrary: ix)
  case (Cons p fs)
  obtain n f where p: "p = (n, f)" by (cases p)
  from Cons.prems p have "name = n \<Longrightarrow> map_of fs name = None"
    by (auto simp: map_of_eq_None_iff)
  with Cons p show ?case
    by (auto simp: update_conv' split: option.splits)
qed simp

lemma index_keys_delete:
  assumes "distinct (map fst (indexers c))" and "map_of (indexers c) name = Some f"
  shows "index_keys (deleteFromIndices obj key c) name v =
    (if v \<in> set (f obj) then removeAll key (index_keys c name v) else index_keys c name v)"
  using assms
  by (auto simp: index_keys_def deleteFromIndices_def map_of_remove_loop index_get_remove
      split: option.splits)

lemma index_keys_update:
  assumes "distinct (map fst (indexers c))" and "map_of (indexers c) name = Some f"
  shows "index_keys (updateIndices old obj key c) name v =
    (let ks = (case old of
                 None \<Rightarrow> index_keys c name v
               | Some o' \<Rightarrow> if v \<in> set (f o') then removeAll key (index_keys c name v)
                           else index_keys c name v)
     in if v \<in> set (f obj) then set_Insert key ks else ks)"
proof -
  define c' where "c' = (case old of None \<Rightarrow> c | Some o' \<Rightarrow> deleteFromIndices o' key c)"
  have same: "indexers c' = indexers c"
    by (auto simp: c'_def deleteFromIndices_def split: option.splits)
  have "index_keys (updateIndices old obj key c) name v =
      (if v \<in> set (f obj) then set_Insert key (index_keys c' name v) else index_keys c' name v)"
    using assms same
    using map_of_add_loop [where g = "\<lambda>i f. index_add key i (f obj)" and fs = "indexers c"]
    by (simp add: index_keys_def updateIndices_def index_get_add Let_def flip: c'_def)
       (simp add: index_get_def split: option.split)
  moreover have "index_keys c' name v =
      (case old of
         None \<Rightarrow> index_keys c name v
       | Some o' \<Rightarrow> if v \<in> set (f o') then removeAll key (index_keys c name v)
                   else index_keys c name v)"
    using index_keys_delete [OF assms] by (auto simp: c'_def split: option.splits)
  ultimately show ?thesis by (simp add: Let_def)
qed

lemma updateIndices_frame [simp]:
  "items (updateIndices old obj key c) = items c"
  "indexers (updateIndices old obj key c) = indexers c"
  "items (deleteFromIndices obj key c) = items c"
  "indexers (deleteFromIndices obj key c) = indexers c"
  by (auto simp: updateIndices_def deleteFromIndices_def Let_def split: option.splits)

lemma index_keys_items [simp]: "index_keys (c\<lparr>items := xs\<rparr>) name v = index_keys c name v"
  by (simp add: index_keys_def)

lemma store_ok_Add:
  assumes "store_ok c"
  shows "store_ok (store_Add key obj c)"
proof -
  let ?c = "store_Add key obj c"
  have ok: "distinct (index_keys ?c name v)
      \<and> set (index_keys ?c name v) = {k. \<exists>obj. map_of (items ?c) k = Some obj \<and> v \<in> set (f obj)}"
    if f: "map_of (indexers c) name = Some f" for name f v
  proof -
    have c: "distinct (index_keys c name v)"
      "set (index_keys c name v) = {k. \<exists>obj. map_of (items c) k = Some obj \<and> v \<in> set (f obj)}"
      using assms f by (auto simp: store_ok_def)
    have "distinct (map fst (indexers c))" using assms by (simp add: store_ok_def)
    then show ?thesis
      using f c
      by (auto simp: store_Add_def Let_def index_keys_update update_conv' distinct_removeAll
          split: option.splits if_splits)
  qed
  then show ?thesis
    using assms by (simp add: store_ok_def store_Add_def Let_def distinct_update)
qed

lemma store_ok_Delete:
  assumes "store_ok c"
  shows "store_ok (store_Delete key c)"
proof (cases "map_of (items c) key")
  case None
  with assms show ?thesis by (simp add: store_Delete_def)
next
  case (Some obj)
  let ?c = "store_Delete key c"
  have ok: "distinct (index_keys ?c name v)
      \<and> set (index_keys ?c name v) = {k. \<exists>obj. map_of (items ?c) k = Some obj \<and> v \<in> set (f obj)}"
    if f: "map_of (indexers c) name = Some f" for name f v
  proof -
    have c: "distinct (index_keys c name v)"
      "set (index_keys c name v) = {k. \<exists>obj. map_of (items c) k = Some obj \<and> v \<in> set (f obj)}"
      using assms f by (auto simp: store_ok_def)
    have "distinct (map fst (indexers c))" using assms by (simp add: store_ok_def)
    then show ?thesis
      using f c Some
      by (auto simp: store_Delete_def Let_def index_keys_delete delete_conv' distinct_removeAll)
  qed
  then show ?thesis
    using assms Some by (simp add: store_ok_def store_Delete_def Let_def distinct_delete)
qed

lemma store_Get_Add: "store_Get (store_Add key obj c) = (store_Get c)(key \<mapsto> obj)"
  by (auto simp: store_Get_def store_Add_def Let_def update_conv')

lemma store_Get_Delete: "store_Get (store_Delete key c) = (store_Get c)(key := None)"
  by (auto simp: store_Get_def store_Delete_def Let_def delete_conv' split: option.splits)

section \<open>The cache of block devices\<close>

type_synonym bd_store = "BlockDevice store"

definition NamespaceIndex :: string where
  "NamespaceIndex = ''namespace''"

definition MetaNamespaceIndexFunc :: "BlockDevice \<Rightarrow> string list" where
  "MetaNamespaceIndexFunc bd = [bd_Namespace bd]"

definition MetaNamespaceKeyFunc :: "BlockDevice \<Rightarrow> string" where
  "MetaNamespaceKeyFunc bd =
     (if length (bd_Namespace bd) > 0 then bd_Namespace bd @ ''/'' @ bd_Name bd else bd_Name bd)"

definition empty_cache :: bd_store where
  "empty_cache = \<lparr>items = [], indexers = [(NamespaceIndex, MetaNamespaceIndexFunc)], indices = []\<rparr>"

definition cache_Add :: "BlockDevice \<Rightarrow> bd_store \<Rightarrow> bd_store" where
  "cache_Add bd c = store_Add (MetaNamespaceKeyFunc bd) bd c"

definition cache_Delete :: "BlockDevice \<Rightarrow> bd_store \<Rightarrow> bd_store" where
  "cache_Delete bd c = store_Delete (MetaNamespaceKeyFunc bd) c"

text \<open>The generated cache: \<open>Get\<close> by key, \<open>List\<close> through \<open>cache.ListAllByNamespace\<close>.\<close>

definition BlockDeviceCache_Get :: "bd_store \<Rightarrow> string \<Rightarrow> string \<Rightarrow> go_error + BlockDevice" where
  "BlockDeviceCache_Get c namespace name =
     (case store_Get c (namespace @ ''/'' @ name) of
        None \<Rightarrow> Inl (StatusError ''NotFound'' (''blockdevices.longhorn.io '' @ [CHR 0x22] @ name @ [CHR 0x22] @ '' not found''))
      | Some bd \<Rightarrow> Inr bd)"

definition append_matching :: "selector \<Rightarrow> BlockDevice list \<Rightarrow> BlockDevice list" where
  "append_matching sel bds =
     filter (\<lambda>m. selector_Empty sel \<or> selector_Matches sel (om_Labels (bd_ObjectMeta m))) bds"

definition BlockDeviceCache_List :: "bd_store \<Rightarrow> string \<Rightarrow> selector \<Rightarrow> BlockDevice list" where
  "BlockDeviceCache_List c namespace sel =
     (if namespace = [] then append_matching sel (store_List c)
      else case store_ByIndex c NamespaceIndex namespace of
             Inl err \<Rightarrow>
               filter (\<lambda>m. bd_Namespace m = namespace \<and> selector_Matches sel (om_Labels (bd_ObjectMeta m)))
                 (store_List c)
           | Inr bds \<Rightarrow> append_matching sel bds)"

lemma append_matching_eq:
  "append_matching sel bds = filter (\<lambda>m. selector_Matches sel (om_Labels (bd_ObjectMeta m))) bds"
  by (auto simp: append_matching_def selector_Empty_def intro: filter_cong)

text \<open>Namespaces are not empty and hold no slash, as the API server ensures.\<close>

definition ns_ok :: "string \<Rightarrow> bool" where
  "ns_ok ns \<longleftrightarrow> ns \<noteq> [] \<and> CHR ''/'' \<notin> set ns"

definition cache_ok :: "bd_store \<Rightarrow> bool" where
  "cache_ok c \<longleftrightarrow>
     store_ok c \<and> map_of (indexers c) NamespaceIndex = Some MetaNamespaceIndexFunc
     \<and> (\<forall>k bd. map_of (items c) k = Some bd \<longrightarrow> k = MetaNamespaceKeyFunc bd \<and> ns_ok (bd_Namespace bd))"

lemma key_inject:
  "CHR ''/'' \<notin> set ns \<Longrightarrow> CHR ''/'' \<notin> set ns' \<Longrightarrow>
   ns @ ''/'' @ n = ns' @ ''/'' @ n' \<longleftrightarrow> ns = ns' \<and> n = n'"
  using cut_at_free [of "CHR ''/''" ns "[]" n] cut_at_free [of "CHR ''/''" ns' "[]" n']
  by (metis Pair_inject option.inject)

lemma MetaNamespaceKeyFunc_ok:
  "ns_ok (bd_Namespace bd) \<Longrightarrow> MetaNamespaceKeyFunc bd = bd_Namespace bd @ ''/'' @ bd_Name bd"
  by (simp add: MetaNamespaceKeyFunc_def ns_ok_def)

section \<open>The interface that the controllers rely on\<close>

text \<open>
  What a cache of block devices promises: a lookup returns what was added last under the
  name, and a list holds exactly the cached objects of the namespace that match the
  selector, each name once.
\<close>

locale device_cache =
  fixes cget :: "'c \<Rightarrow> string \<Rightarrow> string \<Rightarrow> BlockDevice option"
    and clist :: "'c \<Rightarrow> string \<Rightarrow> selector \<Rightarrow> BlockDevice list"
    and cadd :: "BlockDevice \<Rightarrow> 'c \<Rightarrow> 'c"
    and cdel :: "BlockDevice \<Rightarrow> 'c \<Rightarrow> 'c"
    and cempty :: 'c
    and invar :: "'c \<Rightarrow> bool"
  assumes invar_empty: "invar cempty"
    and invar_add: "invar c \<Longrightarrow> ns_ok (bd_Namespace bd) \<Longrightarrow> invar (cadd bd c)"
    and invar_del: "invar c \<Longrightarrow> invar (cdel bd c)"
    and get_empty: "cget cempty ns n = None"
    and get_add: "ns_ok ns \<Longrightarrow> ns_ok (bd_Namespace bd) \<Longrightarrow>
      cget (cadd bd c) ns n = (if ns = bd_Namespace bd \<and> n = bd_Name bd then Some bd else cget c ns n)"
    and get_del: "ns_ok ns \<Longrightarrow> ns_ok (bd_Namespace bd) \<Longrightarrow>
      cget (cdel bd c) ns n = (if ns = bd_Namespace bd \<and> n = bd_Name bd then None else cget c ns n)"
    and get_meta: "invar c \<Longrightarrow> ns_ok ns \<Longrightarrow> cget c ns n = Some bd \<Longrightarrow> bd_Namespace bd = ns \<and> bd_Name bd = n"
    and list_mem: "invar c \<Longrightarrow> ns_ok ns \<Longrightarrow>
      bd \<in> set (clist c ns sel) \<longleftrightarrow>
      cget c ns (bd_Name bd) = Some bd \<and> selector_Matches sel (om_Labels (bd_ObjectMeta bd))"
    and list_distinct: "invar c \<Longrightarrow> ns_ok ns \<Longrightarrow> distinct (map bd_Name (clist c ns sel))"
begin

lemma invar_fold:
  "invar c \<Longrightarrow> \<forall>bd \<in> set bds. ns_ok (bd_Namespace bd) \<Longrightarrow> invar (fold cadd bds c)"
  by (induction bds arbitrary: c) (auto intro: invar_add)

lemma get_fold:
  assumes "ns_ok ns" and "\<forall>bd \<in> set bds. bd_Namespace bd = ns" and "distinct (map bd_Name bds)"
  shows "cget (fold cadd bds c) ns n =
    (case find (\<lambda>bd. bd_Name bd = n) bds of None \<Rightarrow> cget c ns n | Some bd \<Rightarrow> Some bd)"
  using assms
proof (induction bds arbitrary: c)
  case (Cons bd bds)
  have "find (\<lambda>bd. bd_Name bd = n) bds = None" if "bd_Name bd = n"
    using Cons.prems that by (auto simp: find_None_all rev_image_eqI)
  with Cons show ?case by (auto simp: get_add split: option.splits)
qed simp

text \<open>A cache that was filled with some objects lists exactly those that match.\<close>

lemma list_fold:
  assumes "ns_ok ns" and "\<forall>bd \<in> set bds. bd_Namespace bd = ns" and "distinct (map bd_Name bds)"
  shows "set (clist (fold cadd bds cempty) ns sel) =
    {bd \<in> set bds. selector_Matches sel (om_Labels (bd_ObjectMeta bd))}"
proof -
  let ?c = "fold cadd bds cempty"
  have invar: "invar ?c" using assms by (intro invar_fold invar_empty) auto
  have "(cget ?c ns (bd_Name bd) = Some bd) = (bd \<in> set bds)" for bd
  proof
    assume "cget ?c ns (bd_Name bd) = Some bd"
    then show "bd \<in> set bds"
      using get_fold [OF assms, of cempty] by (auto simp: get_empty split: option.splits dest: find_Some_mem)
  next
    assume "bd \<in> set bds"
    from find_unique [OF assms(3) this] show "cget ?c ns (bd_Name bd) = Some bd"
      by (simp add: get_fold [OF assms])
  qed
  then show ?thesis by (simp add: set_eq_iff list_mem [OF invar assms(1)])
qed

end

definition cache_lookup :: "bd_store \<Rightarrow> string \<Rightarrow> string \<Rightarrow> BlockDevice option" where
  "cache_lookup c ns n = (case BlockDeviceCache_Get c ns n of Inl e \<Rightarrow> None | Inr bd \<Rightarrow> Some bd)"

lemma cache_lookup_items: "cache_lookup c ns n = map_of (items c) (ns @ ''/'' @ n)"
  by (simp add: cache_lookup_def BlockDeviceCache_Get_def store_Get_def split: option.splits)

lemma cache_lookup_meta:
  assumes "cache_ok c" and "ns_ok ns" and "cache_lookup c ns n = Some bd"
  shows "bd_Namespace bd = ns \<and> bd_Name bd = n"
proof -
  from assms have "ns @ ''/'' @ n = MetaNamespaceKeyFunc bd" and ok: "ns_ok (bd_Namespace bd)"
    by (auto simp: cache_ok_def cache_lookup_items)
  then have "ns @ ''/'' @ n = bd_Namespace bd @ ''/'' @ bd_Name bd"
    by (simp only: MetaNamespaceKeyFunc_ok)
  moreover have "CHR ''/'' \<notin> set ns" and "CHR ''/'' \<notin> set (bd_Namespace bd)"
    using ok assms(2) by (simp_all add: ns_ok_def)
  ultimately show ?thesis
    using key_inject [of ns "bd_Namespace bd" n "bd_Name bd"] by simp
qed

lemma cache_ok_Add:
  assumes "cache_ok c" and "ns_ok (bd_Namespace bd)"
  shows "cache_ok (cache_Add bd c)"
  using assms store_ok_Add [of c]
  by (auto simp: cache_ok_def cache_Add_def store_Add_def Let_def update_conv' split: if_splits)

lemma cache_ok_Delete:
  assumes "cache_ok c"
  shows "cache_ok (cache_Delete bd c)"
  using assms store_ok_Delete [of c]
  by (auto simp: cache_ok_def cache_Delete_def store_Delete_def Let_def delete_conv'
      split: if_splits option.splits)

lemma cache_List_ok:
  assumes "cache_ok c" and "ns_ok ns"
  shows "BlockDeviceCache_List c ns sel =
    filter (\<lambda>m. selector_Matches sel (om_Labels (bd_ObjectMeta m)))
      (map (\<lambda>k. the (map_of (items c) k)) (index_keys c NamespaceIndex ns))"
  using assms
  by (auto simp: BlockDeviceCache_List_def store_ByIndex_def cache_ok_def ns_ok_def append_matching_eq)

lemma cache_namespace_keys:
  assumes "cache_ok c" and "ns_ok ns"
  shows "distinct (index_keys c NamespaceIndex ns)"
    and "set (index_keys c NamespaceIndex ns) = {ns @ ''/'' @ n | n. \<exists>bd. cache_lookup c ns n = Some bd}"
proof -
  from assms have ok: "store_ok c" "map_of (indexers c) NamespaceIndex = Some MetaNamespaceIndexFunc"
    and key: "\<And>k bd. map_of (items c) k = Some bd \<Longrightarrow> k = MetaNamespaceKeyFunc bd \<and> ns_ok (bd_Namespace bd)"
    by (auto simp: cache_ok_def)
  from ok show "distinct (index_keys c NamespaceIndex ns)"
    by (auto simp: store_ok_def)
  have "set (index_keys c NamespaceIndex ns) =
      {k. \<exists>bd. map_of (items c) k = Some bd \<and> bd_Namespace bd = ns}"
    using ok by (auto simp: store_ok_def MetaNamespaceIndexFunc_def)
  also have "\<dots> = {ns @ ''/'' @ n | n. \<exists>bd. cache_lookup c ns n = Some bd}"
  proof (intro set_eqI iffI; clarsimp simp: cache_lookup_items)
    fix k bd assume "map_of (items c) k = Some bd" and "ns = bd_Namespace bd"
    with key [of k bd] show "\<exists>n. k = bd_Namespace bd @ CHR ''/'' # n
        \<and> (\<exists>b. map_of (items c) (bd_Namespace bd @ CHR ''/'' # n) = Some b)"
      by (auto simp: MetaNamespaceKeyFunc_ok)
  next
    fix n bd assume "map_of (items c) (ns @ CHR ''/'' # n) = Some bd"
    then show "bd_Namespace bd = ns"
      using cache_lookup_meta [OF assms, of n bd] by (simp add: cache_lookup_items)
  qed
  finally show "set (index_keys c NamespaceIndex ns) = {ns @ ''/'' @ n | n. \<exists>bd. cache_lookup c ns n = Some bd}" .
qed

interpretation informer: device_cache cache_lookup BlockDeviceCache_List cache_Add cache_Delete
  empty_cache cache_ok
proof (unfold_locales, goal_cases)
  case 1
  show ?case
    by (auto simp: cache_ok_def store_ok_def empty_cache_def index_keys_def split: if_splits)
next
  case 2
  then show ?case by (rule cache_ok_Add)
next
  case 3
  then show ?case by (rule cache_ok_Delete)
next
  case 4
  show ?case by (simp add: cache_lookup_items empty_cache_def)
next
  case (5 ns bd c n)
  then show ?case
    using key_inject [of ns "bd_Namespace bd" n "bd_Name bd"]
    by (auto simp: cache_lookup_items cache_Add_def store_Add_def Let_def update_conv'
        MetaNamespaceKeyFunc_ok ns_ok_def)
next
  case (6 ns bd c n)
  then show ?case
    using key_inject [of ns "bd_Namespace bd" n "bd_Name bd"]
    by (auto simp: cache_lookup_items cache_Delete_def store_Delete_def Let_def delete_conv'
        MetaNamespaceKeyFunc_ok ns_ok_def split: option.splits)
next
  case 7
  then show ?case by (rule cache_lookup_meta)
next
  case (8 c ns bd sel)
  let ?obj = "\<lambda>k. the (map_of (items c) k)"
  have "bd \<in> ?obj ` set (index_keys c NamespaceIndex ns) \<longleftrightarrow> cache_lookup c ns (bd_Name bd) = Some bd"
  proof
    assume "bd \<in> ?obj ` set (index_keys c NamespaceIndex ns)"
    then obtain n bd' where "cache_lookup c ns n = Some bd'" and "bd = ?obj (ns @ ''/'' @ n)"
      using cache_namespace_keys(2) [OF 8] by auto
    then show "cache_lookup c ns (bd_Name bd) = Some bd"
      using cache_lookup_meta [OF 8, of n bd'] by (simp add: cache_lookup_items)
  next
    assume "cache_lookup c ns (bd_Name bd) = Some bd"
    then have "ns @ ''/'' @ bd_Name bd \<in> set (index_keys c NamespaceIndex ns)"
      and "bd = ?obj (ns @ ''/'' @ bd_Name bd)"
      using cache_namespace_keys(2) [OF 8] by (auto simp: cache_lookup_items)
    then show "bd \<in> ?obj ` set (index_keys c NamespaceIndex ns)" by blast
  qed
  then show ?case by (auto simp: cache_List_ok [OF 8])
next
  case (9 c ns sel)
  let ?ks = "index_keys c NamespaceIndex ns"
  have "inj_on (bd_Name \<circ> (\<lambda>k. the (map_of (items c) k))) (set ?ks)"
    using cache_namespace_keys(2) [OF 9] cache_lookup_meta [OF 9]
    by (auto simp: inj_on_def cache_lookup_items)
  then have "distinct (map bd_Name (map (\<lambda>k. the (map_of (items c) k)) ?ks))"
    using cache_namespace_keys(1) [OF 9] by (simp add: distinct_map comp_inj_on_iff inj_on_imageI2)
  then show ?case by (simp add: cache_List_ok 9 distinct_map_filter)
qed

end
