(* ===== verification/Conditions.thy ===== *)
theory Conditions
  imports Api_Types
begin

text \<open>
  Conditions of a resource, as \<open>vendor/github.com/rancher/wrangler/pkg/condition\<close> reads and
  writes them. The library reaches the slice \<open>Status.Conditions\<close> by reflection; the model
  has the slice. A write that changes a status or a message stamps the condition with the
  current time (\<open>now\<close>, in RFC 3339 format); a write of the present value does not.
\<close>

section \<open>The slice of conditions\<close>

definition new_condition :: "string \<Rightarrow> Condition" where
  "new_condition name =
     \<lparr> cond_Type = name, cond_Status = ''Unknown'', cond_LastUpdateTime = [],
       cond_LastTransitionTime = [], cond_Reason = [], cond_Message = [] \<rparr>"

definition findCond :: "string \<Rightarrow> Condition list \<Rightarrow> Condition option" where
  "findCond name cs = find (\<lambda>c. cond_Type c = name) cs"

definition findOrCreateCond :: "string \<Rightarrow> Condition list \<Rightarrow> Condition list" where
  "findOrCreateCond name cs =
     (case findCond name cs of Some c \<Rightarrow> cs | None \<Rightarrow> cs @ [new_condition name])"

text \<open>A write through the pointer to the condition that was found.\<close>

fun update_cond :: "string \<Rightarrow> (Condition \<Rightarrow> Condition) \<Rightarrow> Condition list \<Rightarrow> Condition list" where
  "update_cond name f [] = []"
| "update_cond name f (c # cs) = (if cond_Type c = name then f c # cs else c # update_cond name f cs)"

definition set_status_value :: "string \<Rightarrow> string \<Rightarrow> Condition \<Rightarrow> Condition" where
  "set_status_value status now c =
     (if cond_Status c \<noteq> status then c\<lparr>cond_Status := status, cond_LastUpdateTime := now\<rparr> else c)"

definition set_message_value :: "string \<Rightarrow> string \<Rightarrow> Condition \<Rightarrow> Condition" where
  "set_message_value msg now c =
     (if cond_Message c \<noteq> msg then c\<lparr>cond_Message := msg, cond_LastUpdateTime := now\<rparr> else c)"

section \<open>The operations of a condition on a block device\<close>

definition conditions :: "BlockDevice \<Rightarrow> Condition list" where
  "conditions bd = bs_Conditions (bd_Status bd)"

definition with_conditions :: "Condition list \<Rightarrow> BlockDevice \<Rightarrow> BlockDevice" where
  "with_conditions cs bd = bd\<lparr>bd_Status := (bd_Status bd)\<lparr>bs_Conditions := cs\<rparr>\<rparr>"

definition write_cond :: "string \<Rightarrow> (Condition \<Rightarrow> Condition) \<Rightarrow> BlockDevice \<Rightarrow> BlockDevice" where
  "write_cond name f bd =
     with_conditions (update_cond name f (findOrCreateCond name (conditions bd))) bd"

definition read_cond :: "string \<Rightarrow> (Condition \<Rightarrow> string) \<Rightarrow> BlockDevice \<Rightarrow> string" where
  "read_cond name f bd = (case findCond name (conditions bd) of None \<Rightarrow> [] | Some c \<Rightarrow> f c)"

definition HasCond :: "string \<Rightarrow> BlockDevice \<Rightarrow> bool" where
  "HasCond name bd \<longleftrightarrow> findCond name (conditions bd) \<noteq> None"

definition SetStatus :: "string \<Rightarrow> string \<Rightarrow> string \<Rightarrow> BlockDevice \<Rightarrow> BlockDevice" where
  "SetStatus c now status = write_cond c (set_status_value status now)"

definition SetStatusBool :: "string \<Rightarrow> string \<Rightarrow> bool \<Rightarrow> BlockDevice \<Rightarrow> BlockDevice" where
  "SetStatusBool c now val = (if val then SetStatus c now ''True'' else SetStatus c now ''False'')"

definition SetMessage :: "string \<Rightarrow> string \<Rightarrow> string \<Rightarrow> BlockDevice \<Rightarrow> BlockDevice" where
  "SetMessage c now m = write_cond c (set_message_value m now)"

definition SetReason :: "string \<Rightarrow> string \<Rightarrow> BlockDevice \<Rightarrow> BlockDevice" where
  "SetReason c r = write_cond c (\<lambda>x. x\<lparr>cond_Reason := r\<rparr>)"

definition GetStatus :: "string \<Rightarrow> BlockDevice \<Rightarrow> string" where
  "GetStatus c = read_cond c cond_Status"

definition GetMessage :: "string \<Rightarrow> BlockDevice \<Rightarrow> string" where
  "GetMessage c = read_cond c cond_Message"

definition GetReason :: "string \<Rightarrow> BlockDevice \<Rightarrow> string" where
  "GetReason c = read_cond c cond_Reason"

definition SetError :: "string \<Rightarrow> string \<Rightarrow> string \<Rightarrow> go_error option \<Rightarrow> BlockDevice \<Rightarrow> BlockDevice" where
  "SetError c now rsn err bd =
     (if err = None \<or> err = Some ErrSkip
      then SetReason c rsn (SetMessage c now [] (SetStatus c now ''True'' bd))
      else SetReason c (if rsn = [] then ''Error'' else rsn)
             (SetMessage c now (Error (the err)) (SetStatus c now ''False'' bd)))"

section \<open>The contract of a condition\<close>

text \<open>
  What a handler relies on: each of the three fields reads back as written, a write leaves
  the other fields and the other conditions alone, and writing a present value of an
  existing condition changes nothing.
\<close>

locale condition_ops =
  fixes set_status set_message :: "string \<Rightarrow> string \<Rightarrow> string \<Rightarrow> 'o \<Rightarrow> 'o"
    and set_reason :: "string \<Rightarrow> string \<Rightarrow> 'o \<Rightarrow> 'o"
    and get_status get_message get_reason :: "string \<Rightarrow> 'o \<Rightarrow> string"
    and has :: "string \<Rightarrow> 'o \<Rightarrow> bool"
  assumes has_set: "has c (set_status d now v obj) \<longleftrightarrow> c = d \<or> has c obj"
      "has c (set_message d now v obj) \<longleftrightarrow> c = d \<or> has c obj"
      "has c (set_reason d v obj) \<longleftrightarrow> c = d \<or> has c obj"
    and get_status: "get_status c (set_status d now v obj) = (if c = d then v else get_status c obj)"
      "has c obj \<Longrightarrow> get_status c (set_message d now v obj) = get_status c obj"
      "has c obj \<Longrightarrow> get_status c (set_reason d v obj) = get_status c obj"
    and get_message: "get_message c (set_message d now v obj) = (if c = d then v else get_message c obj)"
      "get_message c (set_status d now v obj) = get_message c obj"
      "get_message c (set_reason d v obj) = get_message c obj"
    and get_reason: "get_reason c (set_reason d v obj) = (if c = d then v else get_reason c obj)"
      "get_reason c (set_status d now v obj) = get_reason c obj"
      "get_reason c (set_message d now v obj) = get_reason c obj"
    and set_same: "has c obj \<Longrightarrow> set_status c now (get_status c obj) obj = obj"
      "has c obj \<Longrightarrow> set_message c now (get_message c obj) obj = obj"
      "has c obj \<Longrightarrow> set_reason c (get_reason c obj) obj = obj"
begin

text \<open>The three fields of a condition after a full write, and that repeating it is idle.\<close>

lemma full_write:
  assumes "w = set_reason c r (set_message c now m (set_status c now s obj))"
  shows "get_status c w = s" "get_message c w = m" "get_reason c w = r" "has c w"
  unfolding assms by (simp_all add: has_set get_status get_message get_reason)

lemma full_write_same:
  assumes "has c obj" and "get_status c obj = s" and "get_message c obj = m" and "get_reason c obj = r"
  shows "set_reason c r (set_message c now m (set_status c now s obj)) = obj"
  using assms set_same(1,2) [of c obj now] set_same(3) [of c obj] by simp

lemma full_write_other:
  assumes "d \<noteq> c"
  shows "get_message d (set_reason c r (set_message c now m (set_status c now s obj))) = get_message d obj
    \<and> get_reason d (set_reason c r (set_message c now m (set_status c now s obj))) = get_reason d obj
    \<and> (has d obj \<longrightarrow>
        get_status d (set_reason c r (set_message c now m (set_status c now s obj))) = get_status d obj)"
  using assms by (simp add: has_set get_status get_message get_reason)

end

section \<open>The library keeps the contract\<close>

lemma findOrCreate_find:
  "findCond c (findOrCreateCond d cs) =
     (if c = d \<and> findCond c cs = None then Some (new_condition c) else findCond c cs)"
  by (auto simp: findOrCreateCond_def findCond_def find_append new_condition_def split: option.splits)

lemma find_update_cond:
  assumes "\<And>x. cond_Type (f x) = cond_Type x"
  shows "findCond c (update_cond d f cs) =
    (if c = d then map_option f (findCond c cs) else findCond c cs)"
  using assms by (induction cs) (auto simp: findCond_def)

lemma conditions_with [simp]: "conditions (with_conditions cs bd) = cs"
  by (simp add: conditions_def with_conditions_def)

lemma find_write_cond:
  assumes "\<And>x. cond_Type (f x) = cond_Type x"
  shows "findCond c (conditions (write_cond d f bd)) =
    (if c = d then Some (f (case findCond c (conditions bd) of None \<Rightarrow> new_condition c | Some x \<Rightarrow> x))
     else findCond c (conditions bd))"
  using assms by (simp add: write_cond_def find_update_cond findOrCreate_find split: option.splits)

lemma update_cond_same:
  "findCond c cs = Some x \<Longrightarrow> f x = x \<Longrightarrow> update_cond c f cs = cs"
  by (induction cs) (auto simp: findCond_def split: if_splits)

lemma write_cond_same:
  "findCond c (conditions bd) = Some x \<Longrightarrow> f x = x \<Longrightarrow> write_cond c f bd = bd"
  by (simp add: write_cond_def findOrCreateCond_def update_cond_same with_conditions_def conditions_def)

lemma keep_type [simp]:
  "cond_Type (set_status_value v now x) = cond_Type x"
  "cond_Type (set_message_value v now x) = cond_Type x"
  by (simp_all add: set_status_value_def set_message_value_def)

lemma set_value_fields [simp]:
  "cond_Status (set_status_value v now x) = v"
  "cond_Message (set_status_value v now x) = cond_Message x"
  "cond_Reason (set_status_value v now x) = cond_Reason x"
  "cond_Message (set_message_value v now x) = v"
  "cond_Status (set_message_value v now x) = cond_Status x"
  "cond_Reason (set_message_value v now x) = cond_Reason x"
  by (simp_all add: set_status_value_def set_message_value_def)

lemmas cond_defs =
  SetStatus_def SetMessage_def SetReason_def GetStatus_def GetMessage_def GetReason_def
  HasCond_def read_cond_def

interpretation wrangler: condition_ops SetStatus SetMessage SetReason GetStatus GetMessage GetReason HasCond
proof (unfold_locales, goal_cases)
  case (13 c obj now)
  then show ?case
    by (auto simp: cond_defs set_status_value_def intro!: write_cond_same)
next
  case (14 c obj now)
  then show ?case
    by (auto simp: cond_defs set_message_value_def intro!: write_cond_same)
next
  case (15 c obj)
  then show ?case
    by (auto simp: cond_defs intro!: write_cond_same)
qed (auto simp: cond_defs find_write_cond new_condition_def split: option.splits)

text \<open>No operation of a condition touches anything but the conditions.\<close>

lemma with_conditions_frame [simp]:
  "bd_TypeMeta (with_conditions cs bd) = bd_TypeMeta bd"
  "bd_ObjectMeta (with_conditions cs bd) = bd_ObjectMeta bd"
  "bd_Spec (with_conditions cs bd) = bd_Spec bd"
  "bd_DeviceStatus (with_conditions cs bd) = bd_DeviceStatus bd"
  "bs_State (bd_Status (with_conditions cs bd)) = bs_State (bd_Status bd)"
  by (simp_all add: with_conditions_def)

lemma write_cond_frame [simp]:
  "bd_TypeMeta (write_cond c f bd) = bd_TypeMeta bd"
  "bd_ObjectMeta (write_cond c f bd) = bd_ObjectMeta bd"
  "bd_Spec (write_cond c f bd) = bd_Spec bd"
  "bd_DeviceStatus (write_cond c f bd) = bd_DeviceStatus bd"
  "bs_State (bd_Status (write_cond c f bd)) = bs_State (bd_Status bd)"
  by (simp_all add: write_cond_def)

lemma SetStatus_frame [frame_simps]:
  "bd_TypeMeta (SetStatus c now v bd) = bd_TypeMeta bd"
  "bd_ObjectMeta (SetStatus c now v bd) = bd_ObjectMeta bd"
  "bd_Spec (SetStatus c now v bd) = bd_Spec bd"
  "bd_DeviceStatus (SetStatus c now v bd) = bd_DeviceStatus bd"
  "bs_State (bd_Status (SetStatus c now v bd)) = bs_State (bd_Status bd)"
  by (simp_all add: SetStatus_def)

lemma SetMessage_frame [frame_simps]:
  "bd_TypeMeta (SetMessage c now v bd) = bd_TypeMeta bd"
  "bd_ObjectMeta (SetMessage c now v bd) = bd_ObjectMeta bd"
  "bd_Spec (SetMessage c now v bd) = bd_Spec bd"
  "bd_DeviceStatus (SetMessage c now v bd) = bd_DeviceStatus bd"
  "bs_State (bd_Status (SetMessage c now v bd)) = bs_State (bd_Status bd)"
  by (simp_all add: SetMessage_def)

lemma SetStatusBool_frame [frame_simps]:
  "bd_TypeMeta (SetStatusBool c now v bd) = bd_TypeMeta bd"
  "bd_ObjectMeta (SetStatusBool c now v bd) = bd_ObjectMeta bd"
  "bd_Spec (SetStatusBool c now v bd) = bd_Spec bd"
  "bd_DeviceStatus (SetStatusBool c now v bd) = bd_DeviceStatus bd"
  "bs_State (bd_Status (SetStatusBool c now v bd)) = bs_State (bd_Status bd)"
  by (simp_all add: SetStatusBool_def frame_simps)

lemma SetError_frame [frame_simps]:
  "bd_TypeMeta (SetError c now rsn err bd) = bd_TypeMeta bd"
  "bd_ObjectMeta (SetError c now rsn err bd) = bd_ObjectMeta bd"
  "bd_Spec (SetError c now rsn err bd) = bd_Spec bd"
  "bd_DeviceStatus (SetError c now rsn err bd) = bd_DeviceStatus bd"
  "bs_State (bd_Status (SetError c now rsn err bd)) = bs_State (bd_Status bd)"
  by (simp_all add: SetError_def SetReason_def frame_simps)

end
