(* ===== verification/World.thy ===== *)
theory World
  imports Builder Cache Conditions
begin

text \<open>
  The outside world of the controllers: the API server behind the generated client
  (\<open>pkg/generated/controllers/longhorn.io/v1beta1/blockdevice.go\<close>), the informer cache, the
  kernel and the clock. None of them is part of the repository, so they are the fields of a
  record \<open>env\<close> of arbitrary operations on an arbitrary state \<open>'w\<close>; since every call may
  change that state in any way, whatever else happens between two calls is included.
  The model adds one thing: the list of the calls that were made, in order, so that
  theorems can say what the code does to the outside.
\<close>

section \<open>Calls\<close>

text \<open>The options of a watch (\<open>metav1.ListOptions\<close>); a watch itself is known by a handle.\<close>

record ListOptions =
  lo_LabelSelector :: string
  lo_FieldSelector :: string
  lo_Watch :: bool
  lo_AllowWatchBookmarks :: bool
  lo_ResourceVersion :: string
  lo_ResourceVersionMatch :: string
  lo_TimeoutSeconds :: "int option"
  lo_Limit :: int
  lo_Continue :: string

type_synonym watch = nat

text \<open>\<open>CallPatch\<close> has the namespace, the name, the kind of patch, its bytes and the subresources.\<close>

datatype call =
    CallCreate string BlockDevice
  | CallUpdate string BlockDevice
  | CallUpdateStatus string BlockDevice
  | CallDelete string string
  | CallGet string string
  | CallList string
  | CallMkdir string "32 word"
  | CallMount string string string "64 word" string
  | CallSleep "64 word"
  | CallWatch string ListOptions
  | CallPatch string string string string "string list"
  | CallNodeCreate string Node
  | CallNodeUpdate string Node
  | CallNodeDelete string string
  | CallNodeGet string string
  | CallNodeList string
  | CallNodeWatch string ListOptions
  | CallNodePatch string string string string "string list"

text \<open>A result of the client: the object that was decoded and the error.\<close>

type_synonym client_result = "BlockDevice \<times> go_error option"

text \<open>The operations of the server on the resources of one kind, for the nodes.\<close>

record ('o, 'w) rest_client =
  rc_Create :: "string \<Rightarrow> 'o \<Rightarrow> 'w \<Rightarrow> ('o \<times> go_error option) \<times> 'w"
  rc_Update :: "string \<Rightarrow> 'o \<Rightarrow> 'w \<Rightarrow> ('o \<times> go_error option) \<times> 'w"
  rc_Delete :: "string \<Rightarrow> string \<Rightarrow> 'w \<Rightarrow> go_error option \<times> 'w"
  rc_Get :: "string \<Rightarrow> string \<Rightarrow> 'w \<Rightarrow> ('o \<times> go_error option) \<times> 'w"
  rc_List :: "string \<Rightarrow> 'w \<Rightarrow> ('o list \<times> go_error option) \<times> 'w"
  rc_Watch :: "string \<Rightarrow> ListOptions \<Rightarrow> 'w \<Rightarrow> (watch option \<times> go_error option) \<times> 'w"
  rc_Patch :: "string \<Rightarrow> string \<Rightarrow> string \<Rightarrow> string \<Rightarrow> string list \<Rightarrow> 'w \<Rightarrow> ('o \<times> go_error option) \<times> 'w"

record 'w env =
  e_host :: "'w \<Rightarrow> host"
  e_now :: "'w \<Rightarrow> time"
  e_stamp :: "'w \<Rightarrow> string"
  e_CacheGet :: "string \<Rightarrow> string \<Rightarrow> 'w \<Rightarrow> go_error + BlockDevice"
  e_CacheList :: "string \<Rightarrow> selector \<Rightarrow> 'w \<Rightarrow> BlockDevice list \<times> go_error option"
  e_Create :: "string \<Rightarrow> BlockDevice \<Rightarrow> 'w \<Rightarrow> client_result \<times> 'w"
  e_Update :: "string \<Rightarrow> BlockDevice \<Rightarrow> 'w \<Rightarrow> client_result \<times> 'w"
  e_UpdateStatus :: "string \<Rightarrow> BlockDevice \<Rightarrow> 'w \<Rightarrow> client_result \<times> 'w"
  e_Delete :: "string \<Rightarrow> string \<Rightarrow> 'w \<Rightarrow> go_error option \<times> 'w"
  e_List :: "string \<Rightarrow> 'w \<Rightarrow> (BlockDevice list \<times> go_error option) \<times> 'w"
  e_Get :: "string \<Rightarrow> string \<Rightarrow> 'w \<Rightarrow> client_result \<times> 'w"
  e_Watch :: "string \<Rightarrow> ListOptions \<Rightarrow> 'w \<Rightarrow> (watch option \<times> go_error option) \<times> 'w"
  e_Patch :: "string \<Rightarrow> string \<Rightarrow> string \<Rightarrow> string \<Rightarrow> string list \<Rightarrow> 'w \<Rightarrow> client_result \<times> 'w"
  e_Mkdir :: "string \<Rightarrow> 32 word \<Rightarrow> 'w \<Rightarrow> string option \<times> 'w"
  e_Mount :: "string \<Rightarrow> string \<Rightarrow> string \<Rightarrow> 64 word \<Rightarrow> string \<Rightarrow> 'w \<Rightarrow> string option \<times> 'w"
  e_Sleep :: "64 word \<Rightarrow> 'w \<Rightarrow> 'w"
  e_Node :: "(Node, 'w) rest_client"

record 'w world =
  ext :: 'w
  calls :: "call list"

definition after_call :: "call \<Rightarrow> 'a \<times> 'w \<Rightarrow> 'w world \<Rightarrow> 'a \<times> 'w world" where
  "after_call c r w = (fst r, \<lparr>ext = snd r, calls = calls w @ [c]\<rparr>)"

lemma after_call_simps [simp]:
  "fst (after_call c r w) = fst r"
  "calls (snd (after_call c r w)) = calls w @ [c]"
  "ext (snd (after_call c r w)) = snd r"
  by (simp_all add: after_call_def)

section \<open>The generated client\<close>

text \<open>
  Every method passes the namespace of the object and the object on to the REST client.
\<close>

definition Create :: "'w env \<Rightarrow> BlockDevice \<Rightarrow> 'w world \<Rightarrow> client_result \<times> 'w world" where
  "Create env obj w =
     after_call (CallCreate (bd_Namespace obj) obj) (e_Create env (bd_Namespace obj) obj (ext w)) w"

definition Update :: "'w env \<Rightarrow> BlockDevice \<Rightarrow> 'w world \<Rightarrow> client_result \<times> 'w world" where
  "Update env obj w =
     after_call (CallUpdate (bd_Namespace obj) obj) (e_Update env (bd_Namespace obj) obj (ext w)) w"

definition UpdateStatus :: "'w env \<Rightarrow> BlockDevice \<Rightarrow> 'w world \<Rightarrow> client_result \<times> 'w world" where
  "UpdateStatus env obj w =
     after_call (CallUpdateStatus (bd_Namespace obj) obj)
       (e_UpdateStatus env (bd_Namespace obj) obj (ext w)) w"

definition Delete :: "'w env \<Rightarrow> string \<Rightarrow> string \<Rightarrow> 'w world \<Rightarrow> go_error option \<times> 'w world" where
  "Delete env namespace name w =
     after_call (CallDelete namespace name) (e_Delete env namespace name (ext w)) w"

definition List :: "'w env \<Rightarrow> string \<Rightarrow> 'w world \<Rightarrow> (BlockDevice list \<times> go_error option) \<times> 'w world" where
  "List env namespace w = after_call (CallList namespace) (e_List env namespace (ext w)) w"

definition Get :: "'w env \<Rightarrow> string \<Rightarrow> string \<Rightarrow> 'w world \<Rightarrow> client_result \<times> 'w world" where
  "Get env namespace name w = after_call (CallGet namespace name) (e_Get env namespace name (ext w)) w"

definition Watch ::
    "'w env \<Rightarrow> string \<Rightarrow> ListOptions \<Rightarrow> 'w world \<Rightarrow> (watch option \<times> go_error option) \<times> 'w world" where
  "Watch env namespace opts w =
     after_call (CallWatch namespace opts) (e_Watch env namespace opts (ext w)) w"

definition Patch ::
    "'w env \<Rightarrow> string \<Rightarrow> string \<Rightarrow> string \<Rightarrow> string \<Rightarrow> string list \<Rightarrow> 'w world \<Rightarrow> client_result \<times> 'w world" where
  "Patch env namespace name pt data subresources w =
     after_call (CallPatch namespace name pt data subresources)
       (e_Patch env namespace name pt data subresources (ext w)) w"

text \<open>The client of the nodes (\<open>pkg/generated/controllers/longhorn.io/v1beta1/node.go\<close>).\<close>

abbreviation node_Name :: "Node \<Rightarrow> string" where
  "node_Name n \<equiv> om_Name (node_ObjectMeta n)"

abbreviation node_Namespace :: "Node \<Rightarrow> string" where
  "node_Namespace n \<equiv> om_Namespace (node_ObjectMeta n)"

definition NodeCreate :: "'w env \<Rightarrow> Node \<Rightarrow> 'w world \<Rightarrow> (Node \<times> go_error option) \<times> 'w world" where
  "NodeCreate env obj w =
     after_call (CallNodeCreate (node_Namespace obj) obj) (rc_Create (e_Node env) (node_Namespace obj) obj (ext w)) w"

definition NodeUpdate :: "'w env \<Rightarrow> Node \<Rightarrow> 'w world \<Rightarrow> (Node \<times> go_error option) \<times> 'w world" where
  "NodeUpdate env obj w =
     after_call (CallNodeUpdate (node_Namespace obj) obj) (rc_Update (e_Node env) (node_Namespace obj) obj (ext w)) w"

definition NodeDelete :: "'w env \<Rightarrow> string \<Rightarrow> string \<Rightarrow> 'w world \<Rightarrow> go_error option \<times> 'w world" where
  "NodeDelete env namespace name w =
     after_call (CallNodeDelete namespace name) (rc_Delete (e_Node env) namespace name (ext w)) w"

definition NodeGet :: "'w env \<Rightarrow> string \<Rightarrow> string \<Rightarrow> 'w world \<Rightarrow> (Node \<times> go_error option) \<times> 'w world" where
  "NodeGet env namespace name w =
     after_call (CallNodeGet namespace name) (rc_Get (e_Node env) namespace name (ext w)) w"

definition NodeGetList :: "'w env \<Rightarrow> string \<Rightarrow> 'w world \<Rightarrow> (Node list \<times> go_error option) \<times> 'w world" where
  "NodeGetList env namespace w = after_call (CallNodeList namespace) (rc_List (e_Node env) namespace (ext w)) w"

definition NodeWatch ::
    "'w env \<Rightarrow> string \<Rightarrow> ListOptions \<Rightarrow> 'w world \<Rightarrow> (watch option \<times> go_error option) \<times> 'w world" where
  "NodeWatch env namespace opts w =
     after_call (CallNodeWatch namespace opts) (rc_Watch (e_Node env) namespace opts (ext w)) w"

definition NodePatch ::
    "'w env \<Rightarrow> string \<Rightarrow> string \<Rightarrow> string \<Rightarrow> string \<Rightarrow> string list \<Rightarrow> 'w world \<Rightarrow> (Node \<times> go_error option) \<times> 'w world" where
  "NodePatch env namespace name pt data subresources w =
     after_call (CallNodePatch namespace name pt data subresources)
       (rc_Patch (e_Node env) namespace name pt data subresources (ext w)) w"

section \<open>The kernel\<close>

definition MS_RDONLY :: "64 word" where
  "MS_RDONLY = 0x1"

definition MS_RELATIME :: "64 word" where
  "MS_RELATIME = 0x200000"

definition ext4MountOptions :: string where
  "ext4MountOptions =
     Join [''journal_checksum'', ''journal_ioprio=0'', ''barrier=1'', ''errors=remount-ro''] '',''"

text \<open>\<open>os.NewSyscallError\<close> prefixes the message with the name of the system call.\<close>

definition MountExt4 ::
    "'w env \<Rightarrow> string \<Rightarrow> string \<Rightarrow> bool \<Rightarrow> 'w world \<Rightarrow> go_error option \<times> 'w world" where
  "MountExt4 env device path readonly w =
     (let flags = (if readonly then or MS_RELATIME MS_RDONLY else MS_RELATIME);
          (err, w) = after_call (CallMount device path ''ext4'' flags ext4MountOptions)
            (e_Mount env device path ''ext4'' flags ext4MountOptions (ext w)) w
      in (map_option (\<lambda>m. PlainError (''mount: '' @ m)) err, w))"

text \<open>The mode of a new directory, as \<open>os\<close> has it: the bit of a directory, and none of the permissions.\<close>

definition ModeDir :: "32 word" where
  "ModeDir = push_bit 31 1"

definition Mkdir :: "'w env \<Rightarrow> string \<Rightarrow> 32 word \<Rightarrow> 'w world \<Rightarrow> go_error option \<times> 'w world" where
  "Mkdir env path perm w =
     (let (err, w) = after_call (CallMkdir path perm) (e_Mkdir env path perm (ext w)) w
      in (map_option PlainError err, w))"

definition Sleep :: "'w env \<Rightarrow> 64 word \<Rightarrow> 'w world \<Rightarrow> 'w world" where
  "Sleep env d w = \<lparr>ext = e_Sleep env d (ext w), calls = calls w @ [CallSleep d]\<rparr>"

text \<open>Reads of the machine and of the cache as they are now.\<close>

abbreviation host_now :: "'w env \<Rightarrow> 'w world \<Rightarrow> host" where
  "host_now env w \<equiv> e_host env (ext w)"

abbreviation cache_get :: "'w env \<Rightarrow> string \<Rightarrow> string \<Rightarrow> 'w world \<Rightarrow> go_error + BlockDevice" where
  "cache_get env namespace name w \<equiv> e_CacheGet env namespace name (ext w)"

abbreviation cache_list ::
    "'w env \<Rightarrow> string \<Rightarrow> selector \<Rightarrow> 'w world \<Rightarrow> BlockDevice list \<times> go_error option" where
  "cache_list env namespace sel w \<equiv> e_CacheList env namespace sel (ext w)"

text \<open>The cache of the environment is the informer's: theory \<open>Cache\<close> describes it.\<close>

definition reads_informer :: "'w env \<Rightarrow> ('w \<Rightarrow> bd_store) \<Rightarrow> bool" where
  "reads_informer env store \<longleftrightarrow>
     (\<forall>ns n w. e_CacheGet env ns n w = BlockDeviceCache_Get (store w) ns n)
     \<and> (\<forall>ns sel w. e_CacheList env ns sel w = (BlockDeviceCache_List (store w) ns sel, None))"

section \<open>Which calls an operation makes\<close>

lemma Create_calls [call_simps]: "calls (snd (Create env obj w)) = calls w @ [CallCreate (bd_Namespace obj) obj]"
  by (simp add: Create_def)

lemma Update_calls [call_simps]: "calls (snd (Update env obj w)) = calls w @ [CallUpdate (bd_Namespace obj) obj]"
  by (simp add: Update_def)

lemma UpdateStatus_calls [call_simps]:
  "calls (snd (UpdateStatus env obj w)) = calls w @ [CallUpdateStatus (bd_Namespace obj) obj]"
  by (simp add: UpdateStatus_def)

lemma Delete_calls [call_simps]: "calls (snd (Delete env ns n w)) = calls w @ [CallDelete ns n]"
  by (simp add: Delete_def)

lemma List_calls [call_simps]: "calls (snd (List env ns w)) = calls w @ [CallList ns]"
  by (simp add: List_def)

lemma Mkdir_calls [call_simps]: "calls (snd (Mkdir env path perm w)) = calls w @ [CallMkdir path perm]"
  by (simp add: Mkdir_def split: prod.splits) (metis after_call_simps(2) snd_conv)

lemma MountExt4_calls [call_simps]:
  "calls (snd (MountExt4 env device path False w)) =
     calls w @ [CallMount device path ''ext4'' MS_RELATIME ext4MountOptions]"
  by (simp add: MountExt4_def Let_def split: prod.splits) (metis after_call_simps(2) snd_conv)

lemma Sleep_calls [call_simps]: "calls (Sleep env d w) = calls w @ [CallSleep d]"
  by (simp add: Sleep_def)

lemma Node_calls [call_simps]:
  "calls (snd (NodeCreate env n w)) = calls w @ [CallNodeCreate (node_Namespace n) n]"
  "calls (snd (NodeUpdate env n w)) = calls w @ [CallNodeUpdate (node_Namespace n) n]"
  by (simp_all add: NodeCreate_def NodeUpdate_def)

text \<open>The same, for the results of the calls.\<close>

lemma client_calls:
  "Create env bd w = (r, w') \<Longrightarrow> calls w' = calls w @ [CallCreate (bd_Namespace bd) bd]"
  "Update env bd w = (r, w') \<Longrightarrow> calls w' = calls w @ [CallUpdate (bd_Namespace bd) bd]"
  "UpdateStatus env bd w = (r, w') \<Longrightarrow> calls w' = calls w @ [CallUpdateStatus (bd_Namespace bd) bd]"
  "Delete env ns n w = (e, w') \<Longrightarrow> calls w' = calls w @ [CallDelete ns n]"
  "List env ns w = (l, w') \<Longrightarrow> calls w' = calls w @ [CallList ns]"
  "Mkdir env path perm w = (e, w') \<Longrightarrow> calls w' = calls w @ [CallMkdir path perm]"
  "MountExt4 env dev path False w = (e, w') \<Longrightarrow>
     calls w' = calls w @ [CallMount dev path ''ext4'' MS_RELATIME ext4MountOptions]"
  using Create_calls [of env bd w] Update_calls [of env bd w] UpdateStatus_calls [of env bd w]
    Delete_calls [of env ns n w] List_calls [of env ns w] Mkdir_calls [of env path perm w]
    MountExt4_calls [of env dev path w] by auto

section \<open>Loops that stop at the first error\<close>

text \<open>
  An environment that answers the writing calls by \<open>f\<close>, whatever its state: \<open>f c\<close> is the error of
  call \<open>c\<close>. With it the calls of a loop that stops at the first error are a prefix.
\<close>

definition answers :: "'w env \<Rightarrow> (call \<Rightarrow> go_error option) \<Rightarrow> bool" where
  "answers env f \<longleftrightarrow>
     (\<forall>ns bd w. snd (fst (e_Create env ns bd w)) = f (CallCreate ns bd)
       \<and> snd (fst (e_Update env ns bd w)) = f (CallUpdate ns bd)
       \<and> snd (fst (e_UpdateStatus env ns bd w)) = f (CallUpdateStatus ns bd))
     \<and> (\<forall>ns n w. fst (e_Delete env ns n w) = f (CallDelete ns n))"

fun upto_failure :: "(call \<Rightarrow> go_error option) \<Rightarrow> call list \<Rightarrow> call list" where
  "upto_failure f [] = []"
| "upto_failure f (c # cs) = c # (if f c = None then upto_failure f cs else [])"

fun first_failure :: "(call \<Rightarrow> go_error option) \<Rightarrow> call list \<Rightarrow> go_error option" where
  "first_failure f [] = None"
| "first_failure f (c # cs) = (case f c of None \<Rightarrow> first_failure f cs | Some e \<Rightarrow> Some e)"

lemma upto_failure_all:
  "upto_failure f cs = cs" if "first_failure f cs = None"
  using that by (induction cs) (auto split: option.splits)

lemma answers_client:
  assumes "answers env f"
  shows "Create env bd w = ((r, err), w') \<Longrightarrow> err = f (CallCreate (bd_Namespace bd) bd)"
    and "Update env bd w = ((r, err), w') \<Longrightarrow> err = f (CallUpdate (bd_Namespace bd) bd)"
    and "Delete env ns n w = (err, w') \<Longrightarrow> err = f (CallDelete ns n)"
  using assms by (auto simp: answers_def Create_def Update_def Delete_def after_call_def)
    (metis snd_conv)+

end
