(* ===== verification/Controller.thy ===== *)
theory Controller
  imports World
begin

text \<open>
  \<open>pkg/controller/blockdevice/controller.go\<close>: the controller that registers the block
  devices of its node and that mounts and deletes them when their resources change.
  Registering the two handlers (\<open>Register\<close>) is in theory \<open>Daemon\<close>.
\<close>

section \<open>State\<close>

record Controller =
  c_namespace :: string
  c_nodeName :: string
  c_BlockInfo :: Info

section \<open>Equality of Go values\<close>

text \<open>
  \<open>reflect.DeepEqual\<close> compares interface values: values of different dynamic types are never
  equal. Two dynamic types occur, a \<open>BlockDevice\<close> and a pointer to one.
\<close>

datatype 'a go_value = Val 'a | Ptr 'a

fun DeepEqual :: "'a go_value \<Rightarrow> 'a go_value \<Rightarrow> bool" where
  "DeepEqual (Val a) (Val b) = (a = b)"
| "DeepEqual (Ptr a) (Ptr b) = (a = b)"
| "DeepEqual x y = False"

section \<open>Saving a resource\<close>

definition SaveBlockDevice ::
    "'w env \<Rightarrow> BlockDevice \<Rightarrow> BlockDevice list \<Rightarrow> 'w world \<Rightarrow> go_error option \<times> 'w world" where
  "SaveBlockDevice env blockDevice bds w =
     (case find (\<lambda>existingBD. bd_Name existingBD = bd_Name blockDevice) bds of
        Some existingBD \<Rightarrow>
          if \<not> DeepEqual (Ptr existingBD) (Ptr blockDevice) then
            (let toUpdate = existingBD
                   \<lparr> bd_Spec := bd_Spec blockDevice,
                     bd_Status := (bd_Status existingBD)
                       \<lparr> bs_DeviceStatus := bd_DeviceStatus blockDevice \<rparr> \<rparr>;
                 ((_, err), w) = Update env toUpdate w
             in (err, w))
          else (None, w)
      | None \<Rightarrow>
          (let ((_, err), w) = Create env blockDevice w in (err, w)))"

definition SaveBlockDeviceByList ::
    "'w env \<Rightarrow> BlockDevice \<Rightarrow> BlockDevice list \<Rightarrow> 'w world \<Rightarrow> go_error option \<times> 'w world" where
  "SaveBlockDeviceByList env blockDevice bdList w =
     (case find (\<lambda>existingBD. bd_Name existingBD = bd_Name blockDevice) bdList of
        Some existingBD \<Rightarrow>
          if \<not> DeepEqual (Val existingBD) (Ptr blockDevice) then
            (let toUpdate = existingBD
                   \<lparr> bd_Status := (bd_Status existingBD)
                       \<lparr> bs_DeviceStatus := bd_DeviceStatus blockDevice \<rparr> \<rparr>;
                 ((_, err), w) = Update env toUpdate w
             in (err, w))
          else (None, w)
      | None \<Rightarrow>
          (let ((_, err), w) = Create env blockDevice w in (err, w)))"

section \<open>Registering the devices of the node\<close>

fun new_devices :: "Controller \<Rightarrow> Disk list \<Rightarrow> BlockDevice list outcome" where
  "new_devices c [] = Ret []"
| "new_devices c (disk # ds) =
     (if IsLonghornBlockDevice (disk_BusPath disk) then new_devices c ds
      else bind_outcome (GetNewBlockDevices disk (c_nodeName c) (c_namespace c)) (\<lambda>blockDevices.
             bind_outcome (new_devices c ds) (\<lambda>bds. Ret (blockDevices @ bds))))"

fun save_loop ::
    "'w env \<Rightarrow> BlockDevice list \<Rightarrow> BlockDevice list \<Rightarrow> 'w world \<Rightarrow> go_error option \<times> 'w world" where
  "save_loop env [] bdList w = (None, w)"
| "save_loop env (bd # bds) bdList w =
     (case SaveBlockDeviceByList env bd bdList w of
        (Some err, w) \<Rightarrow> (Some err, w)
      | (None, w) \<Rightarrow> save_loop env bds bdList w)"

definition RegisterNodeBlockDevices ::
    "'w env \<Rightarrow> Controller \<Rightarrow> 'w world \<Rightarrow> (go_error option \<times> 'w world) outcome" where
  "RegisterNodeBlockDevices env c w =
     bind_outcome (new_devices c (info_Disks (c_BlockInfo c))) (\<lambda>bds.
       let ((bdList, err), w) = List env (c_namespace c) w
       in case err of
            Some e \<Rightarrow> Ret (Some e, w)
          | None \<Rightarrow> Ret (save_loop env bds bdList w))"

section \<open>Mounting a device when its resource changes\<close>

definition mountDevice ::
    "'w env \<Rightarrow> string \<Rightarrow> string \<Rightarrow> 'w world \<Rightarrow> go_error option \<times> 'w world" where
  "mountDevice env devPath mountPoint w =
     (case host_stat (host_now env w) mountPoint of
        StatFails e \<Rightarrow> (Some (PlainError e), w)
      | StatNotExist e \<Rightarrow>
          (case Mkdir env mountPoint ModeDir w of
             (Some err, w) \<Rightarrow> (Some err, w)
           | (None, w) \<Rightarrow> MountExt4 env devPath mountPoint False w)
      | StatOK \<Rightarrow> MountExt4 env devPath mountPoint False w)"

definition IsSupportedFileSystem :: "string \<Rightarrow> bool" where
  "IsSupportedFileSystem fsType \<longleftrightarrow>
     fsType = ''ext4'' \<or> fsType = ''ext3'' \<or> fsType = ''ext2'' \<or> fsType = ''xfs''"

definition isValidFileSystem :: "FilesystemInfo \<Rightarrow> FilesystemStatus \<Rightarrow> go_error option \<times> bool" where
  "isValidFileSystem fs fsStatus =
     (let fs = (if length (fi_MountPoint fs) > 1
                then fs\<lparr>fi_MountPoint := TrimSuffix (fi_MountPoint fs) ''/''\<rparr> else fs)
      in if fi_MountPoint fs \<noteq> fst_MountPoint fsStatus
         then (Some (PlainError (''current mountPoint '' @ fst_MountPoint fsStatus
                 @ '' does not match the specified path: '' @ fi_MountPoint fs)), False)
         else if \<not> IsSupportedFileSystem (fst_Type fsStatus)
         then (Some (PlainError (''unsupported filesystem type '' @ fst_Type fsStatus)), False)
         else (None, True))"

abbreviation fs_spec :: "BlockDevice \<Rightarrow> FilesystemInfo" where
  "fs_spec bd \<equiv> spec_FileSystem (bd_Spec bd)"

abbreviation fs_status :: "BlockDevice \<Rightarrow> FilesystemStatus" where
  "fs_status bd \<equiv> ds_FileSystem (bd_DeviceStatus bd)"

definition with_fs_status :: "FilesystemStatus \<Rightarrow> BlockDevice \<Rightarrow> BlockDevice" where
  "with_fs_status f bd =
     bd\<lparr>bd_Status := (bd_Status bd)
         \<lparr>bs_DeviceStatus := (bd_DeviceStatus bd)\<lparr>ds_FileSystem := f\<rparr>\<rparr>\<rparr>"

text \<open>The end of the handler: the condition is set and the resource written if it changed.\<close>

definition set_mounted :: "string \<Rightarrow> BlockDevice \<Rightarrow> BlockDevice" where
  "set_mounted now deviceCpy =
     (let (err, validFs) = isValidFileSystem (fs_spec deviceCpy) (fs_status deviceCpy);
          mounted = (validFs \<and> fst_MountPoint (fs_status deviceCpy) \<noteq> []);
          deviceCpy = SetStatusBool DeviceMounted now mounted deviceCpy;
          deviceCpy = SetError DeviceMounted now [] err deviceCpy
      in case err of
           Some e \<Rightarrow> SetMessage DeviceMounted now (Error e) deviceCpy
         | None \<Rightarrow> deviceCpy)"

definition finish_change ::
    "'w env \<Rightarrow> BlockDevice \<Rightarrow> BlockDevice \<Rightarrow> 'w world \<Rightarrow>
     (BlockDevice option \<times> go_error option) \<times> 'w world" where
  "finish_change env device deviceCpy w =
     (let deviceCpy = set_mounted (e_stamp env (ext w)) deviceCpy
      in if \<not> DeepEqual (Ptr device) (Ptr deviceCpy) then
           (let ((_, err), w) = Update env deviceCpy w
            in case err of Some e \<Rightarrow> ((Some device, Some e), w) | None \<Rightarrow> ((None, None), w))
         else ((None, None), w))"

definition mount_failed :: "string \<Rightarrow> BlockDevice \<Rightarrow> go_error \<Rightarrow> BlockDevice \<Rightarrow> BlockDevice" where
  "mount_failed now device err deviceCpy =
     SetError DeviceMounted now []
       (Some (PlainError (''failed to mount the device '' @ spec_DevPath (bd_Spec device)
         @ '' to path '' @ fi_MountPoint (fs_spec device) @ '', error:'' @ Error err)))
       (SetStatusBool DeviceMounted now False deviceCpy)"

definition OnBlockDeviceChange ::
    "'w env \<Rightarrow> Controller \<Rightarrow> string \<Rightarrow> BlockDevice option \<Rightarrow> 'w world \<Rightarrow>
     ((BlockDevice option \<times> go_error option) \<times> 'w world) outcome" where
  "OnBlockDeviceChange env c key dev w =
     (case dev of
        None \<Rightarrow> Ret ((None, None), w)
      | Some device \<Rightarrow>
          if om_DeletionTimestamp (bd_ObjectMeta device) \<noteq> None then Ret ((Some device, None), w)
          else if fi_MountPoint (fs_spec device) = [] then Ret ((Some device, None), w)
          else
            let deviceCpy = device;
                fs = fs_spec deviceCpy;
                fsStatus = fs_status deviceCpy
            in if \<not> snd (isValidFileSystem fs fsStatus) then
                 let deviceCpy =
                       (if fi_ForceFormatted fs \<and> fst_LastFormattedAt fsStatus = None
                        then with_fs_status (fsStatus\<lparr>fst_LastFormattedAt := Some (e_now env (ext w))\<rparr>) deviceCpy
                        else deviceCpy);
                     (err, w) = mountDevice env (spec_DevPath (bd_Spec deviceCpy)) (fi_MountPoint fs) w
                 in (case err of
                       Some e \<Rightarrow>
                         (let ((r, uerr), w) =
                                Update env (mount_failed (e_stamp env (ext w)) device e deviceCpy) w
                          in Ret ((Some r, uerr), w))
                     | None \<Rightarrow>
                         bind_outcome
                           (GetDiskByName (host_now env w) (c_BlockInfo c) (spec_DevPath (bd_Spec deviceCpy)))
                           (\<lambda>disk.
                              Ret (finish_change env device
                                (with_fs_status ((fs_status deviceCpy)
                                   \<lparr> fst_Type := fsi_FsType (disk_FileSystemInfo disk),
                                     fst_MountPoint := fsi_MountPoint (disk_FileSystemInfo disk) \<rparr>) deviceCpy) w)))
               else Ret (finish_change env device deviceCpy w))"

section \<open>Deleting the children of a deleted resource\<close>

fun delete_loop ::
    "'w env \<Rightarrow> string \<Rightarrow> BlockDevice list \<Rightarrow> 'w world \<Rightarrow> go_error option \<times> 'w world" where
  "delete_loop env namespace [] w = (None, w)"
| "delete_loop env namespace (bd # bds) w =
     (case Delete env namespace (bd_Name bd) w of
        (Some err, w) \<Rightarrow> (Some err, w)
      | (None, w) \<Rightarrow> delete_loop env namespace bds w)"

definition OnBlockDeviceDelete ::
    "'w env \<Rightarrow> Controller \<Rightarrow> string \<Rightarrow> BlockDevice option \<Rightarrow> 'w world \<Rightarrow>
     (BlockDevice option \<times> go_error option) \<times> 'w world" where
  "OnBlockDeviceDelete env c key dev w =
     (case dev of
        None \<Rightarrow> ((None, None), w)
      | Some device \<Rightarrow>
          (case cache_list env (c_namespace c)
                  (SelectorFromSet [(ParentDeviceLabel, bd_Name device)]) w of
             (bds, Some err) \<Rightarrow> ((Some device, Some err), w)
           | (bds, None) \<Rightarrow>
               (case delete_loop env (c_namespace c) bds w of
                  (Some err, w) \<Rightarrow> ((Some device, Some err), w)
                | (None, w) \<Rightarrow> ((None, None), w))))"

end
