(* ===== verification/Block_Props.thy ===== *)
theory Block_Props
  imports Block
begin

text \<open>
  Facts about package \<open>pkg/block\<close>: the mount table is parsed as \<open>getmntent\<close> prints it and
  its first entry for a device wins, sizes and identifiers are read back from the texts the
  kernel and \<open>blkid\<close> print, and the scan of a host finds the disks and partitions that
  sysfs lists.
\<close>

section \<open>The mount table\<close>

text \<open>The encoding of a mount point that the comment in \<open>parseMountEntry\<close> quotes.\<close>

fun escape_mount :: "string \<Rightarrow> string" where
  "escape_mount [] = []"
| "escape_mount (c # cs) =
     (if c = CHR '' '' then [CHR 0x5C] @ ''040''
      else if c = CHR 0x09 then [CHR 0x5C] @ ''011''
      else if c = CHR 0x0A then [CHR 0x5C] @ ''012''
      else if c = CHR 0x5C then [CHR 0x5C, CHR 0x5C]
      else [c]) @ escape_mount cs"

definition mount_text :: "string \<Rightarrow> bool" where
  "mount_text s \<longleftrightarrow> list_all (\<lambda>c. c \<in> {CHR '' '', CHR 0x09, CHR 0x0A} \<or> c \<notin> set space_bytes) s"

definition render_mount :: "mountEntry \<Rightarrow> string" where
  "render_mount e =
     Join [me_Partition e, escape_mount (me_Mountpoint e), me_FilesystemType e,
           Join (me_Options e) '','', ''0'', ''0''] '' ''"

definition plain_entry :: "mountEntry \<Rightarrow> bool" where
  "plain_entry e \<longleftrightarrow>
     HasPrefix (me_Partition e) ''/'' \<and> no_space (me_Partition e)
     \<and> me_Mountpoint e \<noteq> [] \<and> mount_text (me_Mountpoint e)
     \<and> me_FilesystemType e \<noteq> [] \<and> no_space (me_FilesystemType e)
     \<and> me_Options e \<noteq> []
     \<and> list_all (\<lambda>o'. o' \<noteq> [] \<and> no_space o' \<and> CHR '','' \<notin> set o') (me_Options e)"

lemma Replace_other:
  "c \<noteq> CHR 0x5C \<Longrightarrow> Replace mount_replacer (c # cs) = c # Replace mount_replacer cs"
  by (simp add: mount_replacer_def)

lemma Replace_escape: "Replace mount_replacer (escape_mount s) = s"
proof (induction s)
  case (Cons c cs)
  then show ?case
    by (simp add: Replace_other) (simp add: mount_replacer_def)
qed simp

lemma space_bytes_ascii [simp]:
  "CHR '','' \<notin> set space_bytes" "CHR ''0'' \<notin> set space_bytes"
  "CHR ''1'' \<notin> set space_bytes" "CHR ''2'' \<notin> set space_bytes"
  "CHR ''4'' \<notin> set space_bytes" "CHR 0x5C \<notin> set space_bytes"
  "CHR 0x22 \<notin> set space_bytes"
  by code_simp+

lemma escape_no_space: "mount_text s \<Longrightarrow> no_space (escape_mount s)"
  by (induction s) (auto simp: mount_text_def)

lemma escape_not_Nil: "s \<noteq> [] \<Longrightarrow> escape_mount s \<noteq> []"
  by (cases s) auto

lemma no_space_Join:
  "\<forall>s \<in> set ss. no_space s \<Longrightarrow> no_space sep \<Longrightarrow> no_space (Join ss sep)"
  by (induction ss sep rule: Join.induct) auto

lemma Join_not_Nil: "ss \<noteq> [] \<Longrightarrow> \<forall>s \<in> set ss. s \<noteq> [] \<Longrightarrow> Join ss sep \<noteq> []"
  by (induction ss sep rule: Join.induct) auto

lemma Fields_render_mount:
  assumes "plain_entry e"
  shows "Fields (render_mount e) =
    [me_Partition e, escape_mount (me_Mountpoint e), me_FilesystemType e,
     Join (me_Options e) '','', ''0'', ''0'']"
proof -
  from assms have "me_Partition e \<noteq> []" by (auto simp: plain_entry_def)
  with assms show ?thesis
    unfolding render_mount_def plain_entry_def
    by (intro Fields_Join)
       (auto simp: escape_no_space escape_not_Nil list_all_iff
          intro!: no_space_Join dest: Join_not_Nil)
qed

text \<open>C27: a mount entry that is printed in the format of the mount table, with the mount
  point encoded, is read back.\<close>

theorem parseMountEntry_render:
  assumes "plain_entry e"
  shows "parseMountEntry (render_mount e) = Ret (Some e)"
proof -
  obtain cs where start: "render_mount e = CHR ''/'' # cs"
    using assms by (auto simp: render_mount_def plain_entry_def HasPrefix_iff)
  have "Split (Join (me_Options e) '','') '','' = me_Options e"
    using assms by (intro Split_Join) (auto simp: plain_entry_def list_all_iff)
  then show ?thesis
    using Fields_render_mount [OF assms] by (simp add: start Replace_escape)
qed

theorem parseMountEntry_render_witness:
  "parseMountEntry (render_mount
     \<lparr>me_Partition = ''/dev/sda6'', me_Mountpoint = [CHR ''/''] @ ''my disk'' @ [CHR 0x5C],
      me_FilesystemType = ''ext4'', me_Options = [''rw'', ''relatime'']\<rparr>) =
   Ret (Some
     \<lparr>me_Partition = ''/dev/sda6'', me_Mountpoint = [CHR ''/''] @ ''my disk'' @ [CHR 0x5C],
      me_FilesystemType = ''ext4'', me_Options = [''rw'', ''relatime'']\<rparr>)"
  by (rule parseMountEntry_render) code_simp

text \<open>The entries of a mount table, as a list: lines that are no device mounts are skipped.\<close>

fun mount_table :: "string list \<Rightarrow> mountEntry list" where
  "mount_table [] = []"
| "mount_table (line # lines) =
     (case parseMountEntry line of
        Ret (Some entry) \<Rightarrow> entry # mount_table lines
      | _ \<Rightarrow> mount_table lines)"

definition mount_result :: "mountEntry option \<Rightarrow> string \<times> string \<times> bool" where
  "mount_result m =
     (case m of
        None \<Rightarrow> ([], [], True)
      | Some e \<Rightarrow> (me_Mountpoint e, me_FilesystemType e, ''rw'' \<notin> set (me_Options e)))"

lemma parseMountEntry_Panic: "parseMountEntry line = Panic e \<Longrightarrow> line = []"
  by (cases line) (auto simp: Let_def split: if_splits)

lemma mount_scan_no_empty:
  "[] \<notin> set lines \<Longrightarrow>
   mount_scan part lines = Ret (mount_result (find (\<lambda>e. me_Partition e = part) (mount_table lines)))"
  by (induction lines)
     (auto simp: mount_result_def split: outcome.splits option.splits dest: parseMountEntry_Panic)

lemma mount_scan_append:
  "[] \<notin> set pre \<Longrightarrow>
   mount_scan part (pre @ lines) =
     (case find (\<lambda>e. me_Partition e = part) (mount_table pre) of
        None \<Rightarrow> mount_scan part lines
      | Some e \<Rightarrow> Ret (mount_result (Some e)))"
  by (induction pre)
     (auto simp: mount_result_def split: outcome.splits option.splits dest: parseMountEntry_Panic)

text \<open>With no blank line in the mount table, \<open>partitionInfo\<close> reports the first entry of
  the device, under its full or its short name: its mount point and type, and that it is
  read-only unless the options contain \<open>rw\<close>; an absent device is not mounted.\<close>

lemma partitionInfo_first_entry:
  assumes "open_lines h (ProcMounts ps) = Some lines" and "[] \<notin> set lines"
  shows "partitionInfo h ps part =
    Ret (mount_result (find (\<lambda>e. me_Partition e = full_path part) (mount_table lines)))"
  using assms by (simp add: partitionInfo_def mount_scan_no_empty)

definition quiet_host :: host where
  "quiet_host =
     \<lparr> host_file = (\<lambda>p. OpenFails ''no such file''), host_dir = (\<lambda>p. None),
       host_link = (\<lambda>p. None), host_exec = (\<lambda>args. Inl ''exit status 2''),
       host_stat = (\<lambda>p. StatNotExist ''no such file'') \<rparr>"

definition demo_paths :: paths where
  "demo_paths = \<lparr>SysBlock = ''/sys/block'', ProcMounts = ''/proc/self/mounts'', RunUdevData = ''/run/udev/data''\<rparr>"

text \<open>A blank line in the mount table before the first entry of the device makes
  \<open>partitionInfo\<close> panic, whatever follows it.\<close>

lemma partitionInfo_blank_line:
  assumes "open_lines h (ProcMounts ps) = Some (pre @ [] # post)" and "[] \<notin> set pre"
    and "find (\<lambda>e. me_Partition e = full_path part) (mount_table pre) = None"
  shows "partitionInfo h ps part = Panic ''index out of range [0] with length 0''"
  using assms by (simp add: partitionInfo_def mount_scan_append)

section \<open>Sizes\<close>

lemma read_uint_decimal:
  assumes "host_file h path = Contents (decimal n @ [CHR 0x0A])" and "n < 2 ^ 64"
  shows "read_uint h path = Some (word_of_nat n)"
proof -
  have "ParseUint (decimal n) = Inr (word_of_nat n)"
    using assms(2) by (simp add: ParseUint_def parse_digits_decimal)
  with assms(1) show ?thesis by (simp add: read_uint_def ReadFile_def TrimSpace_newline)
qed

lemma sectors_no_overflow:
  "n * 512 < 2 ^ 64 \<Longrightarrow> unat (word_of_nat n * sectorSize) = n * 512"
  by (simp add: sectorSize_def unat_word_ariths unat_of_nat)

text \<open>C39: the size of a disk is 512 times the number of sectors that sysfs prints, computed
  without overflow below 2^64 bytes; so is the size of a partition.\<close>

theorem diskSizeBytes_sectors:
  assumes "host_file h (PathJoin [SysBlock ps, disk, ''size'']) = Contents (decimal n @ [CHR 0x0A])"
    and "host_file h (PathJoin [SysBlock ps, disk, part, ''size'']) = Contents (decimal k @ [CHR 0x0A])"
    and "n * 512 < 2 ^ 64" and "k * 512 < 2 ^ 64"
  shows "unat (diskSizeBytes h ps disk) = n * 512
    \<and> unat (partitionSizeBytes h ps disk part) = k * 512"
proof -
  from assms(3,4) have "n < 2 ^ 64" and "k < 2 ^ 64" by simp_all
  with assms show ?thesis
    using read_uint_decimal [OF assms(1)] read_uint_decimal [OF assms(2)]
    by (simp add: diskSizeBytes_def partitionSizeBytes_def sectors_no_overflow)
qed

theorem diskSizeBytes_sectors_witness:
  "unat (diskSizeBytes (quiet_host\<lparr>host_file := (\<lambda>p. Contents (decimal 2048 @ [CHR 0x0A]))\<rparr>)
     demo_paths ''sda'') = 2048 * 512
   \<and> unat (partitionSizeBytes (quiet_host\<lparr>host_file := (\<lambda>p. Contents (decimal 2048 @ [CHR 0x0A]))\<rparr>)
     demo_paths ''sda'' ''sda1'') = 2048 * 512"
  by (rule diskSizeBytes_sectors) simp_all

section \<open>Identifiers printed by blkid\<close>

lemma blkid_field_printed:
  assumes "c \<notin> set before" and "c \<notin> set u" and "c \<noteq> CHR 0x22" and "c \<noteq> CHR 0x0A"
    and "no_space u" and "CHR 0x22 \<notin> set u"
  shows "blkid_field (c # sep) (before @ (c # sep) @ CHR 0x22 # u @ [CHR 0x22, CHR 0x0A]) = u"
proof -
  have "no_space (CHR 0x22 # u @ [CHR 0x22])" using assms by simp
  then have "TrimSpace (CHR 0x22 # u @ [CHR 0x22, CHR 0x0A]) = CHR 0x22 # u @ [CHR 0x22]"
    using TrimSpace_newline [of "CHR 0x22 # u @ [CHR 0x22]"] by simp
  moreover have "Split (before @ (c # sep) @ CHR 0x22 # u @ [CHR 0x22, CHR 0x0A]) (c # sep)
      = [before, CHR 0x22 # u @ [CHR 0x22, CHR 0x0A]]"
    using assms Split_free [of c before sep "CHR 0x22 # u @ [CHR 0x22, CHR 0x0A]"]
    by (simp add: Split_absent)
  moreover have "ReplaceAll (CHR 0x22 # u @ [CHR 0x22]) [CHR 0x22] [] = u"
    using assms Split_free [of "CHR 0x22" "[]" "[]" "u @ [CHR 0x22]"]
      Split_free [of "CHR 0x22" u "[]" "[]"]
    by (simp add: ReplaceAll_def Split_absent)
  ultimately show ?thesis by (simp add: blkid_field_def)
qed

text \<open>The identifier that \<open>blkid -s\<close> prints for a device is read back, whichever of the
  UUID tags was asked for, and so is the type of a file system.\<close>

lemma GetDiskUUID_printed:
  assumes "host_exec h [''blkid'', ''-s'', pre @ ''UUID'', full_path part] =
      Inr (full_path part @ '': '' @ pre @ ''UUID='' @ [CHR 0x22] @ u @ [CHR 0x22, CHR 0x0A])"
    and "host_exec h [''blkid'', ''-s'', ''TYPE'', full_path part] =
      Inr (full_path part @ '': TYPE='' @ [CHR 0x22] @ t @ [CHR 0x22, CHR 0x0A])"
    and "no_space u" and "CHR 0x22 \<notin> set u" and "no_space t" and "CHR 0x22 \<notin> set t"
    and "CHR ''U'' \<notin> set (full_path part @ pre @ u)" and "CHR ''T'' \<notin> set (full_path part @ t)"
  shows "GetDiskUUID h part (pre @ ''UUID'') = u \<and> GetFileSystemType h part = t"
proof
  show "GetDiskUUID h part (pre @ ''UUID'') = u"
    using assms blkid_field_printed [of "CHR ''U''" "full_path part @ '': '' @ pre" u "''UID=''"]
    by (simp add: GetDiskUUID_def)
  show "GetFileSystemType h part = t"
    using assms blkid_field_printed [of "CHR ''T''" "full_path part @ '': ''" t "''YPE=''"]
    by (simp add: GetFileSystemType_def)
qed

section \<open>The udev database\<close>

definition udev_key :: "string \<Rightarrow> string \<Rightarrow> bool" where
  "udev_key k line \<longleftrightarrow> HasPrefix line (''E:'' @ k @ ''='')"

lemma udev_line_lookup:
  assumes "CHR ''='' \<notin> set k"
  shows "udev_line m line k = (if udev_key k line then Some (drop (length k + 3) line) else m k)"
proof (cases "HasPrefix line ''E:''")
  case False
  then show ?thesis
    by (auto simp: udev_line_def udev_key_def HasPrefix_iff)
next
  case True
  then obtain t where line: "line = ''E:'' @ t" by (auto simp: HasPrefix_iff)
  show ?thesis
  proof (cases "cut_at t ''=''")
    case None
    then have "\<not> udev_key k line"
      by (auto simp: line udev_key_def HasPrefix_iff cut_at_None_iff)
    with None show ?thesis by (simp add: udev_line_def line numeral_2_eq_2)
  next
    case (Some ab)
    obtain a b where ab: "ab = (a, b)" by (cases ab)
    with Some have t: "t = a @ ''='' @ b" using cut_at_SomeD [of t "''=''" a b] by simp
    have eq: "udev_key k line \<longleftrightarrow> k = a"
    proof
      assume "udev_key k line"
      then obtain c where "t = k @ ''='' @ c" by (auto simp: line udev_key_def HasPrefix_iff)
      with cut_at_free [OF assms, of "[]" c] Some ab show "k = a" by simp
    qed (simp add: line udev_key_def HasPrefix_iff t)
    from Some ab have "udev_line m line = m(a \<mapsto> b)"
      by (simp add: udev_line_def line numeral_2_eq_2)
    with eq show ?thesis by (auto simp: line t eval_nat_numeral)
  qed
qed

definition udev_value :: "string list \<Rightarrow> string \<Rightarrow> string option" where
  "udev_value lines k = map_option (drop (length k + 3)) (find (udev_key k) (rev lines))"

lemma foldl_udev_line:
  "CHR ''='' \<notin> set k \<Longrightarrow>
   foldl udev_line m lines k = (case udev_value lines k of None \<Rightarrow> m k | Some v \<Rightarrow> Some v)"
  by (induction lines rule: rev_induct) (auto simp: udev_value_def udev_line_lookup)

definition first_value :: "string option list \<Rightarrow> string" where
  "first_value vs = (case find (\<lambda>v. v \<noteq> None) vs of Some (Some v) \<Rightarrow> v | _ \<Rightarrow> UNKNOWN)"

lemma find_first_value:
  "(case find (\<lambda>k. f k \<noteq> None) ks of None \<Rightarrow> UNKNOWN | Some k \<Rightarrow> the (f k)) = first_value (map f ks)"
  by (induction ks) (auto simp: first_value_def)

lemma udev_lookup_lines:
  assumes "udevInfo h ps disk = Inr (foldl udev_line Map.empty lines)"
    and "list_all (\<lambda>k. CHR ''='' \<notin> set k) ks"
  shows "udev_lookup h ps disk ks = first_value (map (udev_value lines) ks)"
proof -
  let ?f = "foldl udev_line Map.empty lines"
  have "udev_lookup h ps disk ks = first_value (map ?f ks)"
    using assms(1) find_first_value [of ?f ks] by (simp add: udev_lookup_def)
  also have "map ?f ks = map (udev_value lines) ks"
    using assms(2) by (auto simp: list_all_iff foldl_udev_line split: option.splits)
  finally show ?thesis .
qed

text \<open>In the udev database of a disk the last \<open>E:\<close> line of a key determines its value; the
  serial number is that of \<open>ID_SERIAL_SHORT\<close> when there is one, else that of \<open>ID_SERIAL\<close>, and
  the world wide name that of \<open>ID_WWN_WITH_EXTENSION\<close>, else that of \<open>ID_WWN\<close>.\<close>

lemma udev_attributes:
  assumes "host_file h (PathJoin [SysBlock ps, disk, ''dev'']) = Contents devNo"
    and "host_file h (PathJoin [RunUdevData ps, ''b'' @ TrimSpace devNo]) = Contents db"
    and "lines = Split db [CHR 0x0A]"
  shows "diskSerialNumber h ps disk =
      first_value [udev_value lines ''ID_SERIAL_SHORT'', udev_value lines ''ID_SERIAL'']
    \<and> diskWWN h ps disk =
      first_value [udev_value lines ''ID_WWN_WITH_EXTENSION'', udev_value lines ''ID_WWN'']
    \<and> diskModel h ps disk = first_value [udev_value lines ''ID_MODEL'']
    \<and> diskBusPath h ps disk = first_value [udev_value lines ''ID_PATH'']"
proof -
  have "udevInfo h ps disk = Inr (foldl udev_line Map.empty lines)"
    using assms by (simp add: udevInfo_def ReadFile_def)
  then show ?thesis
    by (simp add: diskSerialNumber_def diskWWN_def diskModel_def diskBusPath_def udev_lookup_lines)
qed

section \<open>The NUMA node\<close>

text \<open>\<open>diskNUMANodeID\<close> never reports the node of a disk whose \<open>numa_node\<close> file can be read: it
  is -1 whatever the file says, and 0 when the file does not exist; the loop over the
  link's parents ends after one step.\<close>

lemma diskNUMANodeID_inverted:
  assumes "host_link h (PathJoin [SysBlock ps, disk]) = Some (''../devices/'' @ rest)"
    and "file = host_file h (PathJoin [SysBlock ps, ''../devices/'' @ rest, ''numa_node''])"
  shows "diskNUMANodeID h ps disk =
    (case file of
       Contents node \<Rightarrow> - 1
     | OpenFails e \<Rightarrow> 0
     | ReadFails part e \<Rightarrow> (case Atoi part of (v, Some err) \<Rightarrow> v | (v, None) \<Rightarrow> - 1))"
proof -
  have "\<not> HasPrefix (Base (''../devices/'' @ rest)) ''../devices/''"
    using Base_not_below [of "''../devices/'' @ rest" "CHR ''.''" "CHR ''.''" "''/devices''"] by simp
  then have "numa_loop h ps (Base (''../devices/'' @ rest)) = - 1"
    by (subst numa_loop.simps) simp
  with assms show ?thesis
    unfolding diskNUMANodeID_def
    by (simp, subst numa_loop.simps)
       (auto simp: ReadFile_def split: file_read.splits option.splits)
qed

section \<open>The scan of the host\<close>

text \<open>A mount table without blank lines, or none: then nothing in the scan panics.\<close>

definition mounts_ok :: "host \<Rightarrow> paths \<Rightarrow> bool" where
  "mounts_ok h ps \<longleftrightarrow> (case open_lines h (ProcMounts ps) of None \<Rightarrow> True | Some ls \<Rightarrow> [] \<notin> set ls)"

definition mount_of :: "host \<Rightarrow> paths \<Rightarrow> string \<Rightarrow> string \<times> string \<times> bool" where
  "mount_of h ps part =
     mount_result (find (\<lambda>e. me_Partition e = full_path part)
       (case open_lines h (ProcMounts ps) of None \<Rightarrow> [] | Some ls \<Rightarrow> mount_table ls))"

lemma partitionInfo_mount_of: "mounts_ok h ps \<Longrightarrow> partitionInfo h ps part = Ret (mount_of h ps part)"
  by (cases "open_lines h (ProcMounts ps)")
     (simp_all add: mounts_ok_def mount_of_def partitionInfo_def mount_scan_no_empty mount_result_def)

definition partition_entry :: "host \<Rightarrow> paths \<Rightarrow> string \<Rightarrow> string \<Rightarrow> Partition" where
  "partition_entry h ps disk fname =
     (let (mp, pt, ro) = mount_of h ps fname
      in \<lparr> part_Disk = Some disk, part_Name = fname, part_Label = [],
           part_SizeBytes = partitionSizeBytes h ps disk fname,
           part_UUID = GetDiskUUID h fname ''PARTUUID'',
           part_FileSystemInfo = \<lparr>fsi_FsType = pt, fsi_IsReadOnly = ro, fsi_MountPoint = mp\<rparr> \<rparr>)"

definition sub_entries :: "host \<Rightarrow> paths \<Rightarrow> string \<Rightarrow> string list" where
  "sub_entries h ps disk =
     (case ReadDir h (PathJoin [SysBlock ps, disk]) of
        None \<Rightarrow> [] | Some files \<Rightarrow> filter (\<lambda>f. HasPrefix f disk) files)"

lemma newPartition_ok:
  "mounts_ok h ps \<Longrightarrow>
   newPartition h ps disk fname = Ret ((partition_entry h ps disk fname)\<lparr>part_Disk := None\<rparr>)"
  by (simp add: newPartition_def partitionInfo_mount_of partition_entry_def split: prod.splits)

lemma map_outcome_Ret: "(\<And>x. f x = Ret (g x)) \<Longrightarrow> map_outcome f xs = Ret (map g xs)"
  by (induction xs) auto

lemma diskPartitions_ok:
  "mounts_ok h ps \<Longrightarrow>
   diskPartitions h ps disk =
     Ret (map (\<lambda>f. (partition_entry h ps disk f)\<lparr>part_Disk := None\<rparr>) (sub_entries h ps disk))"
  by (simp add: diskPartitions_def sub_entries_def newPartition_ok map_outcome_Ret split: option.splits)

lemma partition_entry_simps [simp]:
  "part_Name (partition_entry h ps disk f) = f"
  "part_Disk (partition_entry h ps disk f) = Some disk"
  "part_Label (partition_entry h ps disk f) = []"
  by (simp_all add: partition_entry_def split: prod.splits)

lemma getDisk_ok:
  assumes "mounts_ok h ps"
  shows "\<exists>d. getDisk h ps n = Ret d \<and> disk_Name d = n
    \<and> disk_Partitions d = map (partition_entry h ps n) (sub_entries h ps n)
    \<and> fsi_MountPoint (disk_FileSystemInfo d) = fst (mount_of h ps n)
    \<and> fsi_IsReadOnly (disk_FileSystemInfo d) = snd (snd (mount_of h ps n))
    \<and> fsi_FsType (disk_FileSystemInfo d) =
        (let pt = fst (snd (mount_of h ps n)) in if pt = [] then GetFileSystemType h n else pt)
    \<and> disk_DriveType d = (if diskIsRotational h ps n then fst (diskTypes n) else DRIVE_TYPE_SSD)"
proof -
  have "map (\<lambda>f. (partition_entry h ps n f)\<lparr>part_Disk := Some n\<rparr>) fs
      = map (partition_entry h ps n) fs" for fs
    by (simp add: partition_entry_def split: prod.splits)
  with assms show ?thesis
    by (auto simp: getDisk_def partitionInfo_mount_of diskPartitions_ok comp_def Let_def
        split: prod.splits)
qed

lemma sorted_sub_entries: "sorted (sub_entries h ps n)"
  by (auto simp: sub_entries_def sorted_filter [where f = id, simplified] split: option.splits
      dest: ReadDir_sorted)

text \<open>C28: with a readable mount table, or none, \<open>getDisk\<close> returns for every name: the disk of that
  name, whose partitions are the entries of its sysfs directory that start with the name,
  in sorted order and each pointing back to the disk, with the size, the mount and the
  identifier that the host reports for it. The type of the file system is that of the mount,
  or that which blkid probes when the device is not mounted, and a disk that does not rotate
  is reported as solid state.\<close>

theorem getDisk_scan:
  assumes "mounts_ok h ps"
  shows "\<exists>d. getDisk h ps n = Ret d \<and> disk_Name d = n
    \<and> disk_Partitions d = map (partition_entry h ps n) (sub_entries h ps n)
    \<and> sorted (map part_Name (disk_Partitions d))
    \<and> disk_FileSystemInfo d =
        (let (mp, pt, ro) = mount_of h ps n
         in \<lparr>fsi_FsType = (if pt = [] then GetFileSystemType h n else pt),
             fsi_IsReadOnly = ro, fsi_MountPoint = mp\<rparr>)
    \<and> disk_DriveType d = (if diskIsRotational h ps n then fst (diskTypes n) else DRIVE_TYPE_SSD)"
proof -
  obtain d where "getDisk h ps n = Ret d" and "disk_Name d = n"
    and parts: "disk_Partitions d = map (partition_entry h ps n) (sub_entries h ps n)"
    and "fsi_MountPoint (disk_FileSystemInfo d) = fst (mount_of h ps n)"
    and "fsi_IsReadOnly (disk_FileSystemInfo d) = snd (snd (mount_of h ps n))"
    and "fsi_FsType (disk_FileSystemInfo d) =
        (let pt = fst (snd (mount_of h ps n)) in if pt = [] then GetFileSystemType h n else pt)"
    and "disk_DriveType d = (if diskIsRotational h ps n then fst (diskTypes n) else DRIVE_TYPE_SSD)"
    using getDisk_ok [OF assms] by blast
  moreover have "sorted (map part_Name (disk_Partitions d))"
    using sorted_sub_entries by (simp add: parts comp_def)
  ultimately show ?thesis
    by (cases "mount_of h ps n") (auto simp: Let_def)
qed

theorem getDisk_scan_witness:
  "\<exists>d. getDisk (quiet_host\<lparr>host_dir := (\<lambda>p. Some [''sda2'', ''size'', ''sda1''])\<rparr>) demo_paths ''sda'' = Ret d
    \<and> map part_Name (disk_Partitions d) = [''sda1'', ''sda2'']"
proof -
  let ?h = "quiet_host\<lparr>host_dir := (\<lambda>p. Some [''sda2'', ''size'', ''sda1''])\<rparr>"
  have "mounts_ok ?h demo_paths"
    by (simp add: mounts_ok_def open_lines_def quiet_host_def)
  from getDisk_scan [OF this, of "''sda''"] obtain d
    where "getDisk ?h demo_paths ''sda'' = Ret d"
      and "disk_Partitions d = map (partition_entry ?h demo_paths ''sda'') (sub_entries ?h demo_paths ''sda'')"
    by blast
  moreover have "sub_entries ?h demo_paths ''sda'' = [''sda1'', ''sda2'']"
    by code_simp
  ultimately show ?thesis by simp
qed

lemma getDisk_Name: "getDisk h ps n = Ret d \<Longrightarrow> disk_Name d = n"
  by (auto simp: getDisk_def bind_outcome_Ret_iff Let_def split: prod.splits)

text \<open>C29: the scan of the machine returns one disk per entry of \<open>/sys/block\<close> that is not a loop
  device, in sorted order; a directory that cannot be read gives no disks, not an error.\<close>

theorem disks_scan:
  assumes "mounts_ok h ps"
  shows "\<exists>ds. disks h ps = Ret ds
    \<and> map disk_Name ds =
        (case host_dir h (SysBlock ps) of
           None \<Rightarrow> []
         | Some entries \<Rightarrow> filter (\<lambda>n. \<not> HasPrefix n ''loop'') (sort entries))"
proof (cases "host_dir h (SysBlock ps)")
  case None
  then show ?thesis by (simp add: disks_def ReadDir_def)
next
  case (Some entries)
  let ?ns = "filter (\<lambda>n. \<not> HasPrefix n ''loop'') (sort entries)"
  obtain ds where ds: "map_outcome (getDisk h ps) ?ns = Ret ds"
    using map_outcome_total [of ?ns "getDisk h ps"] getDisk_ok [OF assms] by blast
  have "map disk_Name ds = map id ?ns"
    by (rule map_outcome_map [OF ds]) (simp add: getDisk_Name)
  with ds Some show ?thesis by (simp add: disks_def ReadDir_def)
qed

theorem disks_scan_witness:
  "\<exists>ds. disks (quiet_host\<lparr>host_dir := (\<lambda>p. Some [''sdb'', ''loop0'', ''sda''])\<rparr>) demo_paths = Ret ds
    \<and> map disk_Name ds = [''sda'', ''sdb'']"
proof -
  let ?h = "quiet_host\<lparr>host_dir := (\<lambda>p. Some [''sdb'', ''loop0'', ''sda''])\<rparr>"
  have "mounts_ok ?h demo_paths"
    by (simp add: mounts_ok_def open_lines_def quiet_host_def)
  from disks_scan [OF this] obtain ds where "disks ?h demo_paths = Ret ds"
    and "map disk_Name ds = filter (\<lambda>n. \<not> HasPrefix n ''loop'') (sort [''sdb'', ''loop0'', ''sda''])"
    by auto
  moreover have "filter (\<lambda>n. \<not> HasPrefix n ''loop'') (sort [''sdb'', ''loop0'', ''sda'']) = [''sda'', ''sdb'']"
    by code_simp
  ultimately show ?thesis by simp
qed

end
