(* ===== verification/Builder_Props.thy ===== *)
theory Builder_Props
  imports Builder Block_Props Cache
begin

text \<open>
  The resources that are built for a scanned disk: their names, labels and validity, and
  that the selectors with which the controllers look them up later find exactly them.
\<close>

section \<open>Names\<close>

lemma name_inject [simp]: "GetBlockDeviceName d n = GetBlockDeviceName e n \<longleftrightarrow> d = e"
  by (simp add: GetBlockDeviceName_def)

lemma distinct_names:
  "distinct (map (\<lambda>d. GetBlockDeviceName d n) ds) \<longleftrightarrow> distinct ds"
  by (auto simp: distinct_map inj_on_def)

text \<open>The name of a resource determines the device and the node, as long as device names hold
  no hyphen: two nodes never claim the same resource for such devices.\<close>

lemma GetBlockDeviceName_inject:
  assumes "CHR ''-'' \<notin> set d" and "CHR ''-'' \<notin> set d'"
    and "GetBlockDeviceName d n = GetBlockDeviceName d' n'"
  shows "d = d' \<and> n = n'"
  using assms cut_at_free [of "CHR ''-''" d "[]" n] cut_at_free [of "CHR ''-''" d' "[]" n']
  by (simp add: GetBlockDeviceName_def)

section \<open>The resources of one disk\<close>

lemma valid_disk_block_device: "valid_device (disk_block_device d n ns)"
  by (cases "disk_DriveType d"; cases "disk_StorageController d")
     (simp_all add: valid_device_def valid_details_def disk_block_device_def Let_def)

lemma valid_part_block_device:
  assumes "om_Labels (bd_ObjectMeta parent) = Some ls" and "valid_device parent"
  shows "valid_device (part_block_device parent n part)"
  using assms
  by (simp add: valid_device_def valid_details_def part_block_device_def GetPartitionBlockDevice_def Let_def)

text \<open>C22: for every disk \<open>GetNewBlockDevices\<close> returns, without a panic, the disk's resource and
  then one resource per partition in order: all active, on the node and in the namespace,
  valid for the schema of the resource, and named after their devices; a partition's
  resource is labelled with the disk's resource and refers to the disk's device path, and
  building it leaves the labels of the disk's resource alone.\<close>

theorem GetNewBlockDevices_resources:
  "\<exists>parent parts. GetNewBlockDevices d n ns = Ret (parent # parts)
    \<and> map bd_Name (parent # parts)
        = map (\<lambda>x. GetBlockDeviceName x n) (disk_Name d # map part_Name (disk_Partitions d))
    \<and> map (\<lambda>bd. spec_DevPath (bd_Spec bd)) (parent # parts)
        = map getFullDevPath (disk_Name d # map part_Name (disk_Partitions d))
    \<and> list_all (\<lambda>bd. bd_Namespace bd = ns \<and> spec_NodeName (bd_Spec bd) = n
        \<and> bs_State (bd_Status bd) = BlockDeviceActive \<and> valid_device bd) (parent # parts)
    \<and> om_Labels (bd_ObjectMeta parent) = Some (Mapping.update LabelHostname n Mapping.empty)
    \<and> dd_DeviceType (ds_Details (bd_DeviceStatus parent)) = DeviceTypeDisk
    \<and> ds_Partitioned (bd_DeviceStatus parent) = (parts \<noteq> [])
    \<and> list_all (\<lambda>bd.
        om_Labels (bd_ObjectMeta bd) =
          Some (Mapping.update ParentDeviceLabel (bd_Name parent)
            (Mapping.update LabelHostname n Mapping.empty))
        \<and> ds_ParentDevice (bd_DeviceStatus bd) = spec_DevPath (bd_Spec parent)
        \<and> dd_DeviceType (ds_Details (bd_DeviceStatus bd)) = DeviceTypePart
        \<and> \<not> ds_Partitioned (bd_DeviceStatus bd)) parts"
proof -
  let ?parent = "disk_block_device d n ns"
  let ?parts = "map (part_block_device ?parent n) (disk_Partitions d)"
  have "ds_Partitioned (bd_DeviceStatus ?parent) = (?parts \<noteq> [])"
    and "dd_DeviceType (ds_Details (bd_DeviceStatus ?parent)) = DeviceTypeDisk"
    by (simp_all add: disk_block_device_def Let_def)
  then show ?thesis
    using GetNewBlockDevices_Ret [of d n ns] valid_disk_block_device [of d n ns]
    by (intro exI [of _ ?parent] exI [of _ ?parts] conjI)
       (simp_all add: list_all_iff valid_part_block_device)
qed

section \<open>From the scan to the resources\<close>

text \<open>
  The interface between the scanner and the controllers: a source of disks answers for
  every name once it is ready, under that name, with the partitions it lists.
\<close>

locale disk_source =
  fixes get_disk :: "'h \<Rightarrow> string \<Rightarrow> Disk outcome"
    and ready :: "'h \<Rightarrow> bool"
    and entries :: "'h \<Rightarrow> string \<Rightarrow> string list"
  assumes get_total: "ready h \<Longrightarrow> \<exists>d. get_disk h n = Ret d"
    and get_name: "get_disk h n = Ret d \<Longrightarrow> disk_Name d = n"
    and get_parts: "ready h \<Longrightarrow> get_disk h n = Ret d \<Longrightarrow> map part_Name (disk_Partitions d) = entries h n"
begin

lemma resources:
  assumes "ready h"
  shows "\<exists>bds. bind_outcome (get_disk h n) (\<lambda>d. GetNewBlockDevices d node ns) = Ret bds
    \<and> map bd_Name bds = map (\<lambda>x. GetBlockDeviceName x node) (n # entries h n)"
proof -
  obtain d where d: "get_disk h n = Ret d" using get_total [OF assms] by blast
  then show ?thesis
    using get_name [OF d] get_parts [OF assms d, symmetric] by (simp add: GetNewBlockDevices_Ret)
qed

end

interpretation scan: disk_source "\<lambda>(h, ps). getDisk h ps" "\<lambda>(h, ps). mounts_ok h ps"
  "\<lambda>(h, ps). sub_entries h ps"
proof (unfold_locales, goal_cases)
  case (1 s n)
  then show ?case using getDisk_ok by (cases s) fastforce
next
  case (2 s n d)
  then show ?case by (cases s) (auto dest: getDisk_Name)
next
  case (3 s n d)
  then show ?case using getDisk_ok [of "fst s" "snd s" n] by (cases s) (auto simp: comp_def)
qed

text \<open>Scanning a device and building its resources never panics when the mount table has no
  blank line, and names one resource after the device and one after each of its sysfs
  entries, all different when the entries are.\<close>

lemma scanned_resources:
  assumes "mounts_ok h ps" and "distinct (n # sub_entries h ps n)"
  shows "\<exists>bds. bind_outcome (getDisk h ps n) (\<lambda>d. GetNewBlockDevices d node ns) = Ret bds
    \<and> map bd_Name bds = map (\<lambda>x. GetBlockDeviceName x node) (n # sub_entries h ps n)
    \<and> distinct (map bd_Name bds)"
proof -
  obtain bds where "bind_outcome (getDisk h ps n) (\<lambda>d. GetNewBlockDevices d node ns) = Ret bds"
    and names: "map bd_Name bds = map (\<lambda>x. GetBlockDeviceName x node) (n # sub_entries h ps n)"
    using scan.resources [of "(h, ps)" n node ns] assms(1) by auto
  moreover have "distinct (map bd_Name bds)"
    unfolding names distinct_names by (rule assms(2))
  ultimately show ?thesis by blast
qed

section \<open>Finding the resources again\<close>

text \<open>C20: in a cache that holds the resources of a disk, the selector with which the deletion of
  the disk's resource looks for children finds exactly the partitions' resources, and the
  selector with which the deletion of the node looks finds all of them.\<close>

theorem selectors_find_resources:
  assumes "GetNewBlockDevices d n ns = Ret (parent # parts)"
    and "distinct (disk_Name d # map part_Name (disk_Partitions d))" and "ns_ok ns"
    and "c = fold cache_Add (parent # parts) empty_cache"
  shows "set (BlockDeviceCache_List c ns (SelectorFromSet [(ParentDeviceLabel, bd_Name parent)])) = set parts
    \<and> set (BlockDeviceCache_List c ns (SelectorFromSet [(LabelHostname, n)])) = set (parent # parts)"
proof -
  from assms(1) have eq: "parent = disk_block_device d n ns"
    "parts = map (part_block_device parent n) (disk_Partitions d)"
    by (auto simp: GetNewBlockDevices_Ret)
  have "map bd_Name (parent # parts) =
      map (\<lambda>x. GetBlockDeviceName x n) (disk_Name d # map part_Name (disk_Partitions d))"
    by (simp add: eq)
  then have "distinct (map bd_Name (parent # parts))"
    using assms(2) by (simp only: distinct_names)
  moreover have "\<forall>bd \<in> set (parent # parts). bd_Namespace bd = ns"
    by (simp add: eq)
  ultimately have *: "set (BlockDeviceCache_List c ns sel) =
      {bd \<in> set (parent # parts). selector_Matches sel (om_Labels (bd_ObjectMeta bd))}" for sel
    unfolding assms(4) by (intro informer.list_fold assms(3))
  have labels: "om_Labels (bd_ObjectMeta parent) = Some (Mapping.update LabelHostname n Mapping.empty)"
    "\<And>bd. bd \<in> set parts \<Longrightarrow> om_Labels (bd_ObjectMeta bd) =
      Some (Mapping.update ParentDeviceLabel (bd_Name parent) (Mapping.update LabelHostname n Mapping.empty))"
    by (auto simp: eq)
  let ?child = "SelectorFromSet [(ParentDeviceLabel, bd_Name parent)]"
  let ?node = "SelectorFromSet [(LabelHostname, n)]"
  have keys: "ParentDeviceLabel \<noteq> LabelHostname"
    by (simp add: ParentDeviceLabel_def LabelHostname_def)
  then have "\<not> selector_Matches ?child (om_Labels (bd_ObjectMeta parent))"
    and "selector_Matches ?node (om_Labels (bd_ObjectMeta parent))"
    by (simp_all add: labels lookup_update' Mapping.lookup_empty)
  moreover have "selector_Matches ?child (om_Labels (bd_ObjectMeta bd))"
    and "selector_Matches ?node (om_Labels (bd_ObjectMeta bd))" if "bd \<in> set parts" for bd
    using that keys by (simp_all add: labels lookup_update')
  ultimately show ?thesis unfolding * by auto
qed

definition demo_disk :: Disk where
  "demo_disk =
     \<lparr> disk_Name = ''sda'', disk_SizeBytes = 1024, disk_PhysicalBlockSizeBytes = 512,
       disk_DriveType = DRIVE_TYPE_SSD, disk_IsRemovable = False,
       disk_StorageController = STORAGE_CONTROLLER_SCSI, disk_UUID = [], disk_PtUUID = [],
       disk_BusPath = ''pci-0000:00'',
       disk_FileSystemInfo = \<lparr>fsi_FsType = [], fsi_IsReadOnly = True, fsi_MountPoint = []\<rparr>,
       disk_NUMANodeID = 0, disk_Vendor = ''ATA'', disk_Model = ''M'', disk_SerialNumber = ''S'',
       disk_WWN = ''W'',
       disk_Partitions =
         [\<lparr>part_Disk = Some ''sda'', part_Name = ''sda1'', part_Label = [], part_SizeBytes = 512,
           part_UUID = ''u1'',
           part_FileSystemInfo = \<lparr>fsi_FsType = ''ext4'', fsi_IsReadOnly = False, fsi_MountPoint = ''/data''\<rparr>\<rparr>] \<rparr>"

theorem selectors_find_resources_witness:
  "\<exists>parent part. GetNewBlockDevices demo_disk ''n1'' ''ns'' = Ret [parent, part]
    \<and> set (BlockDeviceCache_List (fold cache_Add [parent, part] empty_cache) ''ns''
        (SelectorFromSet [(ParentDeviceLabel, ''sda-n1'')])) = {part}"
proof -
  let ?parent = "disk_block_device demo_disk ''n1'' ''ns''"
  let ?part = "part_block_device ?parent ''n1'' (hd (disk_Partitions demo_disk))"
  have new: "GetNewBlockDevices demo_disk ''n1'' ''ns'' = Ret [?parent, ?part]"
    using GetNewBlockDevices_Ret [of demo_disk "''n1''" "''ns''"] by (simp add: demo_disk_def)
  have name: "bd_Name ?parent = ''sda-n1''"
    by (simp add: GetBlockDeviceName_def) (simp add: demo_disk_def)
  have "distinct (disk_Name demo_disk # map part_Name (disk_Partitions demo_disk))"
    by (simp add: demo_disk_def)
  moreover have "ns_ok ''ns''" by (simp add: ns_ok_def)
  ultimately have "set (BlockDeviceCache_List (fold cache_Add [?parent, ?part] empty_cache) ''ns''
      (SelectorFromSet [(ParentDeviceLabel, bd_Name ?parent)])) = set [?part]"
    using selectors_find_resources [OF new _ _ refl] by blast
  then show ?thesis unfolding name using new by (intro exI conjI) simp_all
qed

end
