(* ===== verification/Controller_Props.thy ===== *)
theory Controller_Props
  imports Controller Builder_Props
begin

text \<open>
  What the controller of the block devices does to the API server and to the kernel: which
  calls each operation makes, with which objects, and in which order.
\<close>

section \<open>A small environment\<close>

text \<open>
  A machine for the concrete instances: its state says whether \<open>/dev/sda\<close> is mounted on
  \<open>/data\<close>, every call succeeds, and mounting mounts it.
\<close>

definition demo_host :: "bool \<Rightarrow> host" where
  "demo_host m = quiet_host
     \<lparr>host_file := (\<lambda>p. if m \<and> p = ''/proc/self/mounts''
        then Contents (''/dev/sda /data ext4 rw 0 0'' @ [CHR 0x0A]) else OpenFails ''no such file'')\<rparr>"

definition demo_nodes :: "(Node, 'w) rest_client" where
  "demo_nodes =
     \<lparr> rc_Create = (\<lambda>ns n w. ((n, None), w)), rc_Update = (\<lambda>ns n w. ((n, None), w)),
       rc_Delete = (\<lambda>ns n w. (None, w)),
       rc_Get = (\<lambda>ns n w. ((\<lparr>node_TypeMeta = \<lparr>tm_Kind = [], tm_APIVersion = []\<rparr>, node_ObjectMeta = zero_meta,
         node_Spec = zero_node_spec, node_Status = zero_node_status\<rparr>, None), w)),
       rc_List = (\<lambda>ns w. (([], None), w)), rc_Watch = (\<lambda>ns opts w. ((Some 0, None), w)),
       rc_Patch = (\<lambda>ns n pt data subs w. ((\<lparr>node_TypeMeta = \<lparr>tm_Kind = [], tm_APIVersion = []\<rparr>, node_ObjectMeta = zero_meta,
         node_Spec = zero_node_spec, node_Status = zero_node_status\<rparr>, None), w)) \<rparr>"

definition demo_env :: "BlockDevice list \<Rightarrow> bool env" where
  "demo_env bds =
     \<lparr> e_host = demo_host, e_now = (\<lambda>m. 7), e_stamp = (\<lambda>m. ''T1''),
       e_CacheGet = (\<lambda>ns n m. BlockDeviceCache_Get (fold cache_Add bds empty_cache) ns n),
       e_CacheList = (\<lambda>ns sel m. (BlockDeviceCache_List (fold cache_Add bds empty_cache) ns sel, None)),
       e_Create = (\<lambda>ns bd m. ((bd, None), m)), e_Update = (\<lambda>ns bd m. ((bd, None), m)),
       e_UpdateStatus = (\<lambda>ns bd m. ((bd, None), m)), e_Delete = (\<lambda>ns n m. (None, m)),
       e_List = (\<lambda>ns m. ((bds, None), m)), e_Get = (\<lambda>ns n m. ((zero_block_device, Some (StatusError ''NotFound'' ''not found'')), m)),
       e_Watch = (\<lambda>ns opts m. ((Some 0, None), m)), e_Patch = (\<lambda>ns n pt data subs m. ((zero_block_device, None), m)),
       e_Mkdir = (\<lambda>p perm m. (None, m)),
       e_Mount = (\<lambda>dev mp ty fl opt m. (None, True)), e_Sleep = (\<lambda>d m. m), e_Node = demo_nodes \<rparr>"

definition demo_controller :: Controller where
  "demo_controller =
     \<lparr> c_namespace = ''ns'', c_nodeName = ''n1'',
       c_BlockInfo = \<lparr>info_ctx = \<lparr>Chroot = ''/'', PathOverrides = []\<rparr>, info_Disks = [demo_disk]\<rparr> \<rparr>"

definition demo_world :: "bool world" where
  "demo_world = \<lparr>ext = False, calls = []\<rparr>"

definition demo_device :: BlockDevice where
  "demo_device =
     (let bd = disk_block_device demo_disk ''n1'' ''ns''
      in bd\<lparr>bd_Spec := (bd_Spec bd)\<lparr>spec_FileSystem := \<lparr>fi_MountPoint = ''/data/'', fi_ForceFormatted = True\<rparr>\<rparr>\<rparr>)"

lemma demo_answers: "answers (demo_env bds) (\<lambda>c. None)"
  by (simp add: answers_def demo_env_def)

section \<open>Saving a resource\<close>

text \<open>The part of an existing resource that a rescan replaces, and the call that saves a scan.\<close>

definition with_device_status :: "DeviceStatus \<Rightarrow> BlockDevice \<Rightarrow> BlockDevice" where
  "with_device_status s bd = bd\<lparr>bd_Status := (bd_Status bd)\<lparr>bs_DeviceStatus := s\<rparr>\<rparr>"

definition save_call :: "BlockDevice list \<Rightarrow> BlockDevice \<Rightarrow> call" where
  "save_call bdList bd =
     (case find (\<lambda>x. bd_Name x = bd_Name bd) bdList of
        None \<Rightarrow> CallCreate (bd_Namespace bd) bd
      | Some old \<Rightarrow> CallUpdate (bd_Namespace old) (with_device_status (bd_DeviceStatus bd) old))"

lemma with_device_status_frame [simp]:
  "bd_ObjectMeta (with_device_status s bd) = bd_ObjectMeta bd"
  "bd_TypeMeta (with_device_status s bd) = bd_TypeMeta bd"
  "bd_Spec (with_device_status s bd) = bd_Spec bd"
  "bd_DeviceStatus (with_device_status s bd) = s"
  "bs_State (bd_Status (with_device_status s bd)) = bs_State (bd_Status bd)"
  "bs_Conditions (bd_Status (with_device_status s bd)) = bs_Conditions (bd_Status bd)"
  by (simp_all add: with_device_status_def)

lemma SaveBlockDeviceByList_call:
  "calls (snd (SaveBlockDeviceByList env bd bdList w)) = calls w @ [save_call bdList bd]"
  by (auto simp: SaveBlockDeviceByList_def save_call_def with_device_status_def Let_def
      split: option.splits prod.splits dest!: client_calls)

lemma SaveBlockDeviceByList_err:
  "answers env f \<Longrightarrow> fst (SaveBlockDeviceByList env bd bdList w) = f (save_call bdList bd)"
  by (auto simp: SaveBlockDeviceByList_def save_call_def with_device_status_def Let_def
      split: option.splits prod.splits dest: answers_client)

lemma save_loop_success:
  "save_loop env bds bdList w = (None, w') \<Longrightarrow> calls w' = calls w @ map (save_call bdList) bds"
proof (induction bds arbitrary: w)
  case (Cons bd bds)
  then show ?case
    using SaveBlockDeviceByList_call [of env bd bdList w]
    by (auto split: prod.splits option.splits)
qed simp

lemma save_loop_answers:
  assumes "answers env f"
  shows "calls (snd (save_loop env bds bdList w)) = calls w @ upto_failure f (map (save_call bdList) bds)
    \<and> fst (save_loop env bds bdList w) = first_failure f (map (save_call bdList) bds)"
proof (induction bds arbitrary: w)
  case (Cons bd bds)
  then show ?case
    using SaveBlockDeviceByList_call [of env bd bdList w]
      SaveBlockDeviceByList_err [OF assms, of bd bdList w]
    by (auto split: prod.splits option.splits)
qed simp

section \<open>Registering the devices of the node\<close>

definition scanned :: "Controller \<Rightarrow> BlockDevice list" where
  "scanned c =
     concat (map (\<lambda>d. disk_block_device d (c_nodeName c) (c_namespace c)
         # map (part_block_device (disk_block_device d (c_nodeName c) (c_namespace c)) (c_nodeName c))
             (disk_Partitions d))
       (filter (\<lambda>d. \<not> IsLonghornBlockDevice (disk_BusPath d)) (info_Disks (c_BlockInfo c))))"

lemma new_devices_Ret: "new_devices c (info_Disks (c_BlockInfo c)) = Ret (scanned c)"
proof -
  have "new_devices c ds = Ret (concat (map (\<lambda>d. disk_block_device d (c_nodeName c) (c_namespace c)
         # map (part_block_device (disk_block_device d (c_nodeName c) (c_namespace c)) (c_nodeName c))
             (disk_Partitions d)) (filter (\<lambda>d. \<not> IsLonghornBlockDevice (disk_BusPath d)) ds)))" for ds
    by (induction ds) (simp_all add: GetNewBlockDevices_Ret)
  then show ?thesis by (simp add: scanned_def)
qed

lemma scanned_namespace: "bd \<in> set (scanned c) \<Longrightarrow> bd_Namespace bd = c_namespace c"
  by (auto simp: scanned_def)

text \<open>C15: registering the node lists the resources of the namespace once and then saves, in scan
  order, the resource of every disk that is not Longhorn's own and of each of its partitions.
  A listing error is returned with nothing saved; otherwise the saving stops at the first
  call that the server refuses and returns its error. Nothing in it panics.\<close>

theorem RegisterNodeBlockDevices_calls:
  assumes "answers env f" and "e_List env (c_namespace c) (ext w) = ((bdList, err), x)"
  shows "\<exists>w'. RegisterNodeBlockDevices env c w =
      Ret (if err \<noteq> None then err else first_failure f (map (save_call bdList) (scanned c)), w')
    \<and> calls w' = calls w @ CallList (c_namespace c)
        # (if err \<noteq> None then [] else upto_failure f (map (save_call bdList) (scanned c)))"
proof -
  have list: "List env (c_namespace c) w =
      ((bdList, err), \<lparr>ext = x, calls = calls w @ [CallList (c_namespace c)]\<rparr>)"
    by (simp add: List_def after_call_def assms(2))
  show ?thesis
    using save_loop_answers [OF assms(1), of "scanned c" bdList
        "\<lparr>ext = x, calls = calls w @ [CallList (c_namespace c)]\<rparr>"]
    by (cases err) (auto simp: RegisterNodeBlockDevices_def new_devices_Ret list prod_eq_iff
        intro!: exI [of _ "snd (save_loop env (scanned c) bdList
          \<lparr>ext = x, calls = calls w @ [CallList (c_namespace c)]\<rparr>)"])
qed

theorem RegisterNodeBlockDevices_calls_witness:
  "\<exists>w'. RegisterNodeBlockDevices (demo_env [demo_device]) demo_controller demo_world = Ret (None, w')
    \<and> map (\<lambda>c. case c of CallList ns \<Rightarrow> ''list '' @ ns | CallCreate ns bd \<Rightarrow> ''create '' @ bd_Name bd
        | CallUpdate ns bd \<Rightarrow> ''update '' @ bd_Name bd | _ \<Rightarrow> []) (calls w')
      = [''list ns'', ''update sda-n1'', ''create sda1-n1'']"
proof -
  have l: "e_List (demo_env [demo_device]) (c_namespace demo_controller) (ext demo_world)
      = (([demo_device], None), False)"
    by (simp add: demo_env_def demo_world_def)
  have f: "first_failure (\<lambda>c. None) cs = None" for cs by (induction cs) simp_all
  have ns: "c_namespace demo_controller = ''ns''" and none: "calls demo_world = []"
    by (simp_all add: demo_controller_def demo_world_def)
  have "map (\<lambda>c. case c of CallList ns \<Rightarrow> ''list '' @ ns | CallCreate ns bd \<Rightarrow> ''create '' @ bd_Name bd
        | CallUpdate ns bd \<Rightarrow> ''update '' @ bd_Name bd | _ \<Rightarrow> [])
      (CallList ''ns'' # map (save_call [demo_device]) (scanned demo_controller))
    = [''list ns'', ''update sda-n1'', ''create sda1-n1'']"
    by code_simp
  then show ?thesis
    using RegisterNodeBlockDevices_calls [OF demo_answers l]
    by (auto simp: f upto_failure_all ns none)
qed

section \<open>The handler of a changed resource\<close>

text \<open>The guards of the handler: it acts on a live resource whose user asked for a mount point.\<close>

definition wants_mount :: "BlockDevice \<Rightarrow> bool" where
  "wants_mount bd \<longleftrightarrow> om_DeletionTimestamp (bd_ObjectMeta bd) = None \<and> fi_MountPoint (fs_spec bd) \<noteq> []"

text \<open>The file system is where the user wants it and of a supported type.\<close>

definition fs_valid :: "BlockDevice \<Rightarrow> bool" where
  "fs_valid bd \<longleftrightarrow> snd (isValidFileSystem (fs_spec bd) (fs_status bd))"

lemma isValidFileSystem_err:
  "fst (isValidFileSystem fs st) = None \<longleftrightarrow> snd (isValidFileSystem fs st)"
  "fst (isValidFileSystem fs st) \<noteq> Some ErrSkip"
  by (auto simp: isValidFileSystem_def Let_def)

lemma TrimSuffix_slash_not_empty: "1 < length s \<Longrightarrow> TrimSuffix s ''/'' \<noteq> []"
  by (auto simp: TrimSuffix_def)

lemma valid_mount_point:
  assumes "snd (isValidFileSystem fs st)" and "fi_MountPoint fs \<noteq> []"
  shows "fst_MountPoint st \<noteq> []"
  using assms TrimSuffix_slash_not_empty [of "fi_MountPoint fs"]
  by (auto simp: isValidFileSystem_def Let_def split: if_splits)

text \<open>The condition that a device with a given file system should show.\<close>

definition shows_mounted :: "BlockDevice \<Rightarrow> bool" where
  "shows_mounted bd \<longleftrightarrow>
     HasCond DeviceMounted bd
     \<and> GetStatus DeviceMounted bd = (if fs_valid bd then ''True'' else ''False'')
     \<and> GetReason DeviceMounted bd = (if fs_valid bd then [] else ''Error'')"

definition fs_error :: "BlockDevice \<Rightarrow> string" where
  "fs_error bd =
     (case fst (isValidFileSystem (fs_spec bd) (fs_status bd)) of None \<Rightarrow> [] | Some e \<Rightarrow> Error e)"

lemma set_mounted_frame [frame_simps]:
  "bd_TypeMeta (set_mounted now bd) = bd_TypeMeta bd"
  "bd_ObjectMeta (set_mounted now bd) = bd_ObjectMeta bd"
  "bd_Spec (set_mounted now bd) = bd_Spec bd"
  "bd_DeviceStatus (set_mounted now bd) = bd_DeviceStatus bd"
  "bs_State (bd_Status (set_mounted now bd)) = bs_State (bd_Status bd)"
  by (simp_all add: set_mounted_def Let_def frame_simps split: prod.splits option.splits)

lemma mount_failed_frame [frame_simps]:
  "bd_TypeMeta (mount_failed now dev e bd) = bd_TypeMeta bd"
  "bd_ObjectMeta (mount_failed now dev e bd) = bd_ObjectMeta bd"
  "bd_Spec (mount_failed now dev e bd) = bd_Spec bd"
  "bd_DeviceStatus (mount_failed now dev e bd) = bd_DeviceStatus bd"
  "bs_State (bd_Status (mount_failed now dev e bd)) = bs_State (bd_Status bd)"
  by (simp_all add: mount_failed_def frame_simps)

lemma with_fs_status_frame [frame_simps]:
  "bd_TypeMeta (with_fs_status f bd) = bd_TypeMeta bd"
  "bd_ObjectMeta (with_fs_status f bd) = bd_ObjectMeta bd"
  "bd_Spec (with_fs_status f bd) = bd_Spec bd"
  "bs_State (bd_Status (with_fs_status f bd)) = bs_State (bd_Status bd)"
  "bs_Conditions (bd_Status (with_fs_status f bd)) = bs_Conditions (bd_Status bd)"
  "fs_status (with_fs_status f bd) = f"
  "with_fs_status g (with_fs_status f bd) = with_fs_status g bd"
  "(bd_DeviceStatus (with_fs_status f bd))\<lparr>ds_FileSystem := f\<rparr> = (bd_DeviceStatus bd)\<lparr>ds_FileSystem := f\<rparr>"
  by (simp_all add: with_fs_status_def)

lemma set_mounted_eq:
  "set_mounted now bd =
    (if fs_valid bd
     then SetReason DeviceMounted [] (SetMessage DeviceMounted now [] (SetStatus DeviceMounted now ''True''
       (SetStatusBool DeviceMounted now (fst_MountPoint (fs_status bd) \<noteq> []) bd)))
     else SetMessage DeviceMounted now (fs_error bd) (SetReason DeviceMounted ''Error''
       (SetMessage DeviceMounted now (fs_error bd) (SetStatus DeviceMounted now ''False''
         (SetStatusBool DeviceMounted now False bd)))))"
  using isValidFileSystem_err [of "fs_spec bd" "fs_status bd"]
  by (auto simp: set_mounted_def SetError_def fs_valid_def fs_error_def Let_def split: prod.splits option.splits)

lemma set_mounted_shows:
  "shows_mounted (set_mounted now bd)" "GetMessage DeviceMounted (set_mounted now bd) = fs_error bd"
proof -
  have v: "fs_valid (set_mounted now bd) = fs_valid bd"
    by (simp add: fs_valid_def frame_simps)
  have "fs_valid bd \<Longrightarrow> fs_error bd = []"
    using isValidFileSystem_err [of "fs_spec bd" "fs_status bd"] by (simp add: fs_valid_def fs_error_def)
  then show "shows_mounted (set_mounted now bd)" "GetMessage DeviceMounted (set_mounted now bd) = fs_error bd"
    by (simp_all add: shows_mounted_def v)
      (simp_all add: set_mounted_eq wrangler.has_set wrangler.get_status wrangler.get_message wrangler.get_reason)
qed

text \<open>Showing again what is shown already changes nothing.\<close>

lemma set_mounted_idle:
  assumes "shows_mounted bd" and "fs_valid bd" and "GetMessage DeviceMounted bd = []"
    and "fst_MountPoint (fs_status bd) \<noteq> []"
  shows "set_mounted now bd = bd"
proof -
  have "SetStatusBool DeviceMounted now True bd = bd"
    using assms wrangler.set_same(1) [of DeviceMounted bd now]
    by (simp add: shows_mounted_def SetStatusBool_def)
  then show ?thesis
    using assms by (simp add: set_mounted_eq shows_mounted_def wrangler.full_write_same)
qed

lemma mount_failed_shows:
  "HasCond DeviceMounted (mount_failed now dev e bd)"
  "GetStatus DeviceMounted (mount_failed now dev e bd) = ''False''"
  "GetReason DeviceMounted (mount_failed now dev e bd) = ''Error''"
  "GetMessage DeviceMounted (mount_failed now dev e bd) =
     ''failed to mount the device '' @ spec_DevPath (bd_Spec dev) @ '' to path ''
       @ fi_MountPoint (fs_spec dev) @ '', error:'' @ Error e"
  by (simp_all add: mount_failed_def SetError_def wrangler.has_set wrangler.get_status
      wrangler.get_message wrangler.get_reason)

text \<open>The conditions other than \<open>Mounted\<close> stay as they are.\<close>

lemma other_conditions:
  assumes "d \<noteq> DeviceMounted"
  shows "findCond d (conditions (set_mounted now bd)) = findCond d (conditions bd)"
    and "findCond d (conditions (mount_failed now dev e bd)) = findCond d (conditions bd)"
    and "findCond d (conditions (with_fs_status f bd)) = findCond d (conditions bd)"
  using assms
  by (simp_all add: set_mounted_eq mount_failed_def SetError_def SetStatusBool_def SetStatus_def
      SetMessage_def SetReason_def find_write_cond conditions_def [of "with_fs_status f bd"]
      conditions_def [of bd] frame_simps)

abbreviation mount_call :: "string \<Rightarrow> string \<Rightarrow> call" where
  "mount_call dev mp \<equiv> CallMount dev mp ''ext4'' MS_RELATIME ext4MountOptions"

definition mount_attempts :: "string \<Rightarrow> string \<Rightarrow> call list list" where
  "mount_attempts dev mp = [[], [CallMkdir mp ModeDir], [CallMkdir mp ModeDir, mount_call dev mp], [mount_call dev mp]]"

lemma mountDevice_calls:
  assumes "mountDevice env dev mp w = (err, w')"
  shows "\<exists>mnt \<in> set (mount_attempts dev mp). calls w' = calls w @ mnt
    \<and> (err = None \<longrightarrow> last mnt = mount_call dev mp \<and> mnt \<noteq> [])"
  using assms
  by (auto simp: mountDevice_def mount_attempts_def split: file_stat.splits prod.splits option.splits
      dest!: client_calls)

definition format_stamp :: "time \<Rightarrow> BlockDevice \<Rightarrow> BlockDevice" where
  "format_stamp now bd =
     (if fi_ForceFormatted (fs_spec bd) \<and> fst_LastFormattedAt (fs_status bd) = None
      then with_fs_status ((fs_status bd)\<lparr>fst_LastFormattedAt := Some now\<rparr>) bd else bd)"

definition with_mount :: "FileSystemInfo \<Rightarrow> BlockDevice \<Rightarrow> BlockDevice" where
  "with_mount i bd =
     with_fs_status ((fs_status bd)\<lparr>fst_Type := fsi_FsType i, fst_MountPoint := fsi_MountPoint i\<rparr>) bd"

lemma with_mount_frame [frame_simps]:
  "bd_TypeMeta (with_mount i bd) = bd_TypeMeta bd"
  "bd_ObjectMeta (with_mount i bd) = bd_ObjectMeta bd"
  "bd_Spec (with_mount i bd) = bd_Spec bd"
  "bs_State (bd_Status (with_mount i bd)) = bs_State (bd_Status bd)"
  "fs_status (with_mount i bd) =
     (fs_status bd)\<lparr>fst_Type := fsi_FsType i, fst_MountPoint := fsi_MountPoint i\<rparr>"
  "(bd_DeviceStatus (with_mount i bd))\<lparr>ds_FileSystem := f\<rparr> = (bd_DeviceStatus bd)\<lparr>ds_FileSystem := f\<rparr>"
  by (simp_all add: with_mount_def with_fs_status_def)

text \<open>The handler, by cases: idle, valid already, mount failed, mounted.\<close>

lemma OnBlockDeviceChange_idle:
  "\<not> wants_mount device \<Longrightarrow>
   OnBlockDeviceChange env c key (Some device) w = Ret ((Some device, None), w)"
  by (auto simp: OnBlockDeviceChange_def wants_mount_def)

lemma OnBlockDeviceChange_valid:
  "wants_mount device \<Longrightarrow> fs_valid device \<Longrightarrow>
   OnBlockDeviceChange env c key (Some device) w = Ret (finish_change env device device w)"
  by (auto simp: OnBlockDeviceChange_def wants_mount_def fs_valid_def Let_def)

lemma format_stamp_frame [frame_simps]:
  "bd_TypeMeta (format_stamp now bd) = bd_TypeMeta bd"
  "bd_ObjectMeta (format_stamp now bd) = bd_ObjectMeta bd"
  "bd_Spec (format_stamp now bd) = bd_Spec bd"
  "fst_MountPoint (fs_status (format_stamp now bd)) = fst_MountPoint (fs_status bd)"
  "fst_Type (fs_status (format_stamp now bd)) = fst_Type (fs_status bd)"
  "fst_IsReadOnly (fs_status (format_stamp now bd)) = fst_IsReadOnly (fs_status bd)"
  "bs_State (bd_Status (format_stamp now bd)) = bs_State (bd_Status bd)"
  "(bd_DeviceStatus (format_stamp now bd))\<lparr>ds_FileSystem := f\<rparr> = (bd_DeviceStatus bd)\<lparr>ds_FileSystem := f\<rparr>"
  by (simp_all add: format_stamp_def with_fs_status_def)

lemma OnBlockDeviceChange_mount:
  assumes "wants_mount device" and "\<not> fs_valid device"
  shows "OnBlockDeviceChange env c key (Some device) w =
    (case mountDevice env (spec_DevPath (bd_Spec device)) (fi_MountPoint (fs_spec device)) w of
       (Some e, w1) \<Rightarrow>
         (let ((r, uerr), w2) =
                Update env (mount_failed (e_stamp env (ext w1)) device e (format_stamp (e_now env (ext w)) device)) w1
          in Ret ((Some r, uerr), w2))
     | (None, w1) \<Rightarrow>
         bind_outcome (GetDiskByName (host_now env w1) (c_BlockInfo c) (spec_DevPath (bd_Spec device)))
           (\<lambda>disk. Ret (finish_change env device
              (with_mount (disk_FileSystemInfo disk) (format_stamp (e_now env (ext w)) device)) w1)))"
  using assms
  by (auto simp: OnBlockDeviceChange_def wants_mount_def fs_valid_def Let_def format_stamp_def
      with_mount_def with_fs_status_frame split: prod.splits option.splits)

lemma finish_change_calls:
  assumes "finish_change env device d w = (r, w')"
  shows "calls w' = calls w @
    (if set_mounted (e_stamp env (ext w)) d = device then []
     else [CallUpdate (bd_Namespace d) (set_mounted (e_stamp env (ext w)) d)])"
  using assms
  by (auto simp: finish_change_def Let_def frame_simps split: prod.splits option.splits if_splits
      dest!: client_calls)

text \<open>Every object that the handler writes is one of two.\<close>

definition change_written :: "BlockDevice \<Rightarrow> BlockDevice \<Rightarrow> bool" where
  "change_written device obj \<longleftrightarrow>
     (\<exists>t now e. \<not> fs_valid device \<and> obj = mount_failed now device e (format_stamp t device))
     \<or> (\<exists>now. fs_valid device \<and> obj = set_mounted now device)
     \<or> (\<exists>t now i. \<not> fs_valid device \<and> obj = set_mounted now (with_mount i (format_stamp t device)))"

lemma change_written_intros:
  "\<not> fs_valid device \<Longrightarrow> change_written device (mount_failed now device e (format_stamp t device))"
  "fs_valid device \<Longrightarrow> change_written device (set_mounted now device)"
  "\<not> fs_valid device \<Longrightarrow> change_written device (set_mounted now (with_mount i (format_stamp t device)))"
  unfolding change_written_def by blast+

lemma change_calls:
  assumes run: "OnBlockDeviceChange env c key (Some device) w = Ret (r, w')"
  shows "\<exists>mnt upd. calls w' = calls w @ mnt @ upd
    \<and> mnt \<in> set (mount_attempts (spec_DevPath (bd_Spec device)) (fi_MountPoint (fs_spec device)))
    \<and> (mnt \<noteq> [] \<longrightarrow> wants_mount device \<and> \<not> fs_valid device)
    \<and> (upd = [] \<or> (\<exists>obj. upd = [CallUpdate (bd_Namespace device) obj] \<and> wants_mount device
         \<and> change_written device obj))"
proof (cases "wants_mount device")
  case False
  with run show ?thesis by (simp add: OnBlockDeviceChange_idle mount_attempts_def)
next
  case True
  show ?thesis
  proof (cases "fs_valid device")
    case valid: True
    have "finish_change env device device w = (r, w')"
      using run OnBlockDeviceChange_valid [OF True valid, of env c key w] by simp
    from finish_change_calls [OF this] show ?thesis
      using True valid by (auto simp: mount_attempts_def intro: change_written_intros)
  next
    case invalid: False
    let ?d = "format_stamp (e_now env (ext w)) device"
    obtain err w1 where m: "mountDevice env (spec_DevPath (bd_Spec device)) (fi_MountPoint (fs_spec device)) w
        = (err, w1)" by fastforce
    from mountDevice_calls [OF m] obtain mnt where
      mnt: "mnt \<in> set (mount_attempts (spec_DevPath (bd_Spec device)) (fi_MountPoint (fs_spec device)))"
      "calls w1 = calls w @ mnt" by blast
    have upd: "\<exists>upd. calls w' = calls w1 @ upd
      \<and> (upd = [] \<or> (\<exists>obj. upd = [CallUpdate (bd_Namespace device) obj] \<and> change_written device obj))"
    proof (cases err)
      case None
      with run m obtain i where "finish_change env device (with_mount i ?d) w1 = (r, w')"
        by (auto simp: OnBlockDeviceChange_mount [OF True invalid] bind_outcome_Ret_iff)
      from finish_change_calls [OF this] show ?thesis
        using invalid by (auto simp: frame_simps intro: change_written_intros)
    next
      case (Some e)
      with run m show ?thesis using invalid
        by (auto simp: OnBlockDeviceChange_mount [OF True invalid] frame_simps
            split: prod.splits dest!: client_calls intro: change_written_intros)
    qed
    then show ?thesis using mnt True invalid by auto
  qed
qed

lemma fs_valid_cong:
  "fs_spec a = fs_spec b \<Longrightarrow> fst_MountPoint (fs_status a) = fst_MountPoint (fs_status b) \<Longrightarrow>
   fst_Type (fs_status a) = fst_Type (fs_status b) \<Longrightarrow> fs_valid a = fs_valid b"
  by (simp add: fs_valid_def isValidFileSystem_def Let_def)

lemma change_written_shows:
  assumes "change_written device obj"
  shows "shows_mounted obj"
proof -
  have "shows_mounted (mount_failed now device e (format_stamp t device))" if "\<not> fs_valid device" for now e t
  proof -
    have "fs_valid (mount_failed now device e (format_stamp t device)) = fs_valid device"
      by (rule fs_valid_cong) (simp_all add: frame_simps)
    with that show ?thesis by (simp add: shows_mounted_def mount_failed_shows)
  qed
  with assms show ?thesis by (auto simp: change_written_def set_mounted_shows)
qed

lemma change_written_conditions:
  assumes "change_written device obj" and "d \<noteq> DeviceMounted"
  shows "findCond d (conditions obj) = findCond d (conditions device)"
  using assms
  by (auto simp: change_written_def other_conditions with_mount_def format_stamp_def)

lemma change_written_rest:
  assumes "change_written device obj"
  shows "bd_TypeMeta obj = bd_TypeMeta device" "bd_ObjectMeta obj = bd_ObjectMeta device"
    "bd_Spec obj = bd_Spec device" "bs_State (bd_Status obj) = bs_State (bd_Status device)"
    "bd_DeviceStatus obj = (bd_DeviceStatus device)\<lparr>ds_FileSystem := fs_status obj\<rparr>"
    "fst_IsReadOnly (fs_status obj) = fst_IsReadOnly (fs_status device)"
proof -
  have self: "bd_DeviceStatus bd = (bd_DeviceStatus bd)\<lparr>ds_FileSystem := fs_status bd\<rparr>" for bd
    by simp
  have "bd_DeviceStatus (with_mount i (format_stamp t device)) = (bd_DeviceStatus device)
      \<lparr>ds_FileSystem := fs_status (with_mount i (format_stamp t device))\<rparr>"
    "bd_DeviceStatus (format_stamp t device) = (bd_DeviceStatus device)
      \<lparr>ds_FileSystem := fs_status (format_stamp t device)\<rparr>" for i t
    by (subst self, simp only: frame_simps)+
  then show "bd_DeviceStatus obj = (bd_DeviceStatus device)\<lparr>ds_FileSystem := fs_status obj\<rparr>"
    using assms by (auto simp: change_written_def set_mounted_frame mount_failed_frame)
qed (use assms in \<open>auto simp: change_written_def frame_simps\<close>)

lemma change_written_format:
  assumes "change_written device obj"
  shows "fst_LastFormattedAt (fs_status device) \<noteq> None \<or> \<not> fi_ForceFormatted (fs_spec device) \<Longrightarrow>
      fst_LastFormattedAt (fs_status obj) = fst_LastFormattedAt (fs_status device)"
    and "\<not> fs_valid device \<Longrightarrow> fi_ForceFormatted (fs_spec device) \<Longrightarrow>
      fst_LastFormattedAt (fs_status obj) \<noteq> None"
  using assms
  by (auto simp: change_written_def frame_simps format_stamp_def)

lemma change_written_valid:
  assumes "change_written device obj" and "valid_device device"
  shows "valid_device obj \<and> bd_Namespace obj = bd_Namespace device"
proof -
  have "ds_Details (bd_DeviceStatus obj) = ds_Details (bd_DeviceStatus device)"
    by (subst change_written_rest(5) [OF assms(1)]) simp
  then show ?thesis
    using assms(2) change_written_rest(2,4) [OF assms(1)] by (simp add: valid_device_def)
qed

text \<open>The calls of a run of the handler.\<close>

definition new_calls :: "'w world \<Rightarrow> 'w world \<Rightarrow> call list" where
  "new_calls w w' = drop (length (calls w)) (calls w')"

lemma change_update:
  assumes "OnBlockDeviceChange env c key (Some device) w = Ret (r, w')"
    and "CallUpdate ns obj \<in> set (new_calls w w')"
  shows "change_written device obj" "wants_mount device" "ns = bd_Namespace device"
  using change_calls [OF assms(1)] assms(2)
  by (auto simp: new_calls_def mount_attempts_def)

text \<open>C12: a run of the change handler touches the outside in one way only: at most one attempt to
  mount the requested device on the requested directory (made first if it is missing), and
  only when the recorded file system is not valid for the request; then at most one update
  of the same resource. A resource that is being deleted or has no mount point is left alone.\<close>

theorem OnBlockDeviceChange_effects:
  assumes "OnBlockDeviceChange env c key (Some device) w = Ret (r, w')"
  shows "\<exists>mnt upd. calls w' = calls w @ mnt @ upd
    \<and> mnt \<in> set (mount_attempts (spec_DevPath (bd_Spec device)) (fi_MountPoint (fs_spec device)))
    \<and> (upd = [] \<or> (\<exists>obj. upd = [CallUpdate (bd_Namespace device) obj]))
    \<and> (mnt \<noteq> [] \<longrightarrow> \<not> snd (isValidFileSystem (fs_spec device) (fs_status device)))
    \<and> (mnt @ upd \<noteq> [] \<longrightarrow>
        om_DeletionTimestamp (bd_ObjectMeta device) = None \<and> fi_MountPoint (fs_spec device) \<noteq> [])"
proof -
  from change_calls [OF assms] obtain mnt upd where
    "calls w' = calls w @ mnt @ upd"
    "mnt \<in> set (mount_attempts (spec_DevPath (bd_Spec device)) (fi_MountPoint (fs_spec device)))"
    "mnt \<noteq> [] \<longrightarrow> wants_mount device \<and> \<not> fs_valid device"
    "upd = [] \<or> (\<exists>obj. upd = [CallUpdate (bd_Namespace device) obj] \<and> wants_mount device)" by blast
  then show ?thesis
    by (intro exI [of _ mnt] exI [of _ upd]) (auto simp: wants_mount_def fs_valid_def)
qed

text \<open>The run of the handler on the resource of the small machine.\<close>

definition demo_run :: "((BlockDevice option \<times> go_error option) \<times> bool world) outcome" where
  "demo_run = OnBlockDeviceChange (demo_env []) demo_controller ''ns/sda-n1'' (Some demo_device) demo_world"

definition demo_end :: "bool world" where
  "demo_end = (case demo_run of Ret (r, w) \<Rightarrow> w | Panic e \<Rightarrow> demo_world)"

definition demo_written :: BlockDevice where
  "demo_written = (case last (calls demo_end) of CallUpdate ns bd \<Rightarrow> bd | _ \<Rightarrow> demo_device)"

lemma demo_run_Ret:
  "OnBlockDeviceChange (demo_env []) demo_controller ''ns/sda-n1'' (Some demo_device) demo_world =
    Ret ((None, None), demo_end)"
proof -
  have "case demo_run of Ret (r, w) \<Rightarrow> r = (None, None) | Panic e \<Rightarrow> False"
    by code_simp
  then show ?thesis
    by (auto simp: demo_end_def demo_run_def split: outcome.splits)
qed

lemma demo_run_calls:
  "new_calls demo_world demo_end =
    [CallMkdir ''/data/'' ModeDir, mount_call ''/dev/sda'' ''/data/'', CallUpdate ''ns'' demo_written]"
  by code_simp

theorem OnBlockDeviceChange_effects_witness:
  "\<exists>mnt upd. calls demo_end = mnt @ upd \<and> length upd \<le> 1
    \<and> mnt \<in> set (mount_attempts ''/dev/sda'' ''/data/'')"
proof -
  have "spec_DevPath (bd_Spec demo_device) = ''/dev/sda''" "fi_MountPoint (fs_spec demo_device) = ''/data/''"
    by code_simp+
  with OnBlockDeviceChange_effects [OF demo_run_Ret] obtain mnt upd
    where "calls demo_end = calls demo_world @ mnt @ upd"
      and "mnt \<in> set (mount_attempts ''/dev/sda'' ''/data/'')"
      and "upd = [] \<or> (\<exists>obj. upd = [CallUpdate (bd_Namespace demo_device) obj])" by auto
  then show ?thesis
    by (intro exI [of _ mnt] exI [of _ upd]) (auto simp: demo_world_def)
qed

text \<open>C1: whatever happens, the resource that the change handler writes differs from the one it got
  only in the condition \<open>Mounted\<close> and in the recorded file system; its \<open>Mounted\<close> status is True
  exactly when the file system it records is valid for the request, with reason Error
  otherwise; and a formatting time, once recorded, is kept.\<close>

theorem OnBlockDeviceChange_writes:
  assumes "OnBlockDeviceChange env c key (Some device) w = Ret (r, w')"
    and "CallUpdate ns obj \<in> set (new_calls w w')"
  shows "bd_ObjectMeta obj = bd_ObjectMeta device \<and> bd_Spec obj = bd_Spec device
    \<and> bs_State (bd_Status obj) = bs_State (bd_Status device)
    \<and> bd_DeviceStatus obj = (bd_DeviceStatus device)\<lparr>ds_FileSystem := fs_status obj\<rparr>
    \<and> (\<forall>d. d \<noteq> DeviceMounted \<longrightarrow> findCond d (conditions obj) = findCond d (conditions device))
    \<and> GetStatus DeviceMounted obj =
        (if snd (isValidFileSystem (fs_spec obj) (fs_status obj)) then ''True'' else ''False'')
    \<and> GetReason DeviceMounted obj =
        (if snd (isValidFileSystem (fs_spec obj) (fs_status obj)) then [] else ''Error'')
    \<and> (fst_LastFormattedAt (fs_status device) \<noteq> None \<longrightarrow>
        fst_LastFormattedAt (fs_status obj) = fst_LastFormattedAt (fs_status device))"
proof -
  note obj = change_update(1) [OF assms]
  from change_written_shows [OF obj] have "shows_mounted obj" .
  then show ?thesis
    using change_written_rest [OF obj] change_written_conditions [OF obj]
      change_written_format(1) [OF obj]
    by (simp add: shows_mounted_def fs_valid_def)
qed

theorem OnBlockDeviceChange_writes_witness:
  "bd_Spec demo_written = bd_Spec demo_device
    \<and> GetStatus DeviceMounted demo_written = ''True'' \<and> GetReason DeviceMounted demo_written = []"
proof -
  have "CallUpdate ''ns'' demo_written \<in> set (new_calls demo_world demo_end)"
    by (simp add: demo_run_calls)
  moreover have "snd (isValidFileSystem (fs_spec demo_written) (fs_status demo_written))"
    by code_simp
  ultimately show ?thesis
    using OnBlockDeviceChange_writes [OF demo_run_Ret] by simp
qed

lemma change_written_message:
  assumes "change_written device obj" and "fs_valid obj"
  shows "GetMessage DeviceMounted obj = []"
proof -
  have "fs_valid (mount_failed now device e (format_stamp t device)) = fs_valid device" for now e t
    by (rule fs_valid_cong) (simp_all add: frame_simps)
  with assms obtain now bd where obj: "obj = set_mounted now bd" by (auto simp: change_written_def)
  then have "fs_valid bd"
    using assms(2) by (simp add: fs_valid_def frame_simps)
  then show ?thesis
    using isValidFileSystem_err [of "fs_spec bd" "fs_status bd"]
    by (simp add: obj set_mounted_shows fs_error_def fs_valid_def)
qed

lemma same_status_same_conditions:
  assumes "bd_Status a = bd_Status b"
  shows "HasCond d a = HasCond d b" "GetStatus d a = GetStatus d b"
    "GetReason d a = GetReason d b" "GetMessage d a = GetMessage d b"
  using assms by (simp_all add: cond_defs conditions_def)

lemma written_settles:
  assumes "change_written device obj" and "wants_mount device" and "fs_valid obj"
    and "om_DeletionTimestamp (bd_ObjectMeta again) = None"
    and "bd_Spec again = bd_Spec obj" and "bd_Status again = bd_Status obj"
  shows "OnBlockDeviceChange env c key (Some again) w = Ret ((None, None), w)"
proof -
  have valid: "fs_valid again" using assms(3,5,6) by (simp add: fs_valid_def)
  have wants: "wants_mount again"
    using assms(2,4,5) change_written_rest(3) [OF assms(1)] by (simp add: wants_mount_def)
  note same = same_status_same_conditions [OF assms(6)]
  have "shows_mounted again"
    using change_written_shows [OF assms(1)] valid assms(3) by (simp add: same shows_mounted_def)
  moreover have "GetMessage DeviceMounted again = []"
    using change_written_message [OF assms(1,3)] by (simp add: same)
  moreover have "fst_MountPoint (fs_status again) \<noteq> []"
    using valid_mount_point valid wants by (auto simp: fs_valid_def wants_mount_def)
  ultimately have "set_mounted now again = again" for now
    by (intro set_mounted_idle valid)
  then show ?thesis
    by (simp add: OnBlockDeviceChange_valid [OF wants valid] finish_change_def)
qed

text \<open>The handler settles. Once it has written a resource whose file system is valid, the event
  that this very write causes makes no call at all: whatever metadata the server gave the
  written resource, in every environment, the next run returns without touching anything.\<close>

lemma OnBlockDeviceChange_settles:
  assumes "OnBlockDeviceChange env c key (Some device) w = Ret (r, w')"
    and "CallUpdate ns obj \<in> set (new_calls w w')"
    and "snd (isValidFileSystem (fs_spec obj) (fs_status obj))"
    and "om_DeletionTimestamp meta = None"
  shows "OnBlockDeviceChange env2 c2 key2 (Some (obj\<lparr>bd_ObjectMeta := meta\<rparr>)) w2 = Ret ((None, None), w2)"
  using change_update [OF assms(1,2)] assms(3,4)
  by (intro written_settles [of device obj]) (simp_all add: fs_valid_def)

text \<open>C14: when the mount fails, the handler records the failure and returns what the server answers:
  one update, sent after the mount attempt, in which \<open>Mounted\<close> is False for reason Error, the
  message names the device, the directory and the cause, and the recorded file system keeps
  its mount point and type.\<close>

theorem OnBlockDeviceChange_mount_failure:
  assumes "om_DeletionTimestamp (bd_ObjectMeta device) = None" and "fi_MountPoint (fs_spec device) \<noteq> []"
    and "\<not> snd (isValidFileSystem (fs_spec device) (fs_status device))"
    and "mountDevice env (spec_DevPath (bd_Spec device)) (fi_MountPoint (fs_spec device)) w = (Some e, w1)"
  shows "\<exists>obj res uerr w'. OnBlockDeviceChange env c key (Some device) w = Ret ((Some res, uerr), w')
    \<and> Update env obj w1 = ((res, uerr), w')
    \<and> calls w' = calls w1 @ [CallUpdate (bd_Namespace device) obj]
    \<and> GetStatus DeviceMounted obj = ''False'' \<and> GetReason DeviceMounted obj = ''Error''
    \<and> GetMessage DeviceMounted obj = ''failed to mount the device '' @ spec_DevPath (bd_Spec device)
        @ '' to path '' @ fi_MountPoint (fs_spec device) @ '', error:'' @ Error e
    \<and> fst_MountPoint (fs_status obj) = fst_MountPoint (fs_status device)
    \<and> fst_Type (fs_status obj) = fst_Type (fs_status device)"
proof -
  let ?obj = "mount_failed (e_stamp env (ext w1)) device e (format_stamp (e_now env (ext w)) device)"
  obtain res uerr w' where u: "Update env ?obj w1 = ((res, uerr), w')" by (metis prod.exhaust)
  have "wants_mount device" "\<not> fs_valid device"
    using assms by (simp_all add: wants_mount_def fs_valid_def)
  from OnBlockDeviceChange_mount [OF this, of env c key w] show ?thesis
    using u client_calls(2) [OF u]
    by (intro exI [of _ ?obj] exI [of _ res] exI [of _ uerr] exI [of _ w'])
      (simp add: assms(4) frame_simps mount_failed_shows)
qed

theorem OnBlockDeviceChange_mount_failure_witness:
  "\<exists>obj res uerr w'. OnBlockDeviceChange
      ((demo_env [])\<lparr>e_Mount := (\<lambda>dev mp ty fl opt m. (Some ''no such device'', m))\<rparr>)
      demo_controller ''ns/sda-n1'' (Some demo_device) demo_world = Ret ((Some res, uerr), w')
    \<and> last (calls w') = CallUpdate ''ns'' obj
    \<and> GetMessage DeviceMounted obj =
        ''failed to mount the device /dev/sda to path /data/, error:mount: no such device''"
proof -
  let ?env = "(demo_env [])\<lparr>e_Mount := (\<lambda>dev mp ty fl opt m. (Some ''no such device'', m))\<rparr>"
  let ?w1 = "\<lparr>ext = False, calls = [CallMkdir ''/data/'' ModeDir, mount_call ''/dev/sda'' ''/data/'']\<rparr>"
  have dev: "spec_DevPath (bd_Spec demo_device) = ''/dev/sda''" "fi_MountPoint (fs_spec demo_device) = ''/data/''"
    "om_DeletionTimestamp (bd_ObjectMeta demo_device) = None" "bd_Namespace demo_device = ''ns''"
    "\<not> snd (isValidFileSystem (fs_spec demo_device) (fs_status demo_device))"
    by code_simp+
  have "mountDevice ?env (spec_DevPath (bd_Spec demo_device)) (fi_MountPoint (fs_spec demo_device)) demo_world
      = (Some (PlainError ''mount: no such device''), ?w1)"
    by code_simp
  from OnBlockDeviceChange_mount_failure [OF dev(3) _ dev(5) this] dev show ?thesis
    by fastforce
qed

text \<open>The mount point that the user asked for, as the kernel prints it.\<close>

definition wanted_path :: "BlockDevice \<Rightarrow> string" where
  "wanted_path bd =
     (if 1 < length (fi_MountPoint (fs_spec bd)) then TrimSuffix (fi_MountPoint (fs_spec bd)) ''/''
      else fi_MountPoint (fs_spec bd))"

lemma fs_valid_iff:
  "fs_valid bd \<longleftrightarrow> wanted_path bd = fst_MountPoint (fs_status bd) \<and> IsSupportedFileSystem (fst_Type (fs_status bd))"
  by (auto simp: fs_valid_def isValidFileSystem_def wanted_path_def Let_def)

lemma GetDiskByName_mount:
  assumes "mounts_ok h ps" and "ps = linuxpath_New (info_ctx i)"
    and "mount_of h ps (TrimPrefix name ''/dev/'') = (mp, ty, ro)" and "ty \<noteq> []"
  shows "\<exists>d. GetDiskByName h i name = Ret d
    \<and> fsi_MountPoint (disk_FileSystemInfo d) = mp \<and> fsi_FsType (disk_FileSystemInfo d) = ty"
  using getDisk_ok [OF assms(1), of "TrimPrefix name ''/dev/''"] assms
  by (auto simp: GetDiskByName_def)

text \<open>C13: when the mount succeeds and the kernel's mount table then shows the device on the requested
  directory with a supported type, the handler records that mount, reports \<open>Mounted\<close> as True with
  no message, and writes the resource once. If formatting was requested and no time of a
  formatting is recorded, it records the present time as that of the last formatting, although
  it formats nothing: between reading and writing the resource it only mounts.\<close>

theorem OnBlockDeviceChange_mount_success:
  assumes "om_DeletionTimestamp (bd_ObjectMeta device) = None" and "fi_MountPoint (fs_spec device) \<noteq> []"
    and "\<not> snd (isValidFileSystem (fs_spec device) (fs_status device))"
    and "mountDevice env (spec_DevPath (bd_Spec device)) (fi_MountPoint (fs_spec device)) w = (None, w1)"
    and "mounts_ok (host_now env w1) ps" and "ps = linuxpath_New (info_ctx (c_BlockInfo c))"
    and "mount_of (host_now env w1) ps (TrimPrefix (spec_DevPath (bd_Spec device)) ''/dev/'')
      = (wanted_path device, ty, ro)" and "IsSupportedFileSystem ty"
  shows "\<exists>obj res w'. OnBlockDeviceChange env c key (Some device) w = Ret (res, w')
    \<and> calls w' = calls w1 @ [CallUpdate (bd_Namespace device) obj]
    \<and> fst_MountPoint (fs_status obj) = wanted_path device \<and> fst_Type (fs_status obj) = ty
    \<and> fst_LastFormattedAt (fs_status obj) =
        (if fi_ForceFormatted (fs_spec device) \<and> fst_LastFormattedAt (fs_status device) = None
         then Some (e_now env (ext w)) else fst_LastFormattedAt (fs_status device))
    \<and> GetStatus DeviceMounted obj = ''True'' \<and> GetMessage DeviceMounted obj = []"
proof -
  let ?name = "spec_DevPath (bd_Spec device)"
  have wants: "wants_mount device" and invalid: "\<not> fs_valid device"
    using assms by (simp_all add: wants_mount_def fs_valid_def)
  have "ty \<noteq> []" using assms(8) by (auto simp: IsSupportedFileSystem_def)
  from GetDiskByName_mount [OF assms(5,6,7) this] obtain d where
    d: "GetDiskByName (host_now env w1) (c_BlockInfo c) ?name = Ret d"
    "fsi_MountPoint (disk_FileSystemInfo d) = wanted_path device" "fsi_FsType (disk_FileSystemInfo d) = ty"
    by blast
  let ?b = "with_mount (disk_FileSystemInfo d) (format_stamp (e_now env (ext w)) device)"
  let ?obj = "set_mounted (e_stamp env (ext w1)) ?b"
  have valid: "fs_valid ?b" "fs_valid ?obj"
    using assms(8) d by (simp_all add: fs_valid_iff wanted_path_def frame_simps)
  then have changed: "?obj \<noteq> device" using invalid by metis
  obtain res w' where fin: "finish_change env device ?b w1 = (res, w')" by fastforce
  have "OnBlockDeviceChange env c key (Some device) w = Ret (res, w')"
    by (simp add: OnBlockDeviceChange_mount [OF wants invalid] assms(4) d fin)
  moreover have "GetStatus DeviceMounted ?obj = ''True''" "GetMessage DeviceMounted ?obj = []"
    using set_mounted_shows [of "e_stamp env (ext w1)" ?b] valid
      isValidFileSystem_err [of "fs_spec ?b" "fs_status ?b"]
    by (simp_all add: shows_mounted_def fs_error_def fs_valid_def)
  ultimately show ?thesis
    using finish_change_calls [OF fin] changed d
    by (intro exI [of _ ?obj] exI [of _ res] exI [of _ w'])
      (simp add: frame_simps, simp add: format_stamp_def frame_simps)
qed

lemma demo_mounts_ok: "mounts_ok (demo_host m) demo_paths"
proof -
  have "[] \<notin> set (scan_lines (''/dev/sda /data ext4 rw 0 0'' @ [CHR 0x0A]))"
    by code_simp
  then show ?thesis by (simp add: mounts_ok_def open_lines_def demo_host_def quiet_host_def)
qed

lemma demo_controller_paths: "linuxpath_New (info_ctx (c_BlockInfo demo_controller)) = demo_paths"
  by (simp add: demo_controller_def demo_paths_def linuxpath_New_default)

theorem OnBlockDeviceChange_mount_success_witness:
  "\<exists>obj res w'. OnBlockDeviceChange (demo_env []) demo_controller ''ns/sda-n1'' (Some demo_device) demo_world
      = Ret (res, w')
    \<and> last (calls w') = CallUpdate (bd_Namespace demo_device) obj
    \<and> fst_LastFormattedAt (fs_status obj) = Some 7 \<and> GetStatus DeviceMounted obj = ''True''"
proof -
  let ?w1 = "\<lparr>ext = True, calls = [CallMkdir ''/data/'' ModeDir, mount_call ''/dev/sda'' ''/data/'']\<rparr>"
  have dev: "om_DeletionTimestamp (bd_ObjectMeta demo_device) = None" "fi_MountPoint (fs_spec demo_device) \<noteq> []"
    "\<not> snd (isValidFileSystem (fs_spec demo_device) (fs_status demo_device))"
    "fi_ForceFormatted (fs_spec demo_device)" "fst_LastFormattedAt (fs_status demo_device) = None"
    by code_simp+
  have m: "mountDevice (demo_env []) (spec_DevPath (bd_Spec demo_device)) (fi_MountPoint (fs_spec demo_device))
      demo_world = (None, ?w1)"
    by code_simp
  have ok: "mounts_ok (host_now (demo_env []) ?w1) demo_paths"
    using demo_mounts_ok by (simp add: demo_env_def)
  have mo: "mount_of (host_now (demo_env []) ?w1) demo_paths (TrimPrefix (spec_DevPath (bd_Spec demo_device)) ''/dev/'')
      = (wanted_path demo_device, ''ext4'', False)" and ty: "IsSupportedFileSystem ''ext4''"
    by code_simp+
  have now: "e_now (demo_env []) (ext demo_world) = 7" by (simp add: demo_env_def)
  from OnBlockDeviceChange_mount_success [OF dev(1-3) m ok demo_controller_paths [symmetric] mo ty]
  show ?thesis using dev now by fastforce
qed

text \<open>The change handler never panics as long as the mount table has no blank line.\<close>

lemma OnBlockDeviceChange_no_panic:
  assumes "\<And>x. mounts_ok (e_host env x) (linuxpath_New (info_ctx (c_BlockInfo c)))"
  shows "\<exists>r. OnBlockDeviceChange env c key dev w = Ret r"
proof -
  have "\<exists>d. GetDiskByName (e_host env x) (c_BlockInfo c) name = Ret d" for x name
    using getDisk_ok [OF assms] by (fastforce simp: GetDiskByName_def)
  then have total: "\<exists>r. bind_outcome (GetDiskByName (e_host env x) (c_BlockInfo c) name) (\<lambda>d. Ret (f d)) = Ret r"
    for x name and f :: "Disk \<Rightarrow> 'r"
    by (metis bind_outcome_simps(1))
  show ?thesis
  proof (cases dev)
    case None
    then show ?thesis by (simp add: OnBlockDeviceChange_def)
  next
    case (Some device)
    show ?thesis
    proof (cases "wants_mount device \<and> \<not> fs_valid device")
      case True
      then show ?thesis
        by (simp add: Some OnBlockDeviceChange_mount total del: split_paired_Ex split: prod.splits option.splits)
    next
      case False
      then show ?thesis
        using OnBlockDeviceChange_idle [of device env c key w] OnBlockDeviceChange_valid [of device env c key w]
        by (cases "wants_mount device") (auto simp: Some simp del: split_paired_Ex)
    qed
  qed
qed

section \<open>Saving what udev reports\<close>

definition with_spec :: "BlockDeviceSpec \<Rightarrow> BlockDevice \<Rightarrow> BlockDevice" where
  "with_spec sp bd = bd\<lparr>bd_Spec := sp\<rparr>"

lemma with_spec_frame [simp]:
  "bd_ObjectMeta (with_spec sp bd) = bd_ObjectMeta bd"
  "bd_TypeMeta (with_spec sp bd) = bd_TypeMeta bd"
  "bd_Spec (with_spec sp bd) = sp"
  "bd_Status (with_spec sp bd) = bd_Status bd"
  by (simp_all add: with_spec_def)

lemma SaveBlockDevice_calls:
  "calls (snd (SaveBlockDevice env bd bds w)) = calls w @
    (case find (\<lambda>x. bd_Name x = bd_Name bd) bds of
       None \<Rightarrow> [CallCreate (bd_Namespace bd) bd]
     | Some old \<Rightarrow> if old = bd then []
         else [CallUpdate (bd_Namespace old) (with_device_status (bd_DeviceStatus bd) (with_spec (bd_Spec bd) old))])"
  by (auto simp: SaveBlockDevice_def with_device_status_def with_spec_def Let_def
      split: option.splits prod.splits dest!: client_calls)

lemma SaveBlockDevice_err:
  "answers env f \<Longrightarrow> fst (SaveBlockDevice env bd bds w) =
    (case find (\<lambda>x. bd_Name x = bd_Name bd) bds of
       None \<Rightarrow> f (CallCreate (bd_Namespace bd) bd)
     | Some old \<Rightarrow> if old = bd then None
         else f (CallUpdate (bd_Namespace old) (with_device_status (bd_DeviceStatus bd) (with_spec (bd_Spec bd) old))))"
  by (auto simp: SaveBlockDevice_def with_device_status_def with_spec_def Let_def
      split: option.splits prod.splits dest: answers_client)

lemma disk_block_device_fs_spec [simp]:
  "fs_spec (disk_block_device d n ns) =
     \<lparr>fi_MountPoint = fsi_MountPoint (disk_FileSystemInfo d), fi_ForceFormatted = False\<rparr>"
  "om_UID (bd_ObjectMeta (disk_block_device d n ns)) = []"
  by (simp_all add: disk_block_device_def Let_def zero_meta_def)

text \<open>C26: the two ways to save a scanned disk treat the wishes of the user differently. For a resource
  that the server knows already (it has a UID) both send exactly one update, even when the scan found nothing new:
  registration keeps the requested file system, and saving a udev event
  replaces it by what is mounted now and clears the request to format.\<close>

theorem saving_a_known_disk:
  assumes "find (\<lambda>x. bd_Name x = GetBlockDeviceName (disk_Name d) n) bds = Some old"
    and "om_UID (bd_ObjectMeta old) \<noteq> []"
  shows "\<exists>kept lost. calls (snd (SaveBlockDeviceByList env (disk_block_device d n ns) bds w)) =
      calls w @ [CallUpdate (bd_Namespace old) kept]
    \<and> calls (snd (SaveBlockDevice env (disk_block_device d n ns) bds w)) =
      calls w @ [CallUpdate (bd_Namespace old) lost]
    \<and> bd_Spec kept = bd_Spec old
    \<and> fs_spec lost = \<lparr>fi_MountPoint = fsi_MountPoint (disk_FileSystemInfo d), fi_ForceFormatted = False\<rparr>
    \<and> bd_ObjectMeta kept = bd_ObjectMeta old \<and> bd_ObjectMeta lost = bd_ObjectMeta old
    \<and> bd_Status kept = bd_Status lost
    \<and> bs_State (bd_Status lost) = bs_State (bd_Status old)
    \<and> bs_Conditions (bd_Status lost) = bs_Conditions (bd_Status old)
    \<and> bd_DeviceStatus lost = bd_DeviceStatus (disk_block_device d n ns)"
proof -
  let ?bd = "disk_block_device d n ns"
  let ?kept = "with_device_status (bd_DeviceStatus ?bd) old"
  have "old \<noteq> ?bd" using assms(2) by auto
  then show ?thesis
    using SaveBlockDeviceByList_call [of env ?bd bds w] SaveBlockDevice_calls [of env ?bd bds w] assms(1)
    by (intro exI [of _ ?kept] exI [of _ "with_device_status (bd_DeviceStatus ?bd) (with_spec (bd_Spec ?bd) old)"])
      (simp add: save_call_def with_device_status_def)
qed

theorem saving_a_known_disk_witness:
  "\<exists>kept lost. calls (snd (SaveBlockDeviceByList (demo_env []) (disk_block_device demo_disk ''n1'' ''ns'')
        [demo_device\<lparr>bd_ObjectMeta := (bd_ObjectMeta demo_device)\<lparr>om_UID := ''u''\<rparr>\<rparr>] demo_world))
      = [CallUpdate ''ns'' kept]
    \<and> calls (snd (SaveBlockDevice (demo_env []) (disk_block_device demo_disk ''n1'' ''ns'')
        [demo_device\<lparr>bd_ObjectMeta := (bd_ObjectMeta demo_device)\<lparr>om_UID := ''u''\<rparr>\<rparr>] demo_world))
      = [CallUpdate ''ns'' lost]
    \<and> fs_spec kept = \<lparr>fi_MountPoint = ''/data/'', fi_ForceFormatted = True\<rparr>
    \<and> fs_spec lost = \<lparr>fi_MountPoint = [], fi_ForceFormatted = False\<rparr>"
proof -
  let ?old = "demo_device\<lparr>bd_ObjectMeta := (bd_ObjectMeta demo_device)\<lparr>om_UID := ''u''\<rparr>\<rparr>"
  have "find (\<lambda>x. bd_Name x = GetBlockDeviceName (disk_Name demo_disk) ''n1'') [?old] = Some ?old"
    and "om_UID (bd_ObjectMeta ?old) \<noteq> []"
    by code_simp+
  note known = saving_a_known_disk [OF this, of "demo_env []" "''ns''" demo_world]
  have "fs_spec ?old = \<lparr>fi_MountPoint = ''/data/'', fi_ForceFormatted = True\<rparr>" "bd_Namespace ?old = ''ns''"
    "fsi_MountPoint (disk_FileSystemInfo demo_disk) = []" "calls demo_world = []"
    by (simp_all add: demo_device_def demo_disk_def demo_world_def Let_def)
  moreover from known obtain kept lost where
    "calls (snd (SaveBlockDeviceByList (demo_env []) (disk_block_device demo_disk ''n1'' ''ns'') [?old] demo_world))
      = calls demo_world @ [CallUpdate (bd_Namespace ?old) kept]"
    "calls (snd (SaveBlockDevice (demo_env []) (disk_block_device demo_disk ''n1'' ''ns'') [?old] demo_world))
      = calls demo_world @ [CallUpdate (bd_Namespace ?old) lost]"
    "bd_Spec kept = bd_Spec ?old"
    "fs_spec lost = \<lparr>fi_MountPoint = fsi_MountPoint (disk_FileSystemInfo demo_disk), fi_ForceFormatted = False\<rparr>"
    by blast
  ultimately show ?thesis
    by (intro exI [of _ kept] exI [of _ lost]) simp
qed

section \<open>The handler of a deleted resource\<close>

lemma delete_loop_answers:
  assumes "answers env f"
  shows "calls (snd (delete_loop env ns bds w)) =
      calls w @ upto_failure f (map (\<lambda>bd. CallDelete ns (bd_Name bd)) bds)
    \<and> fst (delete_loop env ns bds w) = first_failure f (map (\<lambda>bd. CallDelete ns (bd_Name bd)) bds)"
proof (induction bds arbitrary: w)
  case (Cons bd bds)
  then show ?case
    using Delete_calls [of env ns "bd_Name bd" w] answers_client(3) [OF assms, of ns "bd_Name bd" w]
    by (auto split: prod.splits option.splits)
qed simp

text \<open>C17: when the resource of a disk is deleted, the handler deletes the resources of the namespace
  whose label names it as their parent: all of them and no others, each once, stopping at
  the first error of the server, which it returns together with the resource.\<close>

theorem OnBlockDeviceDelete_children:
  assumes "reads_informer env store" and "cache_ok (store (ext w))" and "ns_ok (c_namespace c)"
    and "answers env f"
  shows "\<exists>children err w'. OnBlockDeviceDelete env c key (Some device) w =
      ((if err = None then None else Some device, err), w')
    \<and> set children = {bd. cache_lookup (store (ext w)) (c_namespace c) (bd_Name bd) = Some bd
        \<and> (\<exists>ls. om_Labels (bd_ObjectMeta bd) = Some ls
             \<and> Mapping.lookup ls ParentDeviceLabel = Some (bd_Name device))}
    \<and> distinct (map bd_Name children)
    \<and> calls w' = calls w @
        upto_failure f (map (\<lambda>bd. CallDelete (c_namespace c) (bd_Name bd)) children)
    \<and> err = first_failure f (map (\<lambda>bd. CallDelete (c_namespace c) (bd_Name bd)) children)"
proof -
  let ?sel = "SelectorFromSet [(ParentDeviceLabel, bd_Name device)]"
  let ?bds = "BlockDeviceCache_List (store (ext w)) (c_namespace c) ?sel"
  have list: "cache_list env (c_namespace c) ?sel w = (?bds, None)"
    using assms(1) by (simp add: reads_informer_def)
  obtain err w' where loop: "delete_loop env (c_namespace c) ?bds w = (err, w')" by fastforce
  have "OnBlockDeviceDelete env c key (Some device) w = ((if err = None then None else Some device, err), w')"
    by (simp add: OnBlockDeviceDelete_def list loop split: option.splits)
  moreover have "set ?bds = {bd. cache_lookup (store (ext w)) (c_namespace c) (bd_Name bd) = Some bd
        \<and> (\<exists>ls. om_Labels (bd_ObjectMeta bd) = Some ls
             \<and> Mapping.lookup ls ParentDeviceLabel = Some (bd_Name device))}"
    using informer.list_mem [OF assms(2,3), of _ ?sel] by auto
  moreover have "distinct (map bd_Name ?bds)"
    by (rule informer.list_distinct [OF assms(2,3)])
  ultimately show ?thesis
    using delete_loop_answers [OF assms(4), of "c_namespace c" ?bds w] loop
    by (intro exI [of _ ?bds] exI [of _ err] exI [of _ w']) simp
qed

theorem OnBlockDeviceDelete_children_witness:
  "\<exists>err w'. OnBlockDeviceDelete
       (demo_env [demo_device, part_block_device demo_device ''n1'' (hd (disk_Partitions demo_disk))])
       demo_controller ''ns/sda-n1'' (Some demo_device) demo_world = ((None, err), w')
    \<and> CallDelete ''ns'' ''sda1-n1'' \<in> set (calls w')"
proof -
  let ?part = "part_block_device demo_device ''n1'' (hd (disk_Partitions demo_disk))"
  let ?bds = "[demo_device, ?part]"
  let ?store = "fold cache_Add ?bds empty_cache"
  have ns: "c_namespace demo_controller = ''ns''" "bd_Namespace demo_device = ''ns''" "bd_Namespace ?part = ''ns''"
    "bd_Name ?part = ''sda1-n1''"
    by code_simp+
  have reads: "reads_informer (demo_env ?bds) (\<lambda>_. ?store)"
    by (simp add: reads_informer_def demo_env_def)
  have ok: "cache_ok ?store"
    by (rule informer.invar_fold [OF informer.invar_empty]) (simp add: ns ns_ok_def)
  have "ns_ok (c_namespace demo_controller)" by (simp add: ns ns_ok_def)
  with OnBlockDeviceDelete_children [OF reads, where w = demo_world and c = demo_controller
      and f = "\<lambda>c. None" and key = "''ns/sda-n1''" and device = demo_device]
  obtain children err w' where run: "OnBlockDeviceDelete (demo_env ?bds) demo_controller ''ns/sda-n1'' (Some demo_device)
      demo_world = ((if err = None then None else Some demo_device, err), w')"
    and set: "set children = {bd. cache_lookup ?store ''ns'' (bd_Name bd) = Some bd
        \<and> (\<exists>ls. om_Labels (bd_ObjectMeta bd) = Some ls
             \<and> Mapping.lookup ls ParentDeviceLabel = Some (bd_Name demo_device))}"
    and calls: "calls w' = calls demo_world @
        upto_failure (\<lambda>c. None) (map (\<lambda>bd. CallDelete ''ns'' (bd_Name bd)) children)"
    and err: "err = first_failure (\<lambda>c. None) (map (\<lambda>bd. CallDelete ''ns'' (bd_Name bd)) children)"
    using ok demo_answers ns by auto
  have none: "first_failure (\<lambda>c. None) cs = None" for cs by (induction cs) simp_all
  have labels: "om_Labels (bd_ObjectMeta demo_device) = Some (Mapping.update LabelHostname ''n1'' Mapping.empty)"
    by (simp add: demo_device_def Let_def)
  have "cache_lookup ?store ''ns'' (bd_Name ?part) = Some ?part"
    by code_simp
  moreover have "\<exists>ls. om_Labels (bd_ObjectMeta ?part) = Some ls
       \<and> Mapping.lookup ls ParentDeviceLabel = Some (bd_Name demo_device)"
    by (simp add: part_block_device_simps(3) [OF labels] lookup_update')
  ultimately have "?part \<in> set children" by (simp add: set)
  then show ?thesis using run calls err ns by (force simp: none upto_failure_all)
qed

end
