(* ===== verification/Node_Controller.thy ===== *)
theory Node_Controller
  imports Controller_Props
begin

text \<open>
  \<open>pkg/controller/node/node.go\<close>: when a node is deleted, the resources of its block devices
  are deleted too. \<open>delete_loop\<close> is shared with the controller of block devices, whose loop
  is the same code.
\<close>

record NodeController =
  nc_namespace :: string
  nc_nodeName :: string
  nc_BlockInfo :: Info

definition OnNodeDelete ::
    "'w env \<Rightarrow> NodeController \<Rightarrow> string \<Rightarrow> Node option \<Rightarrow> 'w world \<Rightarrow>
     (Node option \<times> go_error option) \<times> 'w world" where
  "OnNodeDelete env c key n w =
     (case n of
        None \<Rightarrow> ((None, None), w)
      | Some node \<Rightarrow>
          (case cache_list env (nc_namespace c)
                  (SelectorFromSet [(LabelHostname, om_Name (node_ObjectMeta node))]) w of
             (bds, Some err) \<Rightarrow> ((Some node, Some err), w)
           | (bds, None) \<Rightarrow>
               (case delete_loop env (nc_namespace c) bds w of
                  (Some err, w) \<Rightarrow> ((Some node, Some err), w)
                | (None, w) \<Rightarrow> ((None, None), w))))"

text \<open>
  When a node is deleted, the resources of the namespace that carry its host name are
  deleted, all of them and no others, each once, up to the first error of the server, which
  is returned with the node.
\<close>

lemma OnNodeDelete_devices:
  assumes "reads_informer env store" and "cache_ok (store (ext w))" and "ns_ok (nc_namespace c)"
    and "answers env f"
  shows "\<exists>bds err w'. OnNodeDelete env c key (Some node) w =
      ((if err = None then None else Some node, err), w')
    \<and> set bds = {bd. cache_lookup (store (ext w)) (nc_namespace c) (bd_Name bd) = Some bd
        \<and> (\<exists>ls. om_Labels (bd_ObjectMeta bd) = Some ls
             \<and> Mapping.lookup ls LabelHostname = Some (om_Name (node_ObjectMeta node)))}
    \<and> distinct (map bd_Name bds)
    \<and> calls w' = calls w @ upto_failure f (map (\<lambda>bd. CallDelete (nc_namespace c) (bd_Name bd)) bds)
    \<and> err = first_failure f (map (\<lambda>bd. CallDelete (nc_namespace c) (bd_Name bd)) bds)"
proof -
  let ?sel = "SelectorFromSet [(LabelHostname, om_Name (node_ObjectMeta node))]"
  let ?bds = "BlockDeviceCache_List (store (ext w)) (nc_namespace c) ?sel"
  have list: "cache_list env (nc_namespace c) ?sel w = (?bds, None)"
    using assms(1) by (simp add: reads_informer_def)
  obtain err w' where loop: "delete_loop env (nc_namespace c) ?bds w = (err, w')" by fastforce
  have "OnNodeDelete env c key (Some node) w = ((if err = None then None else Some node, err), w')"
    by (simp add: OnNodeDelete_def list loop split: option.splits)
  moreover have "set ?bds = {bd. cache_lookup (store (ext w)) (nc_namespace c) (bd_Name bd) = Some bd
        \<and> (\<exists>ls. om_Labels (bd_ObjectMeta bd) = Some ls
             \<and> Mapping.lookup ls LabelHostname = Some (om_Name (node_ObjectMeta node)))}"
    using informer.list_mem [OF assms(2,3), of _ ?sel] by auto
  moreover have "distinct (map bd_Name ?bds)"
    by (rule informer.list_distinct [OF assms(2,3)])
  ultimately show ?thesis
    using delete_loop_answers [OF assms(4), of "nc_namespace c" ?bds w] loop
    by (intro exI [of _ ?bds] exI [of _ err] exI [of _ w']) simp
qed

definition demo_node :: Node where
  "demo_node = \<lparr>node_TypeMeta = \<lparr>tm_Kind = ''Node'', tm_APIVersion = ''longhorn.io/v1beta1''\<rparr>,
     node_ObjectMeta = zero_meta\<lparr>om_Namespace := ''ns'', om_Name := ''n1''\<rparr>,
     node_Spec = zero_node_spec, node_Status = zero_node_status\<rparr>"

definition demo_node_controller :: NodeController where
  "demo_node_controller = \<lparr>nc_namespace = ''ns'', nc_nodeName = ''n2'', nc_BlockInfo = c_BlockInfo demo_controller\<rparr>"

end
