(* ===== verification/Udev.thy ===== *)
theory Udev
  imports Controller
begin

text \<open>
  \<open>pkg/udev\<close>: the monitor of udev events (\<open>uevent.go\<close>) and the device that an event describes
  (\<open>device.go\<close>). The handlers retry through recursion without a bound. Removing and updating
  are partial functions into \<open>option\<close>, where \<open>None\<close> means that the handler never returns;
  adding recurses inside a loop and takes a number of nested retries it may make, with
  \<open>None\<close> when they are used up.
\<close>

section \<open>The device of an event\<close>

type_synonym UdevDevice = "(string, string) mapping"

definition UDEV_SYSTEM :: string where
  "UDEV_SYSTEM = ''disk''"

definition UDEV_PARTITION :: string where
  "UDEV_PARTITION = ''partition''"

definition LINK_NAME_INDEX :: nat where
  "LINK_NAME_INDEX = 2"

definition UDEV_ID_PATH :: string where
  "UDEV_ID_PATH = ''ID_PATH''"

definition UDEV_TYPE :: string where
  "UDEV_TYPE = ''ID_TYPE''"

definition UDEV_DEVNAME :: string where
  "UDEV_DEVNAME = ''DEVNAME''"

text \<open>Reading a key that a Go map does not hold yields the empty string.\<close>

definition udev_field :: "UdevDevice \<Rightarrow> string \<Rightarrow> string" where
  "udev_field device k = (case Mapping.lookup device k of None \<Rightarrow> [] | Some v \<Rightarrow> v)"

definition InitUdevDevice :: "(string, string) mapping \<Rightarrow> UdevDevice" where
  "InitUdevDevice udev = udev"

definition IsDisk :: "UdevDevice \<Rightarrow> bool" where
  "IsDisk device \<longleftrightarrow> udev_field device UDEV_TYPE = UDEV_SYSTEM"

definition IsPartition :: "UdevDevice \<Rightarrow> bool" where
  "IsPartition device \<longleftrightarrow> udev_field device UDEV_TYPE = UDEV_PARTITION"

definition GetPath :: "UdevDevice \<Rightarrow> string" where
  "GetPath device = udev_field device UDEV_DEVNAME"

definition GetShortName :: "UdevDevice \<Rightarrow> string" where
  "GetShortName device =
     (let name = udev_field device UDEV_DEVNAME;
          parts = Split name ''/''
      in if length parts < LINK_NAME_INDEX + 1 then [] else parts ! LINK_NAME_INDEX)"

definition GetIDPath :: "UdevDevice \<Rightarrow> string" where
  "GetIDPath device = udev_field device UDEV_ID_PATH"

section \<open>The monitor\<close>

text \<open>\<open>time.Duration\<close> counts nanoseconds in a signed 64-bit integer.\<close>

definition defaultDuration :: "64 word" where
  "defaultDuration = 1"

record Udev =
  u_namespace :: string
  u_nodeName :: string
  u_controller :: Controller

record UEvent =
  ue_Action :: string
  ue_KObj :: string
  ue_Env :: "(string, string) mapping"

definition ADD :: string where
  "ADD = ''add''"

definition REMOVE :: string where
  "REMOVE = ''remove''"

definition ONLINE :: string where
  "ONLINE = ''online''"

definition OFFLINE :: string where
  "OFFLINE = ''offline''"

text \<open>The controller of the monitor leaves its own namespace and node name empty.\<close>

definition NewUdev :: "Info \<Rightarrow> string \<Rightarrow> string \<Rightarrow> Udev" where
  "NewUdev blockInfo optNamespace optNodeName =
     \<lparr> u_namespace = optNamespace, u_nodeName = optNodeName,
       u_controller = \<lparr>c_namespace = [], c_nodeName = [], c_BlockInfo = blockInfo\<rparr> \<rparr>"

definition pause :: "'w env \<Rightarrow> 64 word \<Rightarrow> 'w world \<Rightarrow> 'w world" where
  "pause env duration w = (if defaultDuration <s duration then Sleep env duration w else w)"

section \<open>A device goes online or offline\<close>

text \<open>
  The state and the condition are set on a copy of the cached resource, or through a nil
  pointer when the lookup failed.
\<close>

definition update_copy :: "string \<Rightarrow> string \<Rightarrow> Disk \<Rightarrow> BlockDevice \<Rightarrow> BlockDevice" where
  "update_copy now action disk bd =
     (let bdCopy = bd\<lparr>bd_Status := (bd_Status bd)
            \<lparr>bs_State := (if action = ONLINE then BlockDeviceActive else BlockDeviceInactive)\<rparr>\<rparr>;
          mounted = fsi_MountPoint (disk_FileSystemInfo disk) \<noteq> []
      in SetStatusBool DeviceMounted now mounted bdCopy)"

partial_function (option) UpdateBlockDevice ::
    "'w env \<Rightarrow> Udev \<Rightarrow> UdevDevice \<Rightarrow> 64 word \<Rightarrow> string \<Rightarrow> 'w world \<Rightarrow> 'w world outcome option" where
  "UpdateBlockDevice env u device duration action w0 =
     (let w = pause env duration w0;
          devName = GetShortName device;
          bdName = GetBlockDeviceName devName (u_nodeName u)
      in case GetDiskByName (host_now env w) (c_BlockInfo (u_controller u)) devName of
           Panic e \<Rightarrow> Some (Panic e)
         | Ret disk \<Rightarrow>
             if action \<noteq> ONLINE \<and> action \<noteq> OFFLINE then Some (Ret w)
             else
               (case cache_get env (u_namespace u) bdName w of
                  Inl err \<Rightarrow> Some (Panic ''invalid memory address or nil pointer dereference'')
                | Inr bd \<Rightarrow>
                    let bdCopy = update_copy (e_stamp env (ext w)) action disk bd
                    in if bd_Status bd \<noteq> bd_Status bdCopy then
                         (case UpdateStatus env bdCopy w of
                            ((obj, None), w1) \<Rightarrow> Some (Ret w1)
                          | ((obj, Some err), w1) \<Rightarrow> UpdateBlockDevice env u device (2 * duration) action w1)
                       else Some (Ret w)))"

section \<open>A device is added\<close>

text \<open>
  The loop over the new resources; \<open>retry\<close> is the call of \<open>AddBlockDevice\<close> after a failed
  save. The loop goes on with the next resource when the retry has returned.
\<close>

fun add_loop ::
    "('w world \<Rightarrow> 'w world outcome option) \<Rightarrow> 'w env \<Rightarrow> BlockDevice list \<Rightarrow> BlockDevice list \<Rightarrow>
     'w world \<Rightarrow> 'w world outcome option" where
  "add_loop retry env [] bdList w = Some (Ret w)"
| "add_loop retry env (bd # bds) bdList w =
     (case SaveBlockDevice env bd bdList w of
        (None, w1) \<Rightarrow> add_loop retry env bds bdList w1
      | (Some err, w1) \<Rightarrow>
          (case retry w1 of
             None \<Rightarrow> None
           | Some (Panic e) \<Rightarrow> Some (Panic e)
           | Some (Ret w2) \<Rightarrow> add_loop retry env bds bdList w2))"

primrec AddBlockDevice ::
    "nat \<Rightarrow> 'w env \<Rightarrow> Udev \<Rightarrow> UdevDevice \<Rightarrow> 64 word \<Rightarrow> 'w world \<Rightarrow> 'w world outcome option" where
  "AddBlockDevice 0 env u device duration w0 = None"
| "AddBlockDevice (Suc n) env u device duration w0 =
     (let w = pause env duration w0;
          devName = GetShortName device
      in case bind_outcome (GetDiskByName (host_now env w) (c_BlockInfo (u_controller u)) devName)
                (\<lambda>disk. GetNewBlockDevices disk (u_nodeName u) (u_namespace u)) of
           Panic e \<Rightarrow> Some (Panic e)
         | Ret bds \<Rightarrow>
             (case cache_list env (u_namespace u) Everything w of
                (bdList, None) \<Rightarrow>
                  add_loop (AddBlockDevice n env u device (2 * defaultDuration)) env bds bdList w
              | (bdList, Some err) \<Rightarrow>
                  (case AddBlockDevice n env u device (2 * duration) w of
                     None \<Rightarrow> None
                   | Some (Panic e) \<Rightarrow> Some (Panic e)
                   | Some (Ret w1) \<Rightarrow>
                       add_loop (AddBlockDevice n env u device (2 * defaultDuration)) env bds bdList w1)))"

section \<open>A device is removed\<close>

partial_function (option) RemoveBlockDevice ::
    "'w env \<Rightarrow> Udev \<Rightarrow> UdevDevice \<Rightarrow> 64 word \<Rightarrow> 'w world \<Rightarrow> 'w world option" where
  "RemoveBlockDevice env u device duration w0 =
     (let w = pause env duration w0;
          devName = GetShortName device;
          bdName = GetBlockDeviceName devName (u_nodeName u)
      in case Delete env (u_namespace u) bdName w of
           (err, w1) \<Rightarrow>
             if err \<noteq> None \<and> \<not> IsNotFound err then RemoveBlockDevice env u device (2 * duration) w1
             else Some w1)"

section \<open>Dispatching events\<close>

definition ActionHandler ::
    "nat \<Rightarrow> 'w env \<Rightarrow> Udev \<Rightarrow> UEvent \<Rightarrow> 'w world \<Rightarrow> 'w world outcome option" where
  "ActionHandler n env u uevent w =
     (let udevDevice = InitUdevDevice (ue_Env uevent)
      in if IsLonghornBlockDevice (GetIDPath udevDevice) then Some (Ret w)
         else if IsDisk udevDevice \<or> IsPartition udevDevice then
           (if ue_Action uevent = ADD then AddBlockDevice n env u udevDevice defaultDuration w
            else if ue_Action uevent = REMOVE then
              map_option Ret (RemoveBlockDevice env u udevDevice defaultDuration w)
            else if ue_Action uevent = ONLINE then
              UpdateBlockDevice env u udevDevice defaultDuration (ue_Action uevent) w
            else if ue_Action uevent = OFFLINE then
              UpdateBlockDevice env u udevDevice defaultDuration (ue_Action uevent) w
            else Some (Ret w))
         else Some (Ret w))"

text \<open>
  What the select statement of the monitor receives, one at a time: an event, a parse
  error (logged), or the end of the context. When no input is left the monitor is waiting.
\<close>

datatype input = Uevent UEvent | ParseError string | ContextDone

datatype phase = Waiting | Returned

fun monitor ::
    "nat \<Rightarrow> 'w env \<Rightarrow> Udev \<Rightarrow> input list \<Rightarrow> 'w world \<Rightarrow> (phase \<times> 'w world) outcome option" where
  "monitor n env u [] w = Some (Ret (Waiting, w))"
| "monitor n env u (Uevent e # inputs) w =
     (case ActionHandler n env u e w of
        None \<Rightarrow> None
      | Some (Panic m) \<Rightarrow> Some (Panic m)
      | Some (Ret w1) \<Rightarrow> monitor n env u inputs w1)"
| "monitor n env u (ParseError m # inputs) w = monitor n env u inputs w"
| "monitor n env u (ContextDone # inputs) w = Some (Ret (Returned, w))"

text \<open>
  \<open>Monitor\<close> runs the loop once: the flag is the state of \<open>sync.Once\<close>, set when the loop
  has returned.
\<close>

definition Monitor ::
    "nat \<Rightarrow> 'w env \<Rightarrow> Udev \<Rightarrow> input list \<Rightarrow> bool \<Rightarrow> 'w world \<Rightarrow> (bool \<times> 'w world) outcome option" where
  "Monitor n env u inputs startOnce w =
     (if startOnce then Some (Ret (True, w))
      else case monitor n env u inputs w of
             None \<Rightarrow> None
           | Some (Panic m) \<Rightarrow> Some (Panic m)
           | Some (Ret (p, w1)) \<Rightarrow> Some (Ret (p = Returned, w1)))"

section \<open>Rules matching events\<close>

text \<open>
  \<open>getOptionalMatcher\<close>: the decoder of the rules (\<open>encoding/json\<close>) is the argument \<open>decode\<close>.
  \<open>ioutil.ReadFile\<close> does not return a nil slice without an error. The monitor passes no path.
\<close>

definition getOptionalMatcher ::
    "(string \<Rightarrow> string + 'r) \<Rightarrow> host \<Rightarrow> string option \<Rightarrow> 'r option \<times> go_error option" where
  "getOptionalMatcher decode h filePath =
     (case filePath of
        None \<Rightarrow> (None, None)
      | Some path \<Rightarrow>
          if path = [] then (None, None)
          else
            (case ReadFile h path of
               (stream, Some e) \<Rightarrow> (None, Some (PlainError e))
             | (stream, None) \<Rightarrow>
                 (case decode stream of
                    Inl e \<Rightarrow> (None, Some (PlainError (''wrong rule syntax, err: '' @ e)))
                  | Inr rules \<Rightarrow> (Some rules, None))))"

end
