(* ===== verification/Daemon.thy ===== *)
theory Daemon
  imports Node_Controller Udev
begin

text \<open>
  The program itself: \<open>main.go\<close>, \<open>pkg/option/option.go\<close>, \<open>pkg/version/version.go\<close> and the two
  \<open>Register\<close> functions of the controllers. Finding the cluster, leader election and the
  start of the workers are library code; their results are arguments of \<open>run\<close>.
\<close>

section \<open>Options and version\<close>

record Option =
  opt_KubeConfig :: string
  opt_Namespace :: string
  opt_NodeName :: string
  opt_Threadiness :: int
  opt_Debug :: bool
  opt_Trace :: bool
  opt_LogFormat :: string
  opt_ProfilerAddress :: string

text \<open>
  The options when no flag and no variable is given: \<open>DefaultText\<close> is only printed in the
  help, \<open>Value\<close> is the default.
\<close>

definition default_options :: Option where
  "default_options =
     \<lparr> opt_KubeConfig = [], opt_Namespace = [], opt_NodeName = [], opt_Threadiness = 0,
       opt_Debug = False, opt_Trace = False, opt_LogFormat = ''text'',
       opt_ProfilerAddress = ''0.0.0.0:6060'' \<rparr>"

definition FriendlyVersion :: "string \<Rightarrow> string \<Rightarrow> string" where
  "FriendlyVersion Version GitCommit = Version @ '' ('' @ GitCommit @ '')''"

datatype formatter = StandardFormatter | JSONFormatter | TextFormatter

datatype log_level = InfoLevel | DebugLevel | TraceLevel

text \<open>\<open>logrus\<close> starts at level Info; the second switch overrides the first.\<close>

definition initLogs :: "Option \<Rightarrow> formatter \<times> log_level" where
  "initLogs opt =
     (let f = (if opt_LogFormat opt = ''simple'' then StandardFormatter
               else if opt_LogFormat opt = ''json'' then JSONFormatter
               else TextFormatter);
          l = (if opt_Debug opt then DebugLevel else InfoLevel);
          l = (if opt_Trace opt then TraceLevel else l)
      in (f, l))"

definition initProfiling :: "Option \<Rightarrow> string option" where
  "initProfiling opt = (if opt_ProfilerAddress opt \<noteq> [] then Some (opt_ProfilerAddress opt) else None)"

section \<open>Registering the controllers\<close>

text \<open>The handlers that the shared controllers run, in the order of registration.\<close>

datatype registration =
    BlockDeviceOnChange string Controller
  | BlockDeviceOnRemove string Controller
  | NodeOnRemove string NodeController

definition blockDeviceHandlerName :: string where
  "blockDeviceHandlerName = ''longhorn-block-device-handler''"

definition blockDeviceNodeHandlerName :: string where
  "blockDeviceNodeHandlerName = ''longhorn-ndm-node-handler''"

definition Register_blockdevice ::
    "'w env \<Rightarrow> Info \<Rightarrow> Option \<Rightarrow> 'w world \<Rightarrow> ((registration list \<times> go_error option) \<times> 'w world) outcome" where
  "Register_blockdevice env blockInfo opt w =
     (let controller =
            \<lparr> c_namespace = opt_Namespace opt, c_nodeName = opt_NodeName opt, c_BlockInfo = blockInfo \<rparr>
      in bind_outcome (RegisterNodeBlockDevices env controller w) (\<lambda>(err, w).
           case err of
             Some e \<Rightarrow> Ret (([], Some e), w)
           | None \<Rightarrow>
               Ret (([BlockDeviceOnChange blockDeviceHandlerName controller,
                      BlockDeviceOnRemove blockDeviceHandlerName controller], None), w)))"

definition Register_node :: "Info \<Rightarrow> Option \<Rightarrow> registration list \<times> go_error option" where
  "Register_node blockInfo opt =
     (let c = \<lparr> nc_namespace = opt_Namespace opt, nc_nodeName = opt_NodeName opt, nc_BlockInfo = blockInfo \<rparr>
      in ([NodeOnRemove blockDeviceNodeHandlerName c], None))"

section \<open>Running\<close>

text \<open>
  How far the program gets: \<open>run\<close> returns an error, the process ends in \<open>logrus.Fatalf\<close>, it
  waits for the leader lock, or it serves events with its handlers and its udev monitor.
\<close>

datatype run_result =
    RunError go_error
  | RunFatal string
  | WaitingForLock
  | Serving "registration list" Udev

text \<open>The callback of the leader election.\<close>

definition lead ::
    "'w env \<Rightarrow> Info \<Rightarrow> Option \<Rightarrow> (int \<Rightarrow> string option) \<Rightarrow> 'w world \<Rightarrow> (run_result \<times> 'w world) outcome" where
  "lead env blockInfo opt startAll w =
     bind_outcome (Register_blockdevice env blockInfo opt w) (\<lambda>((bdHandlers, err), w).
       case err of
         Some e \<Rightarrow> Ret (RunFatal (''failed to register block device controller, '' @ Error e), w)
       | None \<Rightarrow>
           (let (nodeHandlers, err) = Register_node blockInfo opt
            in case err of
                 Some e \<Rightarrow> Ret (RunFatal (''failed to register ndm node controller, '' @ Error e), w)
               | None \<Rightarrow>
                   (case startAll (opt_Threadiness opt) of
                      Some e \<Rightarrow> Ret (RunFatal (''error starting, '' @ e), w)
                    | None \<Rightarrow>
                        Ret (Serving (bdHandlers @ nodeHandlers)
                          (NewUdev blockInfo (opt_Namespace opt) (opt_NodeName opt)), w))))"

text \<open>
  \<open>clientConfig\<close> and \<open>factory\<close> are the results of reading the kubeconfig and of building the
  controllers, \<open>leads\<close> says whether this process holds the leader lock, \<open>startAll\<close> is the
  result of starting the workers.
\<close>

definition run ::
    "'w env \<Rightarrow> Option \<Rightarrow> ghw_ctx \<Rightarrow> go_error option \<Rightarrow> go_error option \<Rightarrow> go_error option \<Rightarrow> bool \<Rightarrow>
     (int \<Rightarrow> string option) \<Rightarrow> 'w world \<Rightarrow> (run_result \<times> 'w world) outcome" where
  "run env opt ctx ghwSetup clientConfig factory leads startAll w =
     (if opt_NodeName opt = [] \<or> opt_Namespace opt = []
      then Ret (RunError (PlainError ''either node name or namespace is empty''), w)
      else bind_outcome (New (host_now env w) ctx ghwSetup) (\<lambda>info.
        case info of
          Inl err \<Rightarrow> Ret (RunError err, w)
        | Inr blockInfo \<Rightarrow>
            (case clientConfig of
               Some err \<Rightarrow> Ret (RunError (PlainError (''failed to find kubeconfig: '' @ Error err)), w)
             | None \<Rightarrow>
                 (case factory of
                    Some err \<Rightarrow>
                      Ret (RunError (PlainError (''error building node-disk-manager controllers: '' @ Error err)), w)
                  | None \<Rightarrow>
                      if leads then lead env blockInfo opt startAll w else Ret (WaitingForLock, w)))))"

section \<open>What the program does\<close>

lemma Register_blockdevice_Ret:
  "Register_blockdevice env i opt w = Ret ((hs, err), w') \<longleftrightarrow>
   RegisterNodeBlockDevices env \<lparr>c_namespace = opt_Namespace opt, c_nodeName = opt_NodeName opt, c_BlockInfo = i\<rparr> w
     = Ret (err, w')
   \<and> hs = (if err = None
       then [BlockDeviceOnChange blockDeviceHandlerName
               \<lparr>c_namespace = opt_Namespace opt, c_nodeName = opt_NodeName opt, c_BlockInfo = i\<rparr>,
             BlockDeviceOnRemove blockDeviceHandlerName
               \<lparr>c_namespace = opt_Namespace opt, c_nodeName = opt_NodeName opt, c_BlockInfo = i\<rparr>]
       else [])"
  by (auto simp: Register_blockdevice_def Let_def bind_outcome_Ret_iff split: option.splits prod.splits)

lemma lead_serves:
  assumes "lead env i opt startAll w = Ret (Serving hs u, w')"
  shows "RegisterNodeBlockDevices env
      \<lparr>c_namespace = opt_Namespace opt, c_nodeName = opt_NodeName opt, c_BlockInfo = i\<rparr> w = Ret (None, w')
    \<and> startAll (opt_Threadiness opt) = None \<and> u = NewUdev i (opt_Namespace opt) (opt_NodeName opt) \<and> length hs = 3"
proof -
  from assms obtain bdh err w1 where r: "Register_blockdevice env i opt w = Ret ((bdh, err), w1)"
    unfolding lead_def bind_outcome_Ret_iff by (metis prod.exhaust)
  show ?thesis
  proof (cases err)
    case None
    then show ?thesis
      using assms r by (auto simp: lead_def Register_node_def Let_def Register_blockdevice_Ret split: option.splits)
  next
    case (Some e)
    then show ?thesis using assms r by (simp add: lead_def)
  qed
qed

lemma lead_never_quiet:
  "lead env i opt startAll w = Ret (r, w') \<Longrightarrow> (\<exists>m. r = RunFatal m) \<or> (\<exists>hs u. r = Serving hs u)"
  by (auto simp: lead_def Register_node_def Let_def bind_outcome_Ret_iff split: option.splits)

text \<open>How \<open>run\<close> gets to lead, or stops before.\<close>

lemma run_cases:
  assumes "run env opt ctx ghwSetup clientConfig factory leads startAll w = Ret (r, w')"
  shows "(w' = w \<and> ((\<exists>e. r = RunError e) \<or> \<not> leads \<and> r = WaitingForLock))
    \<or> (\<exists>info. leads \<and> opt_NodeName opt \<noteq> [] \<and> opt_Namespace opt \<noteq> []
        \<and> load (host_now env w) ctx = Ret info \<and> lead env info opt startAll w = Ret (r, w'))"
proof (cases "opt_NodeName opt = [] \<or> opt_Namespace opt = []")
  case False
  then obtain info where new: "New (host_now env w) ctx ghwSetup = Ret info"
    using assms by (auto simp: run_def bind_outcome_Ret_iff)
  show ?thesis
  proof (cases info)
    case (Inr i)
    then have "load (host_now env w) ctx = Ret i"
      using new by (auto simp: New_def bind_outcome_Ret_iff split: option.splits)
    then show ?thesis
      using assms False new Inr by (auto simp: run_def split: option.splits if_splits)
  qed (use assms False new in \<open>auto simp: run_def\<close>)
qed (use assms in \<open>auto simp: run_def\<close>)

text \<open>C31: the program serves only as the leader, after it has scanned the machine and registered
  what it found without an error: every call so far belongs to that registration, three
  handlers are registered, and the monitor of udev events works for the same node and
  namespace, neither of which is empty, on the same scan.\<close>

theorem run_serves:
  assumes "run env opt ctx ghwSetup clientConfig factory leads startAll w = Ret (Serving hs u, w')"
  shows "leads \<and> opt_NodeName opt \<noteq> [] \<and> opt_Namespace opt \<noteq> []
    \<and> u_namespace u = opt_Namespace opt \<and> u_nodeName u = opt_NodeName opt
    \<and> startAll (opt_Threadiness opt) = None \<and> length hs = 3
    \<and> (\<exists>info. load (host_now env w) ctx = Ret info
        \<and> RegisterNodeBlockDevices env
            \<lparr>c_namespace = opt_Namespace opt, c_nodeName = opt_NodeName opt, c_BlockInfo = info\<rparr> w = Ret (None, w')
        \<and> c_BlockInfo (u_controller u) = info)"
  using run_cases [OF assms] by (auto simp: NewUdev_def dest!: lead_serves)

definition demo_options :: Option where
  "demo_options = default_options\<lparr>opt_Namespace := ''ns'', opt_NodeName := ''n1''\<rparr>"

definition demo_start :: "(run_result \<times> bool world) outcome" where
  "demo_start = run (demo_env []) demo_options \<lparr>Chroot = ''/'', PathOverrides = []\<rparr> None None None True (\<lambda>n. None) demo_world"

theorem run_serves_witness:
  "case demo_start of Ret (Serving hs u, w') \<Rightarrow> u_nodeName u = ''n1'' \<and> length hs = 3 | _ \<Rightarrow> False"
proof -
  have "case demo_start of Ret (Serving hs u, w') \<Rightarrow> True | _ \<Rightarrow> False"
    by code_simp
  then obtain hs u w' where eq: "demo_start = Ret (Serving hs u, w')"
    by (auto split: outcome.splits run_result.splits)
  have "u_nodeName u = opt_NodeName demo_options \<and> length hs = 3"
    using run_serves [OF eq [unfolded demo_start_def]] by blast
  then show ?thesis by (simp add: eq demo_options_def)
qed

text \<open>Started with its defaults, the program stops before it touches anything, although the help
  announces a namespace; and whenever it returns an error or waits for the lock, it has made no call.\<close>

lemma run_quiet:
  assumes "run env opt ctx ghwSetup clientConfig factory leads startAll w = Ret (r, w')"
    and "\<And>hs u. r \<noteq> Serving hs u" and "\<And>m. r \<noteq> RunFatal m"
  shows "w' = w \<and> run env (default_options\<lparr>opt_NodeName := n\<rparr>) ctx ghwSetup clientConfig factory leads startAll w
    = Ret (RunError (PlainError ''either node name or namespace is empty''), w)"
proof
  show "w' = w"
    using run_cases [OF assms(1)] assms(2,3) by (blast dest: lead_never_quiet)
qed (simp add: run_def default_options_def)

end
