(* ===== verification/Udev_Props.thy ===== *)
theory Udev_Props
  imports Udev Controller_Props
begin

text \<open>
  What the udev monitor does for an event, when its handlers return, and what makes them
  retry for ever or panic.
\<close>

section \<open>A small environment\<close>

text \<open>
  A server that refuses as many calls as its state counts and then accepts them, and a
  monitor on the node of the small machine.
\<close>

definition flaky :: "nat \<Rightarrow> go_error option" where
  "flaky k = (if k = 0 then None else Some (StatusError ''Timeout'' ''timed out''))"

definition flaky_env :: "BlockDevice list \<Rightarrow> nat env" where
  "flaky_env bds =
     \<lparr> e_host = (\<lambda>k. demo_host False), e_now = (\<lambda>k. 7), e_stamp = (\<lambda>k. ''T1''),
       e_CacheGet = (\<lambda>ns n k. BlockDeviceCache_Get (fold cache_Add bds empty_cache) ns n),
       e_CacheList = (\<lambda>ns sel k. (BlockDeviceCache_List (fold cache_Add bds empty_cache) ns sel, None)),
       e_Create = (\<lambda>ns bd k. ((bd, flaky k), k - 1)), e_Update = (\<lambda>ns bd k. ((bd, flaky k), k - 1)),
       e_UpdateStatus = (\<lambda>ns bd k. ((bd, flaky k), k - 1)), e_Delete = (\<lambda>ns n k. (flaky k, k - 1)),
       e_List = (\<lambda>ns k. ((bds, None), k)), e_Get = (\<lambda>ns n k. ((zero_block_device, flaky k), k - 1)),
       e_Watch = (\<lambda>ns opts k. ((Some 0, flaky k), k)),
       e_Patch = (\<lambda>ns n pt data subs k. ((zero_block_device, flaky k), k - 1)),
       e_Mkdir = (\<lambda>p perm k. (None, k)),
       e_Mount = (\<lambda>dev mp ty fl opt k. (None, k)), e_Sleep = (\<lambda>d k. k), e_Node = demo_nodes \<rparr>"

definition demo_monitor :: Udev where
  "demo_monitor = NewUdev (c_BlockInfo demo_controller) ''ns'' ''n1''"

definition demo_udev_device :: "string \<Rightarrow> UdevDevice" where
  "demo_udev_device path =
     Mapping.update UDEV_DEVNAME path (Mapping.update UDEV_TYPE UDEV_SYSTEM Mapping.empty)"

lemma demo_monitor_names:
  "u_namespace demo_monitor = ''ns''" "u_nodeName demo_monitor = ''n1''"
  "GetShortName (demo_udev_device ''/dev/sda'') = ''sda''"
  "GetBlockDeviceName ''sda'' ''n1'' = ''sda-n1''"
  by code_simp+

lemma demo_monitor_paths: "linuxpath_New (info_ctx (c_BlockInfo (u_controller demo_monitor))) = demo_paths"
  by (simp add: demo_monitor_def NewUdev_def demo_controller_paths)

section \<open>The name of a device\<close>

lemma Split_dev: "Split (''/dev/'' @ s) ''/'' = [] # ''dev'' # Split s ''/''"
  using Split_free [of "CHR ''/''" "[]" "[]" "''dev/'' @ s"]
    Split_free [of "CHR ''/''" "''dev''" "[]" s] by simp

lemma GetShortName_dev:
  assumes "udev_field device UDEV_DEVNAME = ''/dev/'' @ s"
  shows "GetShortName device = hd (Split s ''/'')"
proof -
  obtain x xs where "Split s ''/'' = x # xs" by (cases "Split s ''/''") auto
  moreover have "Split (udev_field device UDEV_DEVNAME) ''/'' = [] # ''dev'' # Split s ''/''"
    unfolding assms by (rule Split_dev)
  ultimately show ?thesis
    by (simp add: GetShortName_def Let_def LINK_NAME_INDEX_def)
qed

text \<open>The short name of a device and its path determine each other for a device directly
  under \<open>/dev\<close>; a device in a subdirectory of \<open>/dev\<close> gets the name of the subdirectory,
  whatever its own name.\<close>

lemma GetShortName_path:
  assumes "udev_field device UDEV_DEVNAME = ''/dev/'' @ n" and "n \<noteq> []" and "CHR ''/'' \<notin> set n"
    and "udev_field device' UDEV_DEVNAME = ''/dev/'' @ n @ ''/'' @ rest"
  shows "GetShortName device = n \<and> getFullDevPath (GetShortName device) = GetPath device
    \<and> GetShortName device' = n"
proof -
  have "Split n ''/'' = [n]" by (rule Split_absent) (rule assms(3))
  moreover have "Split (n @ ''/'' @ rest) ''/'' = n # Split rest ''/''"
    by (rule Split_free) (rule assms(3))
  ultimately have "GetShortName device = n" and "GetShortName device' = n"
    using GetShortName_dev [OF assms(1)] GetShortName_dev [OF assms(4)] by simp_all
  then show ?thesis
    using assms by (simp add: getFullDevPath_def GetPath_def)
qed

section \<open>Removing a device\<close>

abbreviation device_resource :: "Udev \<Rightarrow> UdevDevice \<Rightarrow> string" where
  "device_resource u device \<equiv> GetBlockDeviceName (GetShortName device) (u_nodeName u)"

definition pause_calls :: "64 word \<Rightarrow> call list" where
  "pause_calls duration = (if defaultDuration <s duration then [CallSleep duration] else [])"

lemma pause_calls [call_simps]: "calls (pause env duration w) = calls w @ pause_calls duration"
  by (simp add: pause_def pause_calls_def Sleep_calls)

text \<open>The calls of one attempt and of \<open>k\<close> further ones, each after twice the delay.\<close>

fun remove_calls :: "string \<Rightarrow> string \<Rightarrow> 64 word \<Rightarrow> nat \<Rightarrow> call list" where
  "remove_calls ns name duration 0 = pause_calls duration @ [CallDelete ns name]"
| "remove_calls ns name duration (Suc k) =
     pause_calls duration @ [CallDelete ns name] @ remove_calls ns name (2 * duration) k"

text \<open>
  A server that gets better: each refused deletion leaves fewer refusals to come, and
  nothing else adds any.
\<close>

definition refusals_end :: "'w env \<Rightarrow> ('w \<Rightarrow> nat) \<Rightarrow> bool" where
  "refusals_end env m \<longleftrightarrow>
     (\<forall>ns n x err x'. e_Delete env ns n x = (err, x') \<longrightarrow> err \<noteq> None \<longrightarrow> \<not> IsNotFound err \<longrightarrow> m x' < m x)
     \<and> (\<forall>d x. m (e_Sleep env d x) \<le> m x)"

text \<open>C24: a removal returns as soon as the server stops refusing it, within as many retries as
  there are refusals: it sends the deletion of the device's resource again and again, with a delay that
  doubles from one retry to the next, until the server accepts it or does not know the
  resource, and does nothing else. It writes no state: the comment above the function announces
  that the resource is set to a detached state, but it is deleted.\<close>

theorem RemoveBlockDevice_returns:
  assumes "refusals_end env m"
  shows "\<exists>w' k. RemoveBlockDevice env u device duration w = Some w' \<and> k \<le> m (ext w)
    \<and> calls w' = calls w @ remove_calls (u_namespace u) (device_resource u device) duration k"
proof (induction "m (ext w)" arbitrary: w duration rule: less_induct)
  case less
  let ?w = "pause env duration w"
  obtain err w1 where d: "Delete env (u_namespace u) (device_resource u device) ?w = (err, w1)" by fastforce
  then have c: "calls w1 = calls w @ pause_calls duration @ [CallDelete (u_namespace u) (device_resource u device)]"
    by (simp add: client_calls(4) [OF d] pause_calls)
  have pause: "m (ext ?w) \<le> m (ext w)"
    using assms by (simp add: pause_def Sleep_def refusals_end_def)
  show ?case
  proof (cases "err \<noteq> None \<and> \<not> IsNotFound err")
    case True
    have "e_Delete env (u_namespace u) (device_resource u device) (ext ?w) = (err, ext w1)"
      using d by (auto simp: Delete_def after_call_def prod_eq_iff)
    then have lt: "m (ext w1) < m (ext w)"
      using assms True pause unfolding refusals_end_def by (meson le_trans less_le_trans)
    from less.hyps [OF lt, of "2 * duration"] obtain w' k where
      "RemoveBlockDevice env u device (2 * duration) w1 = Some w'" "k \<le> m (ext w1)"
      "calls w' = calls w1 @ remove_calls (u_namespace u) (device_resource u device) (2 * duration) k"
      by blast
    then show ?thesis
      using True d c lt
      by (intro exI [of _ w'] exI [of _ "Suc k"]) (subst RemoveBlockDevice.simps, simp add: Let_def)
  next
    case False
    then show ?thesis
      using d c by (intro exI [of _ w1] exI [of _ 0]) (subst RemoveBlockDevice.simps, auto simp: Let_def)
  qed
qed

theorem RemoveBlockDevice_returns_witness:
  "\<exists>w' k. RemoveBlockDevice (flaky_env []) demo_monitor (demo_udev_device ''/dev/sda'') 1 \<lparr>ext = 2, calls = []\<rparr> = Some w'
    \<and> k \<le> 2 \<and> calls w' = remove_calls ''ns'' ''sda-n1'' 1 k"
proof -
  have "refusals_end (flaky_env []) (\<lambda>k. k)"
    by (auto simp: refusals_end_def flaky_env_def flaky_def split: if_splits)
  from RemoveBlockDevice_returns [OF this, of demo_monitor "demo_udev_device ''/dev/sda''" 1 "\<lparr>ext = 2, calls = []\<rparr>"]
  show ?thesis by (simp add: demo_monitor_names)
qed

text \<open>A removal that returned had its last deletion accepted, or refused as not found.\<close>

lemma RemoveBlockDevice_accepted:
  assumes "RemoveBlockDevice env u device duration w = Some w'"
  shows "\<exists>x err. e_Delete env (u_namespace u) (device_resource u device) x = (err, ext w')
    \<and> (err = None \<or> IsNotFound err)"
proof (rule RemoveBlockDevice.raw_induct [OF _ assms], goal_cases)
  case (1 rec env u device duration w w')
  let ?w = "pause env duration w"
  obtain err w1 where d: "Delete env (u_namespace u) (device_resource u device) ?w = (err, w1)" by fastforce
  show ?case
  proof (cases "err \<noteq> None \<and> \<not> IsNotFound err")
    case True
    then show ?thesis using 1 d by (simp add: Let_def)
  next
    case False
    moreover have "e_Delete env (u_namespace u) (device_resource u device) (ext ?w) = (err, ext w1)"
      using d by (auto simp: Delete_def after_call_def prod_eq_iff)
    moreover have "w1 = w'" using 1(2) d False by (auto simp: Let_def)
    ultimately show ?thesis by (intro exI [of _ "ext ?w"] exI [of _ err]) auto
  qed
qed

text \<open>A removal that the server keeps refusing for another reason than a missing resource never
  returns, so the monitor never handles another event.\<close>

lemma RemoveBlockDevice_diverges:
  assumes "\<And>x. \<exists>err. fst (e_Delete env (u_namespace u) (device_resource u (ue_Env ev)) x) = Some err
      \<and> \<not> IsNotFound (Some err)"
    and "ue_Action ev = REMOVE" and "IsDisk (ue_Env ev)"
    and "\<not> IsLonghornBlockDevice (GetIDPath (ue_Env ev))"
  shows "RemoveBlockDevice env u (ue_Env ev) duration w = None
    \<and> monitor n env u (Uevent ev # inputs) w = None"
proof -
  have None: "RemoveBlockDevice env u (ue_Env ev) duration w = None" for duration w
  proof (cases "RemoveBlockDevice env u (ue_Env ev) duration w")
    case (Some w')
    from RemoveBlockDevice_accepted [OF this] show ?thesis
      using assms(1) by (metis fst_conv option.distinct(1))
  qed
  moreover have "REMOVE \<noteq> ADD" by (simp add: REMOVE_def ADD_def)
  ultimately show ?thesis
    using assms(2-4) by (simp add: ActionHandler_def InitUdevDevice_def Let_def)
qed

section \<open>A device goes online or offline\<close>

lemma update_copy_frame [frame_simps]:
  "bd_TypeMeta (update_copy now a d bd) = bd_TypeMeta bd"
  "bd_ObjectMeta (update_copy now a d bd) = bd_ObjectMeta bd"
  "bd_Spec (update_copy now a d bd) = bd_Spec bd"
  "bd_DeviceStatus (update_copy now a d bd) = bd_DeviceStatus bd"
  "bs_State (bd_Status (update_copy now a d bd)) =
     (if a = ONLINE then BlockDeviceActive else BlockDeviceInactive)"
  by (simp_all add: update_copy_def Let_def frame_simps)

lemma with_state_conditions:
  "conditions (bd\<lparr>bd_Status := (bd_Status bd)\<lparr>bs_State := s\<rparr>\<rparr>) = conditions bd"
  by (simp add: conditions_def)

lemma update_copy_conditions:
  "GetStatus DeviceMounted (update_copy now a d bd) =
     (if fsi_MountPoint (disk_FileSystemInfo d) \<noteq> [] then ''True'' else ''False'')"
  "c \<noteq> DeviceMounted \<Longrightarrow> findCond c (conditions (update_copy now a d bd)) = findCond c (conditions bd)"
  by (simp_all add: update_copy_def Let_def SetStatusBool_def SetStatus_def GetStatus_def read_cond_def
      find_write_cond with_state_conditions)

lemma GetDiskByName_total:
  assumes "mounts_ok h (linuxpath_New (info_ctx i))"
  shows "\<exists>d. GetDiskByName h i name = Ret d \<and> disk_Name d = TrimPrefix name ''/dev/''
    \<and> fsi_MountPoint (disk_FileSystemInfo d) = fst (mount_of h (linuxpath_New (info_ctx i)) (TrimPrefix name ''/dev/''))"
  using getDisk_ok [OF assms, of "TrimPrefix name ''/dev/''"] by (auto simp: GetDiskByName_def)

lemma pause_default [simp]: "pause env defaultDuration w = w"
  by (simp add: pause_def)

lemma UpdateBlockDevice_step:
  assumes "w = pause env duration w0" and "action \<in> {ONLINE, OFFLINE}"
    and "GetDiskByName (host_now env w) (c_BlockInfo (u_controller u)) (GetShortName device) = Ret d"
    and "cache_get env (u_namespace u) (device_resource u device) w = Inr bd"
    and "obj = update_copy (e_stamp env (ext w)) action d bd"
  shows "UpdateBlockDevice env u device duration action w0 =
    (if bd_Status bd \<noteq> bd_Status obj then
       (case UpdateStatus env obj w of
          ((r, None), w1) \<Rightarrow> Some (Ret w1)
        | ((r, Some err), w1) \<Rightarrow> UpdateBlockDevice env u device (2 * duration) action w1)
     else Some (Ret w))"
  using assms by (subst UpdateBlockDevice.simps) (auto simp: Let_def)

text \<open>C25: an online or offline event of a device whose resource is cached sets the state of that
  resource to Active or Inactive and its \<open>Mounted\<close> condition to whether the kernel has the
  device mounted anywhere, and sends the new status once, or nothing if the status has
  nothing new; specification, metadata, device details and the other conditions stay.\<close>

theorem UpdateBlockDevice_event:
  assumes "mounts_ok (host_now env w) ps" and "ps = linuxpath_New (info_ctx (c_BlockInfo (u_controller u)))"
    and "action \<in> {ONLINE, OFFLINE}"
    and "cache_get env (u_namespace u) (device_resource u device) w = Inr bd"
    and "\<And>ns obj x. snd (fst (e_UpdateStatus env ns obj x)) = None"
  shows "\<exists>w' obj. UpdateBlockDevice env u device defaultDuration action w = Some (Ret w')
    \<and> calls w' = calls w @ (if bd_Status obj = bd_Status bd then [] else [CallUpdateStatus (bd_Namespace bd) obj])
    \<and> bs_State (bd_Status obj) = (if action = ONLINE then BlockDeviceActive else BlockDeviceInactive)
    \<and> GetStatus DeviceMounted obj =
        (if fst (mount_of (host_now env w) ps (TrimPrefix (GetShortName device) ''/dev/'')) \<noteq> []
         then ''True'' else ''False'')
    \<and> bd_Spec obj = bd_Spec bd \<and> bd_ObjectMeta obj = bd_ObjectMeta bd
    \<and> bd_DeviceStatus obj = bd_DeviceStatus bd
    \<and> (\<forall>d. d \<noteq> DeviceMounted \<longrightarrow> findCond d (conditions obj) = findCond d (conditions bd))"
proof -
  obtain d where d: "GetDiskByName (host_now env w) (c_BlockInfo (u_controller u)) (GetShortName device) = Ret d"
    "fsi_MountPoint (disk_FileSystemInfo d) =
      fst (mount_of (host_now env w) ps (TrimPrefix (GetShortName device) ''/dev/''))"
    using GetDiskByName_total assms(1,2) by blast
  let ?obj = "update_copy (e_stamp env (ext w)) action d bd"
  obtain r err w1 where u: "UpdateStatus env ?obj w = ((r, err), w1)" by (metis prod.exhaust)
  then have "err = None"
    using assms(5) by (auto simp: UpdateStatus_def after_call_def) (metis snd_conv)
  then have "\<exists>w'. UpdateBlockDevice env u device defaultDuration action w = Some (Ret w')
      \<and> calls w' = calls w @ (if bd_Status ?obj = bd_Status bd then [] else [CallUpdateStatus (bd_Namespace bd) ?obj])"
    using UpdateBlockDevice_step [OF pause_default [symmetric] assms(3) d(1) assms(4) refl]
      u client_calls(3) [OF u] by (simp add: frame_simps)
  then obtain w' where "UpdateBlockDevice env u device defaultDuration action w = Some (Ret w')"
      "calls w' = calls w @ (if bd_Status ?obj = bd_Status bd then [] else [CallUpdateStatus (bd_Namespace bd) ?obj])"
    by blast
  then show ?thesis
    using d(2)
    by (intro exI [of _ w'] exI [of _ ?obj]) (simp add: frame_simps update_copy_conditions)
qed

theorem UpdateBlockDevice_event_witness:
  "\<exists>w' (obj :: BlockDevice). UpdateBlockDevice (demo_env [demo_device]) demo_monitor (demo_udev_device ''/dev/sda'') defaultDuration
      OFFLINE demo_world = Some (Ret w')
    \<and> bs_State (bd_Status obj) = BlockDeviceInactive \<and> bd_Spec obj = bd_Spec demo_device"
proof -
  have get: "cache_get (demo_env [demo_device]) (u_namespace demo_monitor)
      (device_resource demo_monitor (demo_udev_device ''/dev/sda'')) demo_world = Inr demo_device"
    by code_simp
  have ok: "mounts_ok (host_now (demo_env [demo_device]) demo_world) demo_paths"
    using demo_mounts_ok by (simp add: demo_env_def)
  have accept: "snd (fst (e_UpdateStatus (demo_env [demo_device]) ns obj x)) = None" for ns obj x
    by (simp add: demo_env_def)
  have "OFFLINE \<in> {ONLINE, OFFLINE}" by simp
  from UpdateBlockDevice_event [OF ok demo_monitor_paths [symmetric] this get accept]
  obtain w' and obj :: BlockDevice where "UpdateBlockDevice (demo_env [demo_device]) demo_monitor (demo_udev_device ''/dev/sda'') defaultDuration
      OFFLINE demo_world = Some (Ret w')"
    "bs_State (bd_Status obj) = (if OFFLINE = ONLINE then BlockDeviceActive else BlockDeviceInactive)"
    "bd_Spec obj = bd_Spec demo_device" by blast
  moreover have "OFFLINE \<noteq> ONLINE" by (simp add: ONLINE_def OFFLINE_def)
  ultimately show ?thesis by (intro exI [of _ w'] exI [of _ obj]) simp
qed

text \<open>The same event for a device without a cached resource ends the program: the failed lookup
  is logged and the nil result then written through.\<close>

lemma UpdateBlockDevice_unknown_panics:
  assumes "reads_informer env store" and "mounts_ok (host_now env w) ps"
    and "ps = linuxpath_New (info_ctx (c_BlockInfo (u_controller u)))"
    and "action \<in> {ONLINE, OFFLINE}"
    and "cache_lookup (store (ext w)) (u_namespace u) (device_resource u device) = None"
  shows "UpdateBlockDevice env u device defaultDuration action w =
    Some (Panic ''invalid memory address or nil pointer dereference'')"
proof -
  obtain d where "GetDiskByName (host_now env w) (c_BlockInfo (u_controller u)) (GetShortName device) = Ret d"
    using GetDiskByName_total assms(2,3) by blast
  moreover obtain e where "cache_get env (u_namespace u) (device_resource u device) w = Inl e"
    using assms(1,5) by (auto simp: reads_informer_def cache_lookup_def split: sum.splits)
  ultimately show ?thesis
    using assms(4) by (subst UpdateBlockDevice.simps) (auto simp: Let_def)
qed

text \<open>An update that returned was not refused by the server.\<close>

definition settled_update :: "'w env \<Rightarrow> Udev \<Rightarrow> UdevDevice \<Rightarrow> string \<Rightarrow> bool" where
  "settled_update env u device action \<longleftrightarrow>
     (\<exists>x bd. e_CacheGet env (u_namespace u) (device_resource u device) x = Inr bd
        \<and> bs_State (bd_Status bd) = (if action = ONLINE then BlockDeviceActive else BlockDeviceInactive))
     \<or> (\<exists>ns obj x. snd (fst (e_UpdateStatus env ns obj x)) = None)"

definition panicking_update :: "'w env \<Rightarrow> Udev \<Rightarrow> UdevDevice \<Rightarrow> bool" where
  "panicking_update env u device \<longleftrightarrow>
     (\<exists>x e. GetDiskByName (e_host env x) (c_BlockInfo (u_controller u)) (GetShortName device) = Panic e)
     \<or> (\<exists>x e. e_CacheGet env (u_namespace u) (device_resource u device) x = Inl e)"

lemma UpdateBlockDevice_accepted:
  assumes "UpdateBlockDevice env u device duration action w = Some y"
  shows "action \<in> {ONLINE, OFFLINE} \<longrightarrow> settled_update env u device action \<or> panicking_update env u device"
proof (rule UpdateBlockDevice.raw_induct [OF _ assms], goal_cases)
  case (1 rec env u device duration action w y)
  let ?w = "pause env duration w"
  show ?case
  proof (cases "panicking_update env u device \<or> action \<notin> {ONLINE, OFFLINE}")
    case False
    then obtain d bd where
      d: "GetDiskByName (host_now env ?w) (c_BlockInfo (u_controller u)) (GetShortName device) = Ret d"
      and bd: "cache_get env (u_namespace u) (device_resource u device) ?w = Inr bd"
      unfolding panicking_update_def by (metis outcome.exhaust sum.exhaust)
    let ?obj = "update_copy (e_stamp env (ext ?w)) action d bd"
    obtain r err w1 where u: "UpdateStatus env ?obj ?w = ((r, err), w1)" by (metis prod.exhaust)
    have "settled_update env u device action"
    proof (cases "bd_Status bd = bd_Status ?obj")
      case True
      then have "bs_State (bd_Status bd) = (if action = ONLINE then BlockDeviceActive else BlockDeviceInactive)"
        by (simp add: update_copy_frame)
      then show ?thesis using bd unfolding settled_update_def by blast
    next
      case changed: False
      show ?thesis
      proof (cases err)
        case None
        then have "snd (fst (e_UpdateStatus env (bd_Namespace ?obj) ?obj (ext ?w))) = None"
          using u by (simp add: UpdateStatus_def after_call_def)
        then show ?thesis unfolding settled_update_def by blast
      next
        case (Some e)
        then have "rec env u device (2 * duration) action w1 = Some y"
          using 1(2) d bd changed u False by (auto simp: Let_def)
        from 1(1) [OF this] show ?thesis using False by blast
      qed
    qed
    then show ?thesis by blast
  qed blast
qed

text \<open>C34: an online or offline event whose status update the server always refuses is retried for
  ever when the cached resource shows another state: the handler never returns.\<close>

theorem UpdateBlockDevice_diverges:
  assumes "\<And>x. mounts_ok (e_host env x) (linuxpath_New (info_ctx (c_BlockInfo (u_controller u))))"
    and "action \<in> {ONLINE, OFFLINE}"
    and "\<And>ns obj x. snd (fst (e_UpdateStatus env ns obj x)) \<noteq> None"
    and "\<And>x. e_CacheGet env (u_namespace u) (device_resource u device) x = Inr bd"
    and "bs_State (bd_Status bd) \<noteq> (if action = ONLINE then BlockDeviceActive else BlockDeviceInactive)"
  shows "UpdateBlockDevice env u device duration action w = None"
proof (cases "UpdateBlockDevice env u device duration action w")
  case (Some y)
  have "\<not> settled_update env u device action"
    using assms(3-5) by (simp add: settled_update_def)
  moreover have "\<not> panicking_update env u device"
    using GetDiskByName_total [OF assms(1)] assms(4) unfolding panicking_update_def
    by (metis Inl_Inr_False outcome.distinct(1))
  ultimately show ?thesis
    using UpdateBlockDevice_accepted [OF Some] assms(2) by blast
qed

theorem UpdateBlockDevice_diverges_witness:
  "UpdateBlockDevice ((flaky_env [demo_device])
       \<lparr>e_UpdateStatus := (\<lambda>ns bd k. ((bd, Some (StatusError ''NotFound'' ''no such resource'')), k))\<rparr>)
     demo_monitor (demo_udev_device ''/dev/sda'') 1 OFFLINE \<lparr>ext = 0, calls = []\<rparr> = None"
proof (rule UpdateBlockDevice_diverges [where bd = demo_device])
  let ?env = "(flaky_env [demo_device])
    \<lparr>e_UpdateStatus := (\<lambda>ns bd k. ((bd, Some (StatusError ''NotFound'' ''no such resource'')), k))\<rparr>"
  show "mounts_ok (e_host ?env x) (linuxpath_New (info_ctx (c_BlockInfo (u_controller demo_monitor))))" for x
    using demo_mounts_ok by (simp add: flaky_env_def demo_monitor_paths)
  show "OFFLINE \<in> {ONLINE, OFFLINE}" by simp
  show "snd (fst (e_UpdateStatus ?env ns obj x)) \<noteq> None" for ns obj x by simp
  have "BlockDeviceCache_Get (fold cache_Add [demo_device] empty_cache) (u_namespace demo_monitor)
      (device_resource demo_monitor (demo_udev_device ''/dev/sda'')) = Inr demo_device"
    by code_simp
  then show "e_CacheGet ?env (u_namespace demo_monitor) (device_resource demo_monitor (demo_udev_device ''/dev/sda'')) x
      = Inr demo_device" for x
    by (simp add: flaky_env_def)
  show "bs_State (bd_Status demo_device) \<noteq> (if OFFLINE = ONLINE then BlockDeviceActive else BlockDeviceInactive)"
    by code_simp
qed

section \<open>A device is added\<close>

text \<open>A list of everything finds a resource by its name exactly when the cache holds it.\<close>

lemma list_find:
  assumes "cache_ok c" and "ns_ok ns"
  shows "find (\<lambda>x. bd_Name x = n) (BlockDeviceCache_List c ns Everything) = cache_lookup c ns n"
proof (cases "cache_lookup c ns n")
  case None
  have "bd_Name bd \<noteq> n" if "bd \<in> set (BlockDeviceCache_List c ns Everything)" for bd
    using that None by (auto simp: informer.list_mem [OF assms])
  then show ?thesis using None by (simp add: find_None_all)
next
  case (Some bd)
  then have "bd_Name bd = n" using informer.get_meta [OF assms] by blast
  moreover have "bd \<in> set (BlockDeviceCache_List c ns Everything)"
    using Some calculation by (simp add: informer.list_mem [OF assms])
  ultimately show ?thesis
    using find_unique [OF informer.list_distinct [OF assms]] Some by metis
qed

text \<open>What is sent to save a resource that a udev event describes.\<close>

definition udev_save_calls :: "BlockDevice option \<Rightarrow> BlockDevice \<Rightarrow> call list" where
  "udev_save_calls known bd =
     (case known of
        None \<Rightarrow> [CallCreate (bd_Namespace bd) bd]
      | Some old \<Rightarrow> if old = bd then []
          else [CallUpdate (bd_Namespace old) (with_device_status (bd_DeviceStatus bd) (with_spec (bd_Spec bd) old))])"

lemma udev_save_calls_eq:
  "udev_save_calls known bd =
     (case known of
        None \<Rightarrow> [CallCreate (bd_Namespace bd) bd]
      | Some old \<Rightarrow> if old = bd then []
          else [CallUpdate (bd_Namespace old) (old
              \<lparr> bd_Spec := bd_Spec bd,
                bd_Status := (bd_Status old)\<lparr>bs_DeviceStatus := bd_DeviceStatus bd\<rparr> \<rparr>)])"
  by (simp add: udev_save_calls_def with_device_status_def with_spec_def split: option.splits)

lemma SaveBlockDevice_udev:
  "SaveBlockDevice env bd bds w = (err, w') \<Longrightarrow>
   calls w' = calls w @ udev_save_calls (find (\<lambda>x. bd_Name x = bd_Name bd) bds) bd"
  using SaveBlockDevice_calls [of env bd bds w]
  by (simp add: udev_save_calls_def split: option.splits)

lemma SaveBlockDevice_accepted:
  assumes "answers env (\<lambda>c. None)"
  shows "fst (SaveBlockDevice env bd bds w) = None"
  by (simp add: SaveBlockDevice_err [OF assms] split: option.splits)

lemma add_loop_accepted:
  assumes "answers env (\<lambda>c. None)"
  shows "\<exists>w'. add_loop retry env bds bdList w = Some (Ret w')
    \<and> calls w' = calls w @ concat (map (\<lambda>bd. udev_save_calls (find (\<lambda>x. bd_Name x = bd_Name bd) bdList) bd) bds)"
proof (induction bds arbitrary: w)
  case (Cons bd bds)
  obtain err w1 where s: "SaveBlockDevice env bd bdList w = (err, w1)" by fastforce
  then have "err = None" using SaveBlockDevice_accepted [OF assms, of bd bdList w] by simp
  then show ?case using s Cons.IH [of w1] SaveBlockDevice_udev [OF s] by auto
qed simp

text \<open>The resources that an add event describes.\<close>

definition udev_resources :: "'w env \<Rightarrow> Udev \<Rightarrow> UdevDevice \<Rightarrow> 'w world \<Rightarrow> BlockDevice list outcome" where
  "udev_resources env u device w =
     bind_outcome (GetDiskByName (host_now env w) (c_BlockInfo (u_controller u)) (GetShortName device))
       (\<lambda>disk. GetNewBlockDevices disk (u_nodeName u) (u_namespace u))"

lemma udev_resources_Ret:
  assumes "mounts_ok (host_now env w) (linuxpath_New (info_ctx (c_BlockInfo (u_controller u))))"
    and "\<not> HasPrefix (GetShortName device) ''/dev/''"
  shows "\<exists>disk. udev_resources env u device w =
      Ret (disk_block_device disk (u_nodeName u) (u_namespace u)
        # map (part_block_device (disk_block_device disk (u_nodeName u) (u_namespace u)) (u_nodeName u))
            (disk_Partitions disk)) \<and> disk_Name disk = GetShortName device"
proof -
  obtain d where "GetDiskByName (host_now env w) (c_BlockInfo (u_controller u)) (GetShortName device) = Ret d"
    "disk_Name d = TrimPrefix (GetShortName device) ''/dev/''"
    using GetDiskByName_total [OF assms(1)] by blast
  then show ?thesis
    using assms(2) by (intro exI [of _ d]) (simp add: udev_resources_def GetNewBlockDevices_Ret TrimPrefix_def)
qed

lemma AddBlockDevice_accepted:
  assumes "reads_informer env store" and "cache_ok (store (ext w))" and "ns_ok (u_namespace u)"
    and "answers env (\<lambda>c. None)" and "udev_resources env u device w = Ret bds"
  shows "\<exists>w'. AddBlockDevice (Suc n) env u device defaultDuration w = Some (Ret w')
    \<and> calls w' = calls w @ concat (map (\<lambda>bd.
        udev_save_calls (cache_lookup (store (ext w)) (u_namespace u) (bd_Name bd)) bd) bds)"
proof -
  let ?list = "BlockDeviceCache_List (store (ext w)) (u_namespace u) Everything"
  have "cache_list env (u_namespace u) Everything w = (?list, None)"
    using assms(1) by (simp add: reads_informer_def)
  then have "AddBlockDevice (Suc n) env u device defaultDuration w =
      add_loop (AddBlockDevice n env u device (2 * defaultDuration)) env bds ?list w"
    using assms(5) by (simp add: Let_def udev_resources_def)
  then show ?thesis
    using add_loop_accepted [OF assms(4), of "AddBlockDevice n env u device (2 * defaultDuration)" bds ?list w]
    by (simp add: list_find [OF assms(2,3)] del: AddBlockDevice.simps)
qed

text \<open>C23: with a server that accepts every call, an add event saves the resource of the device and
  of each of its partitions, in that order, against the informer cache: a resource that the cache does not
  hold is created; one it holds is updated with the scanned specification and
  device status, keeping its metadata, state and conditions; an equal one is left alone.\<close>

theorem AddBlockDevice_saves:
  assumes "reads_informer env store" and "cache_ok (store (ext w))" and "ns_ok (u_namespace u)"
    and "answers env (\<lambda>c. None)"
    and "bind_outcome (GetDiskByName (host_now env w) (c_BlockInfo (u_controller u)) (GetShortName device))
      (\<lambda>disk. GetNewBlockDevices disk (u_nodeName u) (u_namespace u)) = Ret bds"
  shows "\<exists>w'. AddBlockDevice (Suc n) env u device defaultDuration w = Some (Ret w')
    \<and> calls w' = calls w @ concat (map (\<lambda>bd.
        case cache_lookup (store (ext w)) (u_namespace u) (bd_Name bd) of
          None \<Rightarrow> [CallCreate (bd_Namespace bd) bd]
        | Some old \<Rightarrow> if old = bd then []
            else [CallUpdate (bd_Namespace old) (old
              \<lparr> bd_Spec := bd_Spec bd,
                bd_Status := (bd_Status old)\<lparr>bs_DeviceStatus := bd_DeviceStatus bd\<rparr> \<rparr>)]) bds)"
  using AddBlockDevice_accepted [OF assms(1-4), of device bds n] assms(5)
  unfolding udev_resources_def udev_save_calls_eq by blast

lemma demo_informer:
  "reads_informer (demo_env bds) (\<lambda>m. fold cache_Add bds empty_cache)"
  by (simp add: reads_informer_def demo_env_def)

theorem AddBlockDevice_saves_witness:
  "\<exists>w' bd. AddBlockDevice 1 (demo_env []) demo_monitor (demo_udev_device ''/dev/sda'') defaultDuration demo_world
      = Some (Ret w')
    \<and> calls w' = [CallCreate ''ns'' bd] \<and> bd_Name bd = ''sda-n1''"
proof -
  have "mounts_ok (host_now (demo_env []) demo_world) (linuxpath_New (info_ctx (c_BlockInfo (u_controller demo_monitor))))"
    using demo_mounts_ok by (simp add: demo_env_def demo_monitor_paths)
  then obtain d where d: "GetDiskByName (host_now (demo_env []) demo_world) (c_BlockInfo (u_controller demo_monitor)) ''sda''
      = Ret d" "disk_Name d = ''sda''"
    using GetDiskByName_total [of _ _ "''sda''"] by (fastforce simp: TrimPrefix_def)
  moreover have "case GetDiskByName (host_now (demo_env []) demo_world) (c_BlockInfo (u_controller demo_monitor)) ''sda''
      of Ret d \<Rightarrow> disk_Partitions d = [] | Panic e \<Rightarrow> False"
    by code_simp
  ultimately have "bind_outcome (GetDiskByName (host_now (demo_env []) demo_world) (c_BlockInfo (u_controller demo_monitor))
        (GetShortName (demo_udev_device ''/dev/sda'')))
      (\<lambda>disk. GetNewBlockDevices disk (u_nodeName demo_monitor) (u_namespace demo_monitor))
    = Ret [disk_block_device d ''n1'' ''ns'']"
    by (simp add: demo_monitor_names GetNewBlockDevices_Ret)
  moreover have "ns_ok (u_namespace demo_monitor)" by (simp add: demo_monitor_names ns_ok_def)
  moreover have "cache_lookup (fold cache_Add [] empty_cache) ''ns'' ''sda-n1'' = None" by code_simp
  ultimately show ?thesis
    using AddBlockDevice_saves [OF demo_informer _ _ demo_answers, where n = 0 and bds1 = "[]"
        and w = demo_world and u = demo_monitor and device = "demo_udev_device ''/dev/sda''"
        and bds = "[disk_block_device d ''n1'' ''ns'']"] d(2) informer.invar_empty
    by (auto simp: demo_monitor_names demo_world_def simp del: AddBlockDevice.simps)
qed

text \<open>C38: an add event makes a whole disk of every device. When the cache holds the resource of a
  partition of that name, the handler rewrites it: type disk, no parent device, still
  labelled as a child of its disk.\<close>

theorem AddBlockDevice_partition_becomes_disk:
  assumes "reads_informer env store" and "cache_ok (store (ext w))" and "ns_ok (u_namespace u)"
    and "answers env (\<lambda>c. None)"
    and "mounts_ok (host_now env w) (linuxpath_New (info_ctx (c_BlockInfo (u_controller u))))"
    and "\<not> HasPrefix (GetShortName device) ''/dev/''"
    and "cache_lookup (store (ext w)) (u_namespace u) (device_resource u device) = Some old"
    and "dd_DeviceType (ds_Details (bd_DeviceStatus old)) = DeviceTypePart"
  shows "\<exists>w' obj. AddBlockDevice (Suc n) env u device defaultDuration w = Some (Ret w')
    \<and> CallUpdate (bd_Namespace old) obj \<in> set (new_calls w w')
    \<and> dd_DeviceType (ds_Details (bd_DeviceStatus obj)) = DeviceTypeDisk
    \<and> ds_ParentDevice (bd_DeviceStatus obj) = []
    \<and> bd_ObjectMeta obj = bd_ObjectMeta old"
proof -
  from udev_resources_Ret [OF assms(5,6)] obtain disk parts where
    res: "udev_resources env u device w = Ret (disk_block_device disk (u_nodeName u) (u_namespace u) # parts)"
    and name: "disk_Name disk = GetShortName device" by blast
  let ?bd = "disk_block_device disk (u_nodeName u) (u_namespace u)"
  let ?obj = "with_device_status (bd_DeviceStatus ?bd) (with_spec (bd_Spec ?bd) old)"
  have disk: "dd_DeviceType (ds_Details (bd_DeviceStatus ?bd)) = DeviceTypeDisk"
    "ds_ParentDevice (bd_DeviceStatus ?bd) = []"
    by (simp_all add: disk_block_device_def Let_def)
  then have "old \<noteq> ?bd" using assms(8) by (auto simp: DeviceTypePart_def DeviceTypeDisk_def)
  moreover have "cache_lookup (store (ext w)) (u_namespace u) (bd_Name ?bd) = Some old"
    using assms(7) name by simp
  ultimately have "CallUpdate (bd_Namespace old) ?obj \<in> set (udev_save_calls
      (cache_lookup (store (ext w)) (u_namespace u) (bd_Name ?bd)) ?bd)"
    by (simp add: udev_save_calls_def del: disk_block_device_simps)
  then show ?thesis
    using AddBlockDevice_accepted [OF assms(1-4) res, of n] disk
    by (fastforce simp: new_calls_def)
qed

theorem AddBlockDevice_partition_becomes_disk_witness:
  "\<exists>w' obj. AddBlockDevice 1 (demo_env [part_block_device demo_device ''n1'' (hd (disk_Partitions demo_disk))])
      demo_monitor (demo_udev_device ''/dev/sda1'') defaultDuration demo_world = Some (Ret w')
    \<and> CallUpdate ''ns'' obj \<in> set (calls w')
    \<and> dd_DeviceType (ds_Details (bd_DeviceStatus obj)) = DeviceTypeDisk"
proof -
  let ?part = "part_block_device demo_device ''n1'' (hd (disk_Partitions demo_disk))"
  let ?store = "fold cache_Add [?part] empty_cache"
  have ns: "bd_Namespace ?part = ''ns''"
    and ty: "dd_DeviceType (ds_Details (bd_DeviceStatus ?part)) = DeviceTypePart"
    and name: "\<not> HasPrefix (GetShortName (demo_udev_device ''/dev/sda1'')) ''/dev/''"
    and get: "cache_lookup ?store (u_namespace demo_monitor) (device_resource demo_monitor (demo_udev_device ''/dev/sda1''))
      = Some ?part"
    by code_simp+
  have "mounts_ok (host_now (demo_env [?part]) demo_world)
      (linuxpath_New (info_ctx (c_BlockInfo (u_controller demo_monitor))))"
    using demo_mounts_ok by (simp add: demo_env_def demo_monitor_paths)
  moreover have "cache_ok ?store"
    by (rule informer.invar_fold [OF informer.invar_empty]) (simp add: ns ns_ok_def)
  moreover have "ns_ok (u_namespace demo_monitor)" by (simp add: demo_monitor_names ns_ok_def)
  ultimately show ?thesis
    using AddBlockDevice_partition_becomes_disk [OF demo_informer _ _ demo_answers _ name get ty, where n = 0 and w = demo_world]
    by (auto simp: ns new_calls_def demo_world_def)
qed

text \<open>The number of nested retries that are allowed does not change a result.\<close>

lemma add_loop_mono:
  assumes "\<And>w y. r1 w = Some y \<Longrightarrow> r2 w = Some y"
  shows "add_loop r1 env bds bdList w = Some y \<Longrightarrow> add_loop r2 env bds bdList w = Some y"
proof (induction bds arbitrary: w)
  case (Cons bd bds)
  obtain err w1 where s: "SaveBlockDevice env bd bdList w = (err, w1)" by fastforce
  show ?case
  proof (cases err)
    case None
    then show ?thesis using Cons s by simp
  next
    case (Some e)
    then obtain o1 where "r1 w1 = Some o1" using Cons.prems s by (auto split: option.splits)
    then show ?thesis using Cons s Some assms by (cases o1) auto
  qed
qed simp

lemma AddBlockDevice_mono:
  "AddBlockDevice n env u device duration w = Some y \<Longrightarrow> n \<le> n' \<Longrightarrow>
   AddBlockDevice n' env u device duration w = Some y"
proof (induction n arbitrary: n' duration w y)
  case (Suc n)
  then obtain k where n': "n' = Suc k" "n \<le> k" by (cases n') auto
  note IH = Suc.IH [OF _ n'(2)]
  let ?w = "pause env duration w"
  show ?case
  proof (cases "udev_resources env u device ?w")
    case (Panic e)
    then show ?thesis using Suc.prems by (simp add: n' udev_resources_def)
  next
    case (Ret bds)
    obtain bdList err where l: "cache_list env (u_namespace u) Everything ?w = (bdList, err)" by fastforce
    show ?thesis
    proof (cases err)
      case None
      have "add_loop (AddBlockDevice n env u device (2 * defaultDuration)) env bds bdList ?w = Some y"
        using Suc.prems(1) Ret l None by (simp add: udev_resources_def)
      from add_loop_mono [OF IH this] show ?thesis
        using Ret l None by (simp add: n' udev_resources_def)
    next
      case (Some e)
      then obtain o1 where o1: "AddBlockDevice n env u device (2 * duration) ?w = Some o1"
        using Suc.prems(1) Ret l by (auto simp: udev_resources_def split: option.splits)
      show ?thesis
      proof (cases o1)
        case (Panic m)
        then show ?thesis using Suc.prems(1) Ret l Some o1 IH [OF o1] by (auto simp: n' udev_resources_def)
      next
        case R: (Ret w1)
        have "add_loop (AddBlockDevice n env u device (2 * defaultDuration)) env bds bdList w1 = Some y"
          using Suc.prems(1) Ret l Some o1 R by (simp add: udev_resources_def)
        from add_loop_mono [OF IH this] show ?thesis
          using Ret l Some R IH [OF o1] by (simp add: n' udev_resources_def)
      qed
    qed
  qed
qed simp

text \<open>
  A server that gets better, for the calls that save resources, and a cache that can be
  listed, as the informer's always can.
\<close>

definition faults_end :: "'w env \<Rightarrow> ('w \<Rightarrow> nat) \<Rightarrow> bool" where
  "faults_end env m \<longleftrightarrow>
     (\<forall>ns bd x r err x'. e_Create env ns bd x = ((r, err), x') \<longrightarrow> m x' \<le> m x \<and> (err \<noteq> None \<longrightarrow> m x' < m x))
     \<and> (\<forall>ns bd x r err x'. e_Update env ns bd x = ((r, err), x') \<longrightarrow> m x' \<le> m x \<and> (err \<noteq> None \<longrightarrow> m x' < m x))
     \<and> (\<forall>d x. m (e_Sleep env d x) \<le> m x)
     \<and> (\<forall>ns sel x. snd (e_CacheList env ns sel x) = None)"

lemma faults_end_client:
  assumes "faults_end env m"
  shows "Create env obj w = ((r, err), w') \<Longrightarrow> m (ext w') \<le> m (ext w) \<and> (err \<noteq> None \<longrightarrow> m (ext w') < m (ext w))"
    and "Update env obj w = ((r, err), w') \<Longrightarrow> m (ext w') \<le> m (ext w) \<and> (err \<noteq> None \<longrightarrow> m (ext w') < m (ext w))"
  using assms
  by (cases "e_Create env (bd_Namespace obj) obj (ext w)"; cases "e_Update env (bd_Namespace obj) obj (ext w)";
      auto simp: faults_end_def Create_def Update_def after_call_def)+

lemma faults_end_save:
  assumes "faults_end env m" and "SaveBlockDevice env bd bds w = (err, w')"
  shows "m (ext w') \<le> m (ext w)" "err \<noteq> None \<Longrightarrow> m (ext w') < m (ext w)"
  using assms(2)
  by (auto simp: SaveBlockDevice_def Let_def split: option.splits prod.splits if_splits
      dest: faults_end_client [OF assms(1)])

lemma add_loop_returns:
  assumes "faults_end env m"
    and "\<And>w1. m (ext w1) < k \<Longrightarrow> \<exists>w2. retry w1 = Some (Ret w2) \<and> m (ext w2) \<le> m (ext w1)"
  shows "m (ext w) \<le> k \<Longrightarrow>
    \<exists>w'. add_loop retry env bds bdList w = Some (Ret w') \<and> m (ext w') \<le> m (ext w)"
proof (induction bds arbitrary: w)
  case (Cons bd bds)
  obtain err w1 where s: "SaveBlockDevice env bd bdList w = (err, w1)" by fastforce
  note m = faults_end_save [OF assms(1) s]
  show ?case
  proof (cases err)
    case None
    then show ?thesis using s m Cons.IH [of w1] Cons.prems by fastforce
  next
    case (Some e)
    then have "m (ext w1) < k" using m(2) Cons.prems by simp
    from assms(2) [OF this] obtain w2 where r: "retry w1 = Some (Ret w2)" "m (ext w2) \<le> m (ext w1)" by blast
    then show ?thesis using s Some m Cons.IH [of w2] Cons.prems by fastforce
  qed
qed simp

text \<open>C30: an add event is handled to the end when the server's refusals are finitely many: with more
  allowed nested retries than refusals left, the handler returns, whatever it refuses; and
  the result is the same for every larger allowance.\<close>

theorem AddBlockDevice_returns:
  assumes "faults_end env m" and "m (ext w) < n" and "n \<le> n'"
    and "\<And>x. mounts_ok (e_host env x) (linuxpath_New (info_ctx (c_BlockInfo (u_controller u))))"
  shows "\<exists>w'. AddBlockDevice n env u device duration w = Some (Ret w')
    \<and> AddBlockDevice n' env u device duration w = Some (Ret w') \<and> m (ext w') \<le> m (ext w)"
proof -
  have "\<exists>w'. AddBlockDevice n env u device duration w = Some (Ret w') \<and> m (ext w') \<le> m (ext w)"
    using assms(2)
  proof (induction n arbitrary: duration w)
    case (Suc n)
    let ?w = "pause env duration w"
    have le: "m (ext ?w) \<le> m (ext w)"
      using assms(1) by (simp add: pause_def Sleep_def faults_end_def)
    obtain bds where bds: "udev_resources env u device ?w = Ret bds"
      using GetDiskByName_total [OF assms(4)] unfolding udev_resources_def
      by (metis bind_outcome_simps(1) GetNewBlockDevices_Ret)
    obtain bdList where l: "cache_list env (u_namespace u) Everything ?w = (bdList, None)"
      using assms(1) by (metis faults_end_def prod.collapse)
    have "m (ext ?w) \<le> n" using Suc.prems le by simp
    from add_loop_returns [OF assms(1) _ this, where
        retry = "AddBlockDevice n env u device (2 * defaultDuration)" and bds = bds and bdList = bdList]
    obtain w' where
      "add_loop (AddBlockDevice n env u device (2 * defaultDuration)) env bds bdList ?w = Some (Ret w')"
      "m (ext w') \<le> m (ext ?w)" using Suc.IH by blast
    then show ?case using bds l le by (intro exI [of _ w']) (simp add: udev_resources_def)
  qed simp
  then show ?thesis using AddBlockDevice_mono [OF _ assms(3)] by blast
qed

theorem AddBlockDevice_returns_witness:
  "\<exists>w'. AddBlockDevice 4 (flaky_env []) demo_monitor (demo_udev_device ''/dev/sda'') 1 \<lparr>ext = 3, calls = []\<rparr> = Some (Ret w')"
proof -
  have "faults_end (flaky_env []) (\<lambda>k. k)"
    by (auto simp: faults_end_def flaky_env_def flaky_def split: if_splits)
  moreover have "mounts_ok (e_host (flaky_env []) x) (linuxpath_New (info_ctx (c_BlockInfo (u_controller demo_monitor))))" for x
    using demo_mounts_ok by (simp add: flaky_env_def demo_monitor_paths)
  ultimately show ?thesis
    using AddBlockDevice_returns [of "flaky_env []" "\<lambda>k. k" "\<lparr>ext = 3, calls = []\<rparr>" 4 4 demo_monitor
        "demo_udev_device ''/dev/sda''" 1] by force
qed

section \<open>The loop of the monitor\<close>

definition ignored :: "UEvent \<Rightarrow> bool" where
  "ignored e \<longleftrightarrow> Contains (udev_field (ue_Env e) ''ID_PATH'') ''longhorn''
     \<or> udev_field (ue_Env e) ''ID_TYPE'' \<notin> {''disk'', ''partition''}
     \<or> ue_Action e \<notin> {''add'', ''remove'', ''online'', ''offline''}"

text \<open>The monitor skips what does not concern it: events of Longhorn's own volumes, of devices
  that are neither disks nor partitions, and of other actions leave the outside alone, and
  the loop goes on with the next input.\<close>

lemma monitor_skips:
  assumes "\<And>e. e \<in> set es \<Longrightarrow> ignored e"
  shows "monitor n env u (map Uevent es @ inputs) w = monitor n env u inputs w"
  using assms
proof (induction es)
  case (Cons e es)
  then have "ActionHandler n env u e w = Some (Ret w)"
    by (auto simp: ActionHandler_def ignored_def InitUdevDevice_def Let_def IsLonghornBlockDevice_def
        LonghornBusPathSubstring_def GetIDPath_def UDEV_ID_PATH_def IsDisk_def IsPartition_def UDEV_TYPE_def
        UDEV_SYSTEM_def UDEV_PARTITION_def ADD_def REMOVE_def ONLINE_def OFFLINE_def)
  with Cons show ?case by simp
qed simp

end
