(* ===== verification/Handlers.thy ===== *)
theory Handlers
  imports Node_Controller
begin

text \<open>
  How the shared controllers call the handlers: the adapters of the generated controllers
  (\<open>blockdevice.go\<close> and \<open>node.go\<close> of \<open>pkg/generated/controllers/longhorn.io/v1beta1\<close>, which one
  template generates for both kinds of resource) and the finalizer of
  \<open>vendor/github.com/rancher/wrangler/pkg/generic/remove.go\<close>, which makes the handler of a
  deleted resource run before the server forgets the resource.
\<close>

section \<open>Generic handlers\<close>

text \<open>
  A value of the interface \<open>runtime.Object\<close> in the controller of one kind of resource: nil, or
  a pointer to a resource, which may be a nil pointer itself.
\<close>

datatype 'o runtime_object = NilObject | Object "'o option"

type_synonym ('o, 'w) handler =
  "string \<Rightarrow> 'o option \<Rightarrow> 'w world \<Rightarrow> (('o option \<times> go_error option) \<times> 'w world) outcome"

type_synonym ('o, 'w) generic_handler =
  "string \<Rightarrow> 'o runtime_object \<Rightarrow> 'w world \<Rightarrow> (('o runtime_object \<times> go_error option) \<times> 'w world) outcome"

text \<open>
  What the generic code uses of a kind of resource: the metadata (\<open>meta.Accessor\<close>) and the
  update of its client.
\<close>

record ('o, 'w) object_kind =
  ok_Meta :: "'o \<Rightarrow> ObjectMeta"
  ok_SetMeta :: "ObjectMeta \<Rightarrow> 'o \<Rightarrow> 'o"
  ok_Update :: "'o \<Rightarrow> 'w world \<Rightarrow> ('o \<times> go_error option) \<times> 'w world"

definition block_device_kind :: "'w env \<Rightarrow> (BlockDevice, 'w) object_kind" where
  "block_device_kind env =
     \<lparr> ok_Meta = bd_ObjectMeta, ok_SetMeta = (\<lambda>m bd. bd\<lparr>bd_ObjectMeta := m\<rparr>), ok_Update = Update env \<rparr>"

definition node_kind :: "'w env \<Rightarrow> (Node, 'w) object_kind" where
  "node_kind env =
     \<lparr> ok_Meta = node_ObjectMeta, ok_SetMeta = (\<lambda>m n. n\<lparr>node_ObjectMeta := m\<rparr>), ok_Update = NodeUpdate env \<rparr>"

text \<open>The adapter of the template, and the two that are generated from it.\<close>

definition FromHandlerToHandler :: "('o, 'w) handler \<Rightarrow> ('o, 'w) generic_handler" where
  "FromHandlerToHandler sync key obj w =
     bind_outcome
       (case obj of NilObject \<Rightarrow> sync key None w | Object v \<Rightarrow> sync key v w)
       (\<lambda>((v, err), w).
          Ret ((case v of None \<Rightarrow> NilObject | Some bd \<Rightarrow> Object (Some bd), err), w))"

definition FromBlockDeviceHandlerToHandler ::
    "(BlockDevice, 'w) handler \<Rightarrow> (BlockDevice, 'w) generic_handler" where
  "FromBlockDeviceHandlerToHandler = FromHandlerToHandler"

definition FromNodeHandlerToHandler :: "(Node, 'w) handler \<Rightarrow> (Node, 'w) generic_handler" where
  "FromNodeHandlerToHandler = FromHandlerToHandler"

definition nil_pointer :: string where
  "nil_pointer = ''invalid memory address or nil pointer dereference''"

text \<open>The client never returns a nil pointer to the result.\<close>

definition Updater ::
    "('o, 'w) object_kind \<Rightarrow> 'o runtime_object \<Rightarrow> 'w world \<Rightarrow>
     (('o runtime_object \<times> go_error option) \<times> 'w world) outcome" where
  "Updater kind obj w =
     (case obj of
        NilObject \<Rightarrow> Panic ''interface conversion: interface is nil''
      | Object None \<Rightarrow> Panic nil_pointer
      | Object (Some x) \<Rightarrow>
          (let ((newObj, err), w) = ok_Update kind x w in Ret ((Object (Some newObj), err), w)))"

definition BlockDevice_Updater ::
    "'w env \<Rightarrow> BlockDevice runtime_object \<Rightarrow> 'w world \<Rightarrow>
     ((BlockDevice runtime_object \<times> go_error option) \<times> 'w world) outcome" where
  "BlockDevice_Updater env = Updater (block_device_kind env)"

definition Node_Updater ::
    "'w env \<Rightarrow> Node runtime_object \<Rightarrow> 'w world \<Rightarrow>
     ((Node runtime_object \<times> go_error option) \<times> 'w world) outcome" where
  "Node_Updater env = Updater (node_kind env)"

section \<open>Finalizers\<close>

definition constructFinalizerKey :: "string \<Rightarrow> string" where
  "constructFinalizerKey name = ''wrangler.cattle.io/'' @ name"

abbreviation finalizers_of :: "('o, 'w) object_kind \<Rightarrow> 'o \<Rightarrow> string list" where
  "finalizers_of kind x \<equiv> om_Finalizers (ok_Meta kind x)"

definition hasFinalizer :: "('o, 'w) object_kind \<Rightarrow> string \<Rightarrow> 'o \<Rightarrow> bool" where
  "hasFinalizer kind name x \<longleftrightarrow> List.member (finalizers_of kind x) (constructFinalizerKey name)"

definition SetFinalizers :: "('o, 'w) object_kind \<Rightarrow> string list \<Rightarrow> 'o \<Rightarrow> 'o" where
  "SetFinalizers kind fs x = ok_SetMeta kind ((ok_Meta kind x)\<lparr>om_Finalizers := fs\<rparr>) x"

text \<open>
  The loop that removes a finalizer from the slice \<open>finalizers\<close>: \<open>append\<close> moves the tail of the
  slice down in place, so the loop goes on over the shifted array; \<open>newFinalizers\<close> is the
  last result of an append, or nil.
\<close>

function remove_loop :: "string \<Rightarrow> string list \<Rightarrow> nat \<Rightarrow> string list \<Rightarrow> string list" where
  "remove_loop finalizerKey finalizers k newFinalizers =
     (if k < length finalizers then
        if finalizers ! k \<noteq> finalizerKey then remove_loop finalizerKey finalizers (Suc k) newFinalizers
        else
          let newFinalizers = take k finalizers @ drop (Suc k) finalizers;
              finalizers = newFinalizers @ [last finalizers]
          in remove_loop finalizerKey finalizers (Suc k) newFinalizers
      else newFinalizers)"
  by pat_completeness auto
termination
  by (relation "measure (\<lambda>(key, fs, k, new). length fs - k)") auto

declare remove_loop.simps [simp del]

definition removeFinalizer ::
    "('o, 'w) object_kind \<Rightarrow> string \<Rightarrow> 'o runtime_object \<Rightarrow> 'w world \<Rightarrow>
     (('o runtime_object \<times> go_error option) \<times> 'w world) outcome" where
  "removeFinalizer kind name obj w =
     (case obj of
        NilObject \<Rightarrow> Ret ((obj, None), w)
      | Object None \<Rightarrow> Panic nil_pointer
      | Object (Some x) \<Rightarrow>
          if \<not> hasFinalizer kind name x then Ret ((obj, None), w)
          else
            Updater kind (Object (Some (SetFinalizers kind
              (remove_loop (constructFinalizerKey name) (finalizers_of kind x) 0 []) x))) w)"

definition addFinalizer ::
    "('o, 'w) object_kind \<Rightarrow> string \<Rightarrow> 'o \<Rightarrow> 'w world \<Rightarrow>
     (('o runtime_object \<times> go_error option) \<times> 'w world) outcome" where
  "addFinalizer kind name x w =
     (if hasFinalizer kind name x then Ret ((Object (Some x), None), w)
      else
        Updater kind (Object (Some (SetFinalizers kind
          (finalizers_of kind x @ [constructFinalizerKey name]) x))) w)"

definition NewRemoveHandler ::
    "('o, 'w) object_kind \<Rightarrow> string \<Rightarrow> ('o, 'w) generic_handler \<Rightarrow> ('o, 'w) generic_handler" where
  "NewRemoveHandler kind name handler key obj w =
     (case obj of
        NilObject \<Rightarrow> Ret ((NilObject, None), w)
      | Object None \<Rightarrow> Panic nil_pointer
      | Object (Some x) \<Rightarrow>
          if om_DeletionTimestamp (ok_Meta kind x) = None then addFinalizer kind name x w
          else if \<not> hasFinalizer kind name x then Ret ((obj, None), w)
          else bind_outcome (handler key obj w) (\<lambda>((newObj, err), w).
                 case err of
                   Some e \<Rightarrow> Ret ((newObj, Some e), w)
                 | None \<Rightarrow>
                     removeFinalizer kind name (case newObj of NilObject \<Rightarrow> obj | Object v \<Rightarrow> newObj) w))"

text \<open>The handlers that run when a block device or a node is removed.\<close>

definition block_device_remover :: "'w env \<Rightarrow> Controller \<Rightarrow> string \<Rightarrow> (BlockDevice, 'w) generic_handler" where
  "block_device_remover env c name =
     NewRemoveHandler (block_device_kind env) name
       (FromBlockDeviceHandlerToHandler (\<lambda>key dev w. Ret (OnBlockDeviceDelete env c key dev w)))"

definition node_remover :: "'w env \<Rightarrow> NodeController \<Rightarrow> string \<Rightarrow> (Node, 'w) generic_handler" where
  "node_remover env c name =
     NewRemoveHandler (node_kind env) name
       (FromNodeHandlerToHandler (\<lambda>key n w. Ret (OnNodeDelete env c key n w)))"

section \<open>The loop over the finalizers\<close>

lemma remove_loop_skip:
  "key \<notin> set (drop k fs) \<Longrightarrow> remove_loop key fs k new = new"
proof (induction key fs k new rule: remove_loop.induct)
  case (1 key fs k new)
  show ?case
  proof (cases "k < length fs")
    case True
    then have "drop k fs = fs ! k # drop (Suc k) fs" by (rule Cons_nth_drop_Suc [symmetric])
    with 1 True show ?thesis by (subst remove_loop.simps) auto
  qed (subst remove_loop.simps, simp)
qed

text \<open>For a finalizer that occurs once the loop removes it and keeps the order of the others.\<close>

lemma remove_loop_once:
  assumes "finalizers = pre @ key # post" and "key \<notin> set pre" and "key \<notin> set post" and "k \<le> length pre"
  shows "remove_loop key finalizers k new = pre @ post"
  using assms(4)
proof (induction "length pre - k" arbitrary: k)
  case 0
  then have k: "k = length pre" by simp
  let ?next = "pre @ post @ [last (key # post)]"
  have "key \<notin> set (drop (Suc k) ?next)"
    using assms(3) k by (cases post rule: rev_cases) (auto dest: in_set_dropD)
  then have "remove_loop key ?next (Suc k) (pre @ post) = pre @ post"
    by (rule remove_loop_skip)
  then show ?case
    using k by (subst remove_loop.simps) (simp add: assms(1))
next
  case (Suc m)
  then have lt: "k < length pre" by simp
  moreover have "finalizers ! k \<noteq> key"
    using assms(1,2) lt nth_mem [of k pre] by (auto simp: nth_append)
  ultimately show ?case
    using Suc.hyps(1) [of "Suc k"] Suc.hyps(2) by (subst remove_loop.simps) (simp add: assms(1))
qed

lemma remove_loop_distinct:
  assumes "distinct fs" and "key \<in> set fs"
  shows "remove_loop key fs 0 [] = remove1 key fs"
proof -
  from assms(2) obtain pre post where fs: "fs = pre @ key # post" "key \<notin> set pre"
    by (meson split_list_first)
  then have "key \<notin> set post" using assms(1) by auto
  with fs show ?thesis by (simp add: remove_loop_once remove1_append)
qed

section \<open>The life of a resource of any kind\<close>

text \<open>
  The contract of a kind: the metadata can be read and written, and an update is one call
  of its client.
\<close>

locale resource_kind =
  fixes kind :: "('o, 'w) object_kind" and call_of :: "'o \<Rightarrow> call"
  assumes meta_set: "ok_Meta kind (ok_SetMeta kind m x) = m"
    and set_set: "ok_SetMeta kind m (ok_SetMeta kind m' x) = ok_SetMeta kind m x"
    and set_meta: "ok_SetMeta kind (ok_Meta kind x) x = x"
    and update_calls: "ok_Update kind x w = (r, w') \<Longrightarrow> calls w' = calls w @ [call_of x]"
begin

lemma finalizers_set: "finalizers_of kind (SetFinalizers kind fs x) = fs"
  by (simp add: SetFinalizers_def meta_set)

lemma set_finalizers_twice: "SetFinalizers kind fs (SetFinalizers kind gs x) = SetFinalizers kind fs x"
  by (simp add: SetFinalizers_def meta_set set_set)

lemma set_own_finalizers: "SetFinalizers kind (finalizers_of kind x) x = x"
  by (simp add: SetFinalizers_def set_meta)

lemma updater_calls:
  "Updater kind (Object (Some x)) w = Ret (r, w') \<Longrightarrow> calls w' = calls w @ [call_of x]"
  by (auto simp: Updater_def Let_def split: prod.splits dest!: update_calls)

lemma updater_total: "\<exists>r e w'. Updater kind (Object (Some x)) w = Ret ((Object (Some r), e), w')
    \<and> ok_Update kind x w = ((r, e), w')"
  by (cases "ok_Update kind x w") (auto simp: Updater_def Let_def)

lemma live:
  assumes "om_DeletionTimestamp (ok_Meta kind x) = None"
  shows "\<exists>r e w'. NewRemoveHandler kind name handler key (Object (Some x)) w = Ret ((Object (Some r), e), w')
    \<and> calls w' = calls w @
        (if hasFinalizer kind name x then []
         else [call_of (SetFinalizers kind (finalizers_of kind x @ [constructFinalizerKey name]) x)])"
proof -
  let ?new = "SetFinalizers kind (finalizers_of kind x @ [constructFinalizerKey name]) x"
  obtain r e w' where "Updater kind (Object (Some ?new)) w = Ret ((Object (Some r), e), w')"
    using updater_total by blast
  then show ?thesis
    using assms updater_calls [of ?new w "(Object (Some r), e)" w']
    by (auto simp: NewRemoveHandler_def addFinalizer_def)
qed

lemma deleted_without_finalizer:
  assumes "om_DeletionTimestamp (ok_Meta kind x) \<noteq> None" and "\<not> hasFinalizer kind name x"
  shows "NewRemoveHandler kind name handler key (Object (Some x)) w = Ret ((Object (Some x), None), w)"
  using assms by (auto simp: NewRemoveHandler_def)

lemma deleted:
  assumes "om_DeletionTimestamp (ok_Meta kind x) \<noteq> None" and "distinct (finalizers_of kind x)"
    and "hasFinalizer kind name x"
    and "handler key (Object (Some x)) w = Ret ((new, err), w1)"
    and "err = None \<Longrightarrow> new = NilObject \<or> new = Object (Some x)"
  shows "\<exists>r w'. NewRemoveHandler kind name handler key (Object (Some x)) w = Ret (r, w')
    \<and> calls w' = calls w1 @
        (if err = None
         then [call_of (SetFinalizers kind (remove1 (constructFinalizerKey name) (finalizers_of kind x)) x)] else [])"
proof (cases err)
  case None
  let ?new = "SetFinalizers kind (remove1 (constructFinalizerKey name) (finalizers_of kind x)) x"
  have loop: "remove_loop (constructFinalizerKey name) (finalizers_of kind x) 0 [] =
      remove1 (constructFinalizerKey name) (finalizers_of kind x)"
    using remove_loop_distinct [OF assms(2)] assms(3) by (simp add: hasFinalizer_def)
  obtain r e w' where "Updater kind (Object (Some ?new)) w1 = Ret ((Object (Some r), e), w')"
    using updater_total by blast
  then show ?thesis
    using assms None updater_calls [of ?new w1 "(Object (Some r), e)" w']
    by (auto simp: NewRemoveHandler_def removeFinalizer_def loop)
qed (use assms in \<open>auto simp: NewRemoveHandler_def\<close>)

end

interpretation bd_kind: resource_kind "block_device_kind env" "\<lambda>bd. CallUpdate (bd_Namespace bd) bd"
  by unfold_locales (simp_all add: block_device_kind_def client_calls)

interpretation node_kind: resource_kind "node_kind env" "\<lambda>n. CallNodeUpdate (node_Namespace n) n"
proof (unfold_locales, goal_cases)
  case (4 x w r w')
  then show ?case using Node_calls(2) [of env x w] by (simp add: node_kind_def)
qed (simp_all add: node_kind_def)


section \<open>Removing a disk\<close>

lemma block_device_kind_simps [simp]:
  "ok_Meta (block_device_kind env) = bd_ObjectMeta"
  "ok_SetMeta (block_device_kind env) m bd = bd\<lparr>bd_ObjectMeta := m\<rparr>"
  "ok_Update (block_device_kind env) = Update env"
  by (simp_all add: block_device_kind_def)

lemma node_kind_simps [simp]:
  "ok_Meta (node_kind env) = node_ObjectMeta"
  "ok_SetMeta (node_kind env) m n = n\<lparr>node_ObjectMeta := m\<rparr>"
  "ok_Update (node_kind env) = NodeUpdate env"
  by (simp_all add: node_kind_def)

lemma OnBlockDeviceDelete_run:
  assumes "reads_informer env store" and "answers env f"
    and "bds = BlockDeviceCache_List (store (ext w)) (c_namespace c)
      (SelectorFromSet [(ParentDeviceLabel, bd_Name device)])"
    and "err = first_failure f (map (\<lambda>bd. CallDelete (c_namespace c) (bd_Name bd)) bds)"
  shows "\<exists>w'. OnBlockDeviceDelete env c key (Some device) w = ((if err = None then None else Some device, err), w')
    \<and> calls w' = calls w @ upto_failure f (map (\<lambda>bd. CallDelete (c_namespace c) (bd_Name bd)) bds)"
proof -
  have list: "cache_list env (c_namespace c) (SelectorFromSet [(ParentDeviceLabel, bd_Name device)]) w = (bds, None)"
    using assms(1,3) by (simp add: reads_informer_def)
  obtain e w' where loop: "delete_loop env (c_namespace c) bds w = (e, w')" by fastforce
  then have "OnBlockDeviceDelete env c key (Some device) w = ((if e = None then None else Some device, e), w')"
    by (simp add: OnBlockDeviceDelete_def list split: option.splits)
  then show ?thesis
    using delete_loop_answers [OF assms(2), of "c_namespace c" bds w] loop assms(4) by auto
qed

text \<open>C18: when a disk's resource is deleted, the resources of its partitions are deleted first and
  only then is the finalizer taken off, in one update that keeps the other finalizers in
  order; if the server refuses a deletion, the finalizer stays, so the resource remains and
  the handler is run again.\<close>

theorem block_device_remover_order:
  assumes "reads_informer env store" and "cache_ok (store (ext w))" and "ns_ok (c_namespace c)"
    and "answers env f" and "om_DeletionTimestamp (bd_ObjectMeta bd) \<noteq> None"
    and "distinct (om_Finalizers (bd_ObjectMeta bd))"
    and "''wrangler.cattle.io/'' @ name \<in> set (om_Finalizers (bd_ObjectMeta bd))"
  shows "\<exists>children r w'. block_device_remover env c name key (Object (Some bd)) w = Ret (r, w')
    \<and> set children = {x. cache_lookup (store (ext w)) (c_namespace c) (bd_Name x) = Some x
        \<and> (\<exists>ls. om_Labels (bd_ObjectMeta x) = Some ls
             \<and> Mapping.lookup ls ParentDeviceLabel = Some (bd_Name bd))}
    \<and> (let deletions = map (\<lambda>x. CallDelete (c_namespace c) (bd_Name x)) children
        in calls w' = calls w @ upto_failure f deletions @
            (if first_failure f deletions = None
             then [CallUpdate (bd_Namespace bd) (bd\<lparr>bd_ObjectMeta := (bd_ObjectMeta bd)
               \<lparr>om_Finalizers := remove1 (''wrangler.cattle.io/'' @ name) (om_Finalizers (bd_ObjectMeta bd))\<rparr>\<rparr>)]
             else []))"
proof -
  let ?sel = "SelectorFromSet [(ParentDeviceLabel, bd_Name bd)]"
  let ?bds = "BlockDeviceCache_List (store (ext w)) (c_namespace c) ?sel"
  let ?dels = "map (\<lambda>x. CallDelete (c_namespace c) (bd_Name x)) ?bds"
  let ?err = "first_failure f ?dels"
  obtain w1 where "OnBlockDeviceDelete env c key (Some bd) w =
      ((if ?err = None then None else Some bd, ?err), w1)"
    and calls1: "calls w1 = calls w @ upto_failure f ?dels"
    using OnBlockDeviceDelete_run [OF assms(1,4) refl refl] by blast
  let ?handler = "FromBlockDeviceHandlerToHandler (\<lambda>key dev w. Ret (OnBlockDeviceDelete env c key dev w))"
  from \<open>OnBlockDeviceDelete env c key (Some bd) w = _\<close> have run: "?handler key (Object (Some bd)) w = Ret ((if ?err = None then NilObject else Object (Some bd), ?err), w1)"
    by (simp add: FromBlockDeviceHandlerToHandler_def FromHandlerToHandler_def)
  have key: "hasFinalizer (block_device_kind env) name bd"
    using assms(7) by (simp add: hasFinalizer_def constructFinalizerKey_def)
  have set: "set ?bds = {x. cache_lookup (store (ext w)) (c_namespace c) (bd_Name x) = Some x
        \<and> (\<exists>ls. om_Labels (bd_ObjectMeta x) = Some ls
             \<and> Mapping.lookup ls ParentDeviceLabel = Some (bd_Name bd))}"
    using informer.list_mem [OF assms(2,3), of _ ?sel] by auto
  from bd_kind.deleted [where handler = ?handler and key = key, OF _ _ key run] assms(5,6) obtain r w' where
    "block_device_remover env c name key (Object (Some bd)) w = Ret (r, w')"
    and "calls w' = calls w1 @ (if ?err = None then [CallUpdate (bd_Namespace bd)
        (SetFinalizers (block_device_kind env) (remove1 (constructFinalizerKey name) (om_Finalizers (bd_ObjectMeta bd))) bd)]
      else [])"
    by (auto simp: block_device_remover_def SetFinalizers_def)
  then show ?thesis
    using set calls1 unfolding Let_def
    by (intro exI [of _ ?bds] exI [of _ r] exI [of _ w']) (simp add: SetFinalizers_def constructFinalizerKey_def)
qed

definition demo_deleted :: BlockDevice where
  "demo_deleted = demo_device\<lparr>bd_ObjectMeta := (bd_ObjectMeta demo_device)
     \<lparr>om_DeletionTimestamp := Some 5, om_Finalizers := [''a'', ''wrangler.cattle.io/h'', ''b'']\<rparr>\<rparr>"

theorem block_device_remover_order_witness:
  "\<exists>r w'. block_device_remover (demo_env []) demo_controller ''h'' ''ns/sda-n1'' (Object (Some demo_deleted))
      demo_world = Ret (r, w')
    \<and> (\<exists>obj. calls w' = [CallUpdate ''ns'' obj] \<and> om_Finalizers (bd_ObjectMeta obj) = [''a'', ''b''])"
proof -
  let ?store = "fold cache_Add [] empty_cache"
  have reads: "reads_informer (demo_env []) (\<lambda>_. ?store)"
    by (simp add: reads_informer_def demo_env_def)
  have ok: "cache_ok ?store"
    by (rule informer.invar_fold [OF informer.invar_empty]) simp
  have ns: "c_namespace demo_controller = ''ns''" "bd_Namespace demo_deleted = ''ns''" "calls demo_world = []"
    and fin: "om_Finalizers (bd_ObjectMeta demo_deleted) = [''a'', ''wrangler.cattle.io/h'', ''b'']"
    and del: "om_DeletionTimestamp (bd_ObjectMeta demo_deleted) \<noteq> None"
    by code_simp+
  have nsok: "ns_ok (c_namespace demo_controller)" by (simp add: ns ns_ok_def)
  have none: "cache_lookup empty_cache ''ns'' n = None" for n by (simp add: informer.get_empty)
  have dist: "distinct (om_Finalizers (bd_ObjectMeta demo_deleted))"
    and mem: "''wrangler.cattle.io/'' @ ''h'' \<in> set (om_Finalizers (bd_ObjectMeta demo_deleted))"
    by (simp_all add: fin)
  from block_device_remover_order [OF reads ok nsok demo_answers del dist mem, where key = "''ns/sda-n1''" and w = demo_world]
  obtain children :: "BlockDevice list" and r w' where "block_device_remover (demo_env []) demo_controller ''h'' ''ns/sda-n1''
      (Object (Some demo_deleted)) demo_world = Ret (r, w')"
    and "children = []"
    and "let deletions = map (\<lambda>x. CallDelete (c_namespace demo_controller) (bd_Name x)) children
      in calls w' = calls demo_world @ upto_failure (\<lambda>c. None) deletions @
        (if first_failure (\<lambda>c. None) deletions = None
         then [CallUpdate (bd_Namespace demo_deleted) (demo_deleted\<lparr>bd_ObjectMeta := (bd_ObjectMeta demo_deleted)
           \<lparr>om_Finalizers := remove1 (''wrangler.cattle.io/'' @ ''h'') (om_Finalizers (bd_ObjectMeta demo_deleted))\<rparr>\<rparr>)]
         else [])"
    by (auto simp: ns none)
  then show ?thesis
    by (intro exI [of _ r] exI [of _ w']) (simp add: ns fin)
qed


section \<open>Removing a node\<close>

text \<open>C19: when a Longhorn node is deleted, the resources of the namespace that carry its host name
  are deleted first, all of them and no others, each once, up to the first refusal; only when
  none was refused is the finalizer taken off the node, in one update that leaves the rest
  of the node as it is.\<close>

theorem node_remover_order:
  assumes "reads_informer env store" and "cache_ok (store (ext w))" and "ns_ok (nc_namespace c)"
    and "answers env f" and "om_DeletionTimestamp (node_ObjectMeta n) \<noteq> None"
    and "distinct (om_Finalizers (node_ObjectMeta n))"
    and "''wrangler.cattle.io/'' @ name \<in> set (om_Finalizers (node_ObjectMeta n))"
  shows "\<exists>bds r w'. node_remover env c name key (Object (Some n)) w = Ret (r, w')
    \<and> distinct (map bd_Name bds)
    \<and> set bds = {bd. cache_lookup (store (ext w)) (nc_namespace c) (bd_Name bd) = Some bd
        \<and> (\<exists>ls. om_Labels (bd_ObjectMeta bd) = Some ls \<and> Mapping.lookup ls LabelHostname = Some (node_Name n))}
    \<and> (let deletions = map (\<lambda>bd. CallDelete (nc_namespace c) (bd_Name bd)) bds
        in calls w' = calls w @ upto_failure f deletions @
            (if first_failure f deletions = None
             then [CallNodeUpdate (node_Namespace n) (n\<lparr>node_ObjectMeta := (node_ObjectMeta n)
               \<lparr>om_Finalizers := remove1 (''wrangler.cattle.io/'' @ name) (om_Finalizers (node_ObjectMeta n))\<rparr>\<rparr>)]
             else []))"
proof -
  let ?handler = "FromNodeHandlerToHandler (\<lambda>key n w. Ret (OnNodeDelete env c key n w))"
  obtain bds :: "BlockDevice list" and err w1 where run: "OnNodeDelete env c key (Some n) w =
      ((if err = None then None else Some n, err), w1)"
    and set: "set bds = {bd. cache_lookup (store (ext w)) (nc_namespace c) (bd_Name bd) = Some bd
        \<and> (\<exists>ls. om_Labels (bd_ObjectMeta bd) = Some ls \<and> Mapping.lookup ls LabelHostname = Some (node_Name n))}"
      "distinct (map bd_Name bds)"
    and calls1: "calls w1 = calls w @ upto_failure f (map (\<lambda>bd. CallDelete (nc_namespace c) (bd_Name bd)) bds)"
    and err: "err = first_failure f (map (\<lambda>bd. CallDelete (nc_namespace c) (bd_Name bd)) bds)"
    using OnNodeDelete_devices [OF assms(1-4)] by blast
  have handler: "?handler key (Object (Some n)) w = Ret ((if err = None then NilObject else Object (Some n), err), w1)"
    using run by (simp add: FromNodeHandlerToHandler_def FromHandlerToHandler_def)
  have key: "hasFinalizer (node_kind env) name n"
    using assms(7) by (simp add: hasFinalizer_def constructFinalizerKey_def)
  from node_kind.deleted [where handler = ?handler and key = key, OF _ _ key handler] assms(5,6) obtain r w' where
    "node_remover env c name key (Object (Some n)) w = Ret (r, w')"
    and "calls w' = calls w1 @ (if err = None then [CallNodeUpdate (node_Namespace n)
        (SetFinalizers (node_kind env) (remove1 (constructFinalizerKey name) (om_Finalizers (node_ObjectMeta n))) n)]
      else [])"
    by (auto simp: node_remover_def SetFinalizers_def)
  then show ?thesis
    using set calls1 err unfolding Let_def
    by (intro exI [of _ bds] exI [of _ r] exI [of _ w']) (simp add: SetFinalizers_def constructFinalizerKey_def)
qed

definition demo_deleted_node :: Node where
  "demo_deleted_node = demo_node\<lparr>node_ObjectMeta := (node_ObjectMeta demo_node)
     \<lparr>om_DeletionTimestamp := Some 5, om_Finalizers := [''wrangler.cattle.io/h'', ''b'']\<rparr>\<rparr>"

theorem node_remover_order_witness:
  "\<exists>r w'. node_remover (demo_env [demo_device]) demo_node_controller ''h'' ''ns/n1'' (Object (Some demo_deleted_node))
      demo_world = Ret (r, w')
    \<and> (\<exists>n. calls w' = [CallDelete ''ns'' ''sda-n1'', CallNodeUpdate ''ns'' n]
         \<and> om_Finalizers (node_ObjectMeta n) = [''b''])"
proof -
  let ?store = "fold cache_Add [demo_device] empty_cache"
  have reads: "reads_informer (demo_env [demo_device]) (\<lambda>_. ?store)"
    by (simp add: reads_informer_def demo_env_def)
  have ns: "nc_namespace demo_node_controller = ''ns''" "bd_Namespace demo_device = ''ns''"
    "bd_Name demo_device = ''sda-n1''" "node_Name demo_deleted_node = ''n1''"
    "node_Namespace demo_deleted_node = ''ns''" "calls demo_world = []"
    and fin: "om_Finalizers (node_ObjectMeta demo_deleted_node) = [''wrangler.cattle.io/h'', ''b'']"
    and del: "om_DeletionTimestamp (node_ObjectMeta demo_deleted_node) \<noteq> None"
    by code_simp+
  have ok: "cache_ok ?store"
    by (rule informer.invar_fold [OF informer.invar_empty]) (simp add: ns ns_ok_def)
  have nsok: "ns_ok (nc_namespace demo_node_controller)" by (simp add: ns ns_ok_def)
  have dist: "distinct (om_Finalizers (node_ObjectMeta demo_deleted_node))"
    and mem: "''wrangler.cattle.io/'' @ ''h'' \<in> set (om_Finalizers (node_ObjectMeta demo_deleted_node))"
    by (simp_all add: fin)
  from node_remover_order [OF reads ok nsok demo_answers del dist mem, where key = "''ns/n1''" and w = demo_world]
  obtain bds :: "BlockDevice list" and r w' where
    run: "node_remover (demo_env [demo_device]) demo_node_controller ''h'' ''ns/n1'' (Object (Some demo_deleted_node))
      demo_world = Ret (r, w')"
    and d: "distinct (map bd_Name bds)"
    and set: "set bds = {bd. cache_lookup ?store ''ns'' (bd_Name bd) = Some bd
        \<and> (\<exists>ls. om_Labels (bd_ObjectMeta bd) = Some ls \<and> Mapping.lookup ls LabelHostname = Some ''n1'')}"
    and calls: "let deletions = map (\<lambda>bd. CallDelete ''ns'' (bd_Name bd)) bds
        in calls w' = calls demo_world @ upto_failure (\<lambda>c. None) deletions @
            (if first_failure (\<lambda>c. None) deletions = None
             then [CallNodeUpdate ''ns'' (demo_deleted_node\<lparr>node_ObjectMeta := (node_ObjectMeta demo_deleted_node)
               \<lparr>om_Finalizers := remove1 (''wrangler.cattle.io/'' @ ''h'') (om_Finalizers (node_ObjectMeta demo_deleted_node))\<rparr>\<rparr>)]
             else [])"
    unfolding ns by blast
  have labels: "om_Labels (bd_ObjectMeta demo_device) = Some (Mapping.update LabelHostname ''n1'' Mapping.empty)"
    by (simp add: demo_device_def Let_def)
  have "cache_lookup ?store ''ns'' (bd_Name bd) = Some bd \<longleftrightarrow> bd = demo_device" for bd
    using informer.get_fold [of "''ns''" "[demo_device]" empty_cache "bd_Name bd"] informer.get_empty
    by (auto simp: ns ns_ok_def)
  then have "set bds = {demo_device}" by (auto simp: set labels lookup_update')
  with d have "bds = [demo_device]" by (cases bds; cases "tl bds") auto
  then show ?thesis using run calls
    by (intro exI [of _ r] exI [of _ w']) (simp add: ns fin Let_def)
qed

end
