(* ===== verification/Work_Queue.thy ===== *)
theory Work_Queue
  imports Main
begin

text \<open>
  The queue of keys of a shared controller (\<open>vendor/k8s.io/client-go/util/workqueue\<close>) and the
  workers that empty it (\<open>vendor/github.com/rancher/lasso/pkg/controller/controller.go\<close>).
  Events and failed handlers put the key of a resource into the queue; a worker takes a key,
  runs the handlers for it and marks it as done. Each operation holds the lock of the queue,
  so the operations are the atomic steps. How long a delayed key waits is left open: it
  becomes ready at some later step.
\<close>

section \<open>The queue\<close>

record 'k work_queue =
  wq_queue :: "'k list"
  wq_dirty :: "'k set"
  wq_processing :: "'k set"
  wq_shuttingDown :: bool
  wq_waiting :: "'k set"
  wq_failures :: "'k \<Rightarrow> nat"

definition new_queue :: "'k work_queue" where
  "new_queue =
     \<lparr> wq_queue = [], wq_dirty = {}, wq_processing = {}, wq_shuttingDown = False,
       wq_waiting = {}, wq_failures = (\<lambda>k. 0) \<rparr>"

definition wq_Add :: "'k \<Rightarrow> 'k work_queue \<Rightarrow> 'k work_queue" where
  "wq_Add item q =
     (if wq_shuttingDown q then q
      else if item \<in> wq_dirty q then q
      else
        let q = q\<lparr>wq_dirty := insert item (wq_dirty q)\<rparr>
        in if item \<in> wq_processing q then q
           else q\<lparr>wq_queue := wq_queue q @ [item]\<rparr>)"

text \<open>
  \<open>Get\<close> returns the first key; with an empty queue it waits, or tells the worker to stop when
  the queue is shutting down.
\<close>

datatype 'k get_result = GetItem 'k | GetShutdown | GetWaits

definition wq_Get :: "'k work_queue \<Rightarrow> 'k get_result \<times> 'k work_queue" where
  "wq_Get q =
     (case wq_queue q of
        [] \<Rightarrow> (if wq_shuttingDown q then (GetShutdown, q) else (GetWaits, q))
      | item # rest \<Rightarrow>
          (GetItem item,
           q\<lparr>wq_queue := rest, wq_processing := insert item (wq_processing q),
             wq_dirty := wq_dirty q - {item}\<rparr>))"

definition wq_Done :: "'k \<Rightarrow> 'k work_queue \<Rightarrow> 'k work_queue" where
  "wq_Done item q =
     (let q = q\<lparr>wq_processing := wq_processing q - {item}\<rparr>
      in if item \<in> wq_dirty q then q\<lparr>wq_queue := wq_queue q @ [item]\<rparr> else q)"

definition wq_ShutDown :: "'k work_queue \<Rightarrow> 'k work_queue" where
  "wq_ShutDown q = q\<lparr>wq_shuttingDown := True\<rparr>"

text \<open>
  The rate limiter counts the failures of a key and delays it; the delays are positive, so
  the key is not added at once. A key that waits already is not kept twice.
\<close>

definition wq_AddRateLimited :: "'k \<Rightarrow> 'k work_queue \<Rightarrow> 'k work_queue" where
  "wq_AddRateLimited item q =
     (let q = q\<lparr>wq_failures := (wq_failures q)(item := Suc (wq_failures q item))\<rparr>
      in if wq_shuttingDown q then q else q\<lparr>wq_waiting := insert item (wq_waiting q)\<rparr>)"

definition wq_Forget :: "'k \<Rightarrow> 'k work_queue \<Rightarrow> 'k work_queue" where
  "wq_Forget item q = q\<lparr>wq_failures := (wq_failures q)(item := 0)\<rparr>"

definition wq_ready :: "'k \<Rightarrow> 'k work_queue \<Rightarrow> 'k work_queue" where
  "wq_ready item q = wq_Add item (q\<lparr>wq_waiting := wq_waiting q - {item}\<rparr>)"

text \<open>
  The end of \<open>processSingleItem\<close>: a key whose handlers failed is added again after a delay,
  the failures of any other key are forgotten, and the deferred \<open>Done\<close> comes last.
\<close>

definition wq_finish :: "'k \<Rightarrow> bool \<Rightarrow> 'k work_queue \<Rightarrow> 'k work_queue" where
  "wq_finish key failed q = wq_Done key (if failed then wq_AddRateLimited key q else wq_Forget key q)"

section \<open>Workers\<close>

text \<open>Each worker processes at most one key at a time.\<close>

record 'k workers =
  ws_queue :: "'k work_queue"
  ws_busy :: "nat \<Rightarrow> 'k option"

datatype 'k queue_event =
    Added 'k
  | Got nat 'k
  | Finished nat 'k bool
  | Delayed 'k
  | Ready 'k
  | ShutDown

inductive queue_step :: "'k workers \<Rightarrow> 'k queue_event \<Rightarrow> 'k workers \<Rightarrow> bool" where
  added: "queue_step s (Added k) (s\<lparr>ws_queue := wq_Add k (ws_queue s)\<rparr>)"
| got: "ws_busy s i = None \<Longrightarrow> wq_Get (ws_queue s) = (GetItem k, q) \<Longrightarrow>
    queue_step s (Got i k) (s\<lparr>ws_queue := q, ws_busy := (ws_busy s)(i := Some k)\<rparr>)"
| finished: "ws_busy s i = Some k \<Longrightarrow>
    queue_step s (Finished i k failed)
      (s\<lparr>ws_queue := wq_finish k failed (ws_queue s), ws_busy := (ws_busy s)(i := None)\<rparr>)"
| delayed: "queue_step s (Delayed k) (s\<lparr>ws_queue := wq_AddRateLimited k (ws_queue s)\<rparr>)"
| ready: "k \<in> wq_waiting (ws_queue s) \<Longrightarrow>
    queue_step s (Ready k) (s\<lparr>ws_queue := wq_ready k (ws_queue s)\<rparr>)"
| shut_down: "queue_step s ShutDown (s\<lparr>ws_queue := wq_ShutDown (ws_queue s)\<rparr>)"

inductive_cases queue_stepE [consumes 1, case_names added got finished delayed ready shut_down]:
  "queue_step s e s'"

inductive queue_run :: "'k workers \<Rightarrow> 'k queue_event list \<Rightarrow> 'k workers \<Rightarrow> bool" where
  nil: "queue_run s [] s"
| snoc: "queue_run s es t \<Longrightarrow> queue_step t e u \<Longrightarrow> queue_run s (es @ [e]) u"

definition idle_workers :: "'k workers" where
  "idle_workers = \<lparr>ws_queue = new_queue, ws_busy = (\<lambda>i. None)\<rparr>"

text \<open>A step is determined by its event, which may not be possible.\<close>

fun exec_event :: "'k queue_event \<Rightarrow> 'k workers \<Rightarrow> 'k workers option" where
  "exec_event (Added k) s = Some (s\<lparr>ws_queue := wq_Add k (ws_queue s)\<rparr>)"
| "exec_event (Got i k) s =
     (if ws_busy s i \<noteq> None then None
      else case wq_Get (ws_queue s) of
             (GetItem k', q) \<Rightarrow>
               if k' = k then Some (s\<lparr>ws_queue := q, ws_busy := (ws_busy s)(i := Some k)\<rparr>) else None
           | _ \<Rightarrow> None)"
| "exec_event (Finished i k failed) s =
     (if ws_busy s i = Some k
      then Some (s\<lparr>ws_queue := wq_finish k failed (ws_queue s), ws_busy := (ws_busy s)(i := None)\<rparr>)
      else None)"
| "exec_event (Delayed k) s = Some (s\<lparr>ws_queue := wq_AddRateLimited k (ws_queue s)\<rparr>)"
| "exec_event (Ready k) s =
     (if k \<in> wq_waiting (ws_queue s) then Some (s\<lparr>ws_queue := wq_ready k (ws_queue s)\<rparr>) else None)"
| "exec_event ShutDown s = Some (s\<lparr>ws_queue := wq_ShutDown (ws_queue s)\<rparr>)"

lemma queue_step_exec: "queue_step s e s' \<longleftrightarrow> exec_event e s = Some s'"
  by (cases e) (auto elim!: queue_step.cases intro: queue_step.intros split: if_splits prod.splits get_result.splits)

fun exec_events :: "'k queue_event list \<Rightarrow> 'k workers \<Rightarrow> 'k workers option" where
  "exec_events [] s = Some s"
| "exec_events (e # es) s = (case exec_event e s of None \<Rightarrow> None | Some t \<Rightarrow> exec_events es t)"

section \<open>The invariant\<close>

text \<open>
  The queue holds, each once, the dirty keys that nobody processes; the keys in process are
  those of the workers, and no two workers have the same.
\<close>

definition workers_ok :: "'k workers \<Rightarrow> bool" where
  "workers_ok s \<longleftrightarrow>
     distinct (wq_queue (ws_queue s))
     \<and> set (wq_queue (ws_queue s)) = wq_dirty (ws_queue s) - wq_processing (ws_queue s)
     \<and> wq_processing (ws_queue s) = {k. \<exists>i. ws_busy s i = Some k}
     \<and> (\<forall>i j k. ws_busy s i = Some k \<longrightarrow> ws_busy s j = Some k \<longrightarrow> i = j)"

lemma idle_ok: "workers_ok idle_workers"
  by (simp add: workers_ok_def idle_workers_def new_queue_def)

lemma wq_Add_fields:
  "wq_processing (wq_Add k q) = wq_processing q"
  "wq_waiting (wq_Add k q) = wq_waiting q"
  "wq_shuttingDown (wq_Add k q) = wq_shuttingDown q"
  "wq_dirty (wq_Add k q) = (if wq_shuttingDown q then wq_dirty q else insert k (wq_dirty q))"
  by (auto simp: wq_Add_def Let_def)

lemma wq_finish_fields:
  "wq_processing (wq_finish k f q) = wq_processing q - {k}"
  "wq_dirty (wq_finish k f q) = wq_dirty q"
  "wq_queue (wq_finish k f q) = (if k \<in> wq_dirty q then wq_queue q @ [k] else wq_queue q)"
  "wq_shuttingDown (wq_finish k f q) = wq_shuttingDown q"
  "wq_waiting (wq_finish k f q) =
     (if f \<and> \<not> wq_shuttingDown q then insert k (wq_waiting q) else wq_waiting q)"
  by (simp_all add: wq_finish_def wq_Done_def wq_AddRateLimited_def wq_Forget_def Let_def)

lemma add_ok: "workers_ok s \<Longrightarrow> workers_ok (s\<lparr>ws_queue := wq_Add k (ws_queue s)\<rparr>)"
  by (auto simp: workers_ok_def wq_Add_def Let_def)

lemma busy_start:
  "b i = None \<Longrightarrow> {k'. \<exists>j. (b(i := Some k)) j = Some k'} = insert k {k'. \<exists>j. b j = Some k'}"
  by (auto simp: fun_upd_def split: if_splits) (metis option.distinct(1))

lemma busy_end:
  assumes "b i = Some k" and "\<And>j. b j = Some k \<Longrightarrow> j = i"
  shows "{k'. \<exists>j. (b(i := None)) j = Some k'} = {k'. \<exists>j. b j = Some k'} - {k}"
proof -
  have "(b(i := None)) j = Some k' \<longleftrightarrow> b j = Some k' \<and> k' \<noteq> k" for j k'
    using assms(1) assms(2) [of j] by (cases "j = i") auto
  then show ?thesis by blast
qed

lemma queue_step_ok: "queue_step s e s' \<Longrightarrow> workers_ok s \<Longrightarrow> workers_ok s'"
proof (induction rule: queue_step.induct)
  case (added s k)
  then show ?case by (rule add_ok)
next
  case (got s i k q)
  let ?q = "ws_queue s" and ?b = "(ws_busy s)(i := Some k)"
  have q: "wq_queue ?q = k # wq_queue q" "wq_processing q = insert k (wq_processing ?q)" "wq_dirty q = wq_dirty ?q - {k}"
    using got(2) by (auto simp: wq_Get_def split: list.splits if_splits)
  have ok: "distinct (wq_queue ?q)" "set (wq_queue ?q) = wq_dirty ?q - wq_processing ?q"
    "wq_processing ?q = {k. \<exists>i. ws_busy s i = Some k}"
    "\<And>i j k. ws_busy s i = Some k \<Longrightarrow> ws_busy s j = Some k \<Longrightarrow> i = j"
    using got(3) unfolding workers_ok_def by blast+
  have k: "k \<notin> wq_processing ?q" using ok(2) q(1) by auto
  have "{k'. \<exists>j. ?b j = Some k'} = wq_processing q"
    unfolding q(2) ok(3) by (rule busy_start [of "ws_busy s", OF got(1)])
  moreover have "?b i' = Some k' \<Longrightarrow> ?b j = Some k' \<Longrightarrow> i' = j" for i' j k'
    using ok(3,4) k by (auto split: if_splits)
  moreover have "distinct (wq_queue q)" "set (wq_queue q) = wq_dirty q - wq_processing q"
    using ok(1,2) q by auto
  ultimately show ?case
    unfolding workers_ok_def by (simp del: fun_upd_apply)
next
  case (finished s i k failed)
  let ?q = "ws_queue s" and ?b = "(ws_busy s)(i := None)"
  have ok: "distinct (wq_queue ?q)" "set (wq_queue ?q) = wq_dirty ?q - wq_processing ?q"
    "wq_processing ?q = {k. \<exists>i. ws_busy s i = Some k}"
    "\<And>i j k. ws_busy s i = Some k \<Longrightarrow> ws_busy s j = Some k \<Longrightarrow> i = j"
    using finished(2) unfolding workers_ok_def by blast+
  have k: "k \<in> wq_processing ?q" using finished(1) ok(3) by blast
  have "{k'. \<exists>j. ?b j = Some k'} = wq_processing ?q - {k}"
    unfolding ok(3) by (rule busy_end [of "ws_busy s", OF finished(1)]) (rule ok(4) [OF _ finished(1)])
  moreover have "?b i' = Some k' \<Longrightarrow> ?b j = Some k' \<Longrightarrow> i' = j" for i' j k'
    using ok(4) by (auto split: if_splits)
  moreover have "distinct (wq_queue (wq_finish k failed ?q))"
    "set (wq_queue (wq_finish k failed ?q)) = wq_dirty ?q - (wq_processing ?q - {k})"
    using ok(1,2) k by (auto simp: wq_finish_fields)
  ultimately show ?case
    unfolding workers_ok_def by (simp add: wq_finish_fields(1,2) del: fun_upd_apply)
next
  case (delayed s k)
  then show ?case by (simp add: workers_ok_def wq_AddRateLimited_def Let_def)
next
  case (ready k s)
  then have "workers_ok (s\<lparr>ws_queue := (ws_queue s)\<lparr>wq_waiting := wq_waiting (ws_queue s) - {k}\<rparr>\<rparr>)"
    by (simp add: workers_ok_def)
  from add_ok [OF this, of k] show ?case by (simp add: wq_ready_def)
next
  case (shut_down s)
  then show ?case by (simp add: workers_ok_def wq_ShutDown_def)
qed

lemma queue_run_ok: "queue_run s es s' \<Longrightarrow> workers_ok s \<Longrightarrow> workers_ok s'"
  by (induction rule: queue_run.induct) (auto intro: queue_step_ok)

section \<open>No key is lost\<close>

text \<open>A key that is owed a run of its handlers: it waits, is queued, or is dirty while in process.\<close>

definition owed :: "'k \<Rightarrow> 'k workers \<Rightarrow> bool" where
  "owed k s \<longleftrightarrow> k \<in> wq_dirty (ws_queue s) \<or> k \<in> wq_waiting (ws_queue s)"

abbreviation running :: "'k workers \<Rightarrow> bool" where
  "running s \<equiv> \<not> wq_shuttingDown (ws_queue s)"

lemma step_running: "queue_step s e s' \<Longrightarrow> running s' \<Longrightarrow> running s"
  by (induction rule: queue_step.induct)
    (auto simp: wq_Add_fields wq_finish_fields wq_AddRateLimited_def wq_ready_def wq_ShutDown_def wq_Get_def
      split: list.splits)

lemma step_owed:
  assumes "queue_step s e s'" and "running s'" and "owed k s" and "\<forall>i. e \<noteq> Got i k"
  shows "owed k s'"
  using assms step_running [OF assms(1,2)]
  by (induction rule: queue_step.induct)
    (auto simp: owed_def wq_Add_fields wq_finish_fields wq_AddRateLimited_def wq_ready_def wq_ShutDown_def
      wq_Get_def split: list.splits if_splits)

lemma run_running: "queue_run s es s' \<Longrightarrow> running s' \<Longrightarrow> running s"
  by (induction rule: queue_run.induct) (auto dest: step_running)

lemma run_owed:
  assumes "queue_run s es s'" and "running s'" and "owed k s" and "\<And>i. Got i k \<notin> set es"
  shows "owed k s'"
  using assms
proof (induction rule: queue_run.induct)
  case (snoc s es t e u)
  then have "running t" by (auto dest: step_running)
  with snoc show ?case by (auto intro: step_owed)
qed

text \<open>What makes a key owed: an event or a request for it, or handlers that failed.\<close>

definition asks_for :: "'k queue_event \<Rightarrow> 'k \<Rightarrow> bool" where
  "asks_for e k \<longleftrightarrow> e = Added k \<or> e = Delayed k \<or> (\<exists>i. e = Finished i k True)"

lemma step_asks: "queue_step s e s' \<Longrightarrow> asks_for e k \<Longrightarrow> running s' \<Longrightarrow> owed k s'"
  by (induction rule: queue_step.induct)
    (auto simp: asks_for_def owed_def wq_Add_fields wq_finish_fields wq_AddRateLimited_def Let_def)

lemma run_append: "queue_run t fs u \<Longrightarrow> queue_run s es t \<Longrightarrow> queue_run s (es @ fs) u"
proof (induction rule: queue_run.induct)
  case (snoc t fs u e v)
  then show ?case using queue_run.snoc [of s "es @ fs" u e v] by simp
qed simp

lemma run_split:
  "queue_run s (es @ fs) u \<Longrightarrow> \<exists>t. queue_run s es t \<and> queue_run t fs u"
proof (induction fs arbitrary: u rule: rev_induct)
  case (snoc e fs)
  then obtain v where "queue_run s (es @ fs) v" "queue_step v e u"
    by (auto elim: queue_run.cases)
  then show ?case using snoc.IH by (blast intro: queue_run.snoc)
qed (auto intro: queue_run.nil)


section \<open>What the queue promises\<close>

text \<open>Whatever events arrive and however many workers take keys, no two workers ever run the
  handlers of the same key at the same time, no key is queued twice, and the queue holds
  exactly the keys that have an event pending and that nobody works on.\<close>

lemma work_queue_exclusive:
  assumes "queue_run idle_workers es s"
  shows "(\<forall>i j k. ws_busy s i = Some k \<and> ws_busy s j = Some k \<longrightarrow> i = j)
    \<and> distinct (wq_queue (ws_queue s))
    \<and> set (wq_queue (ws_queue s)) = wq_dirty (ws_queue s) - {k. \<exists>i. ws_busy s i = Some k}"
  using queue_run_ok [OF assms idle_ok] by (auto simp: workers_ok_def)


lemma run_cons: "queue_step s e t \<Longrightarrow> queue_run t es u \<Longrightarrow> queue_run s (e # es) u"
  using run_append [of t es u s "[e]"] queue_run.snoc [OF queue_run.nil, of s e t] by simp

lemma queue_run_exec: "exec_events es s = Some s' \<Longrightarrow> queue_run s es s'"
  by (induction es arbitrary: s)
    (auto simp: queue_step_exec intro: queue_run.nil run_cons split: option.splits)

text \<open>Two workers, an event for a key that is in process, and a failure.\<close>

definition demo_events :: "string queue_event list" where
  "demo_events = [Added ''a'', Added ''b'', Got 0 ''a'', Added ''a'', Got 1 ''b'', Finished 1 ''b'' True]"

lemma demo_events_run:
  "\<exists>s. queue_run idle_workers demo_events s \<and> wq_queue (ws_queue s) = [] \<and> running s
    \<and> ws_busy s 0 = Some ''a'' \<and> ws_busy s 1 = None \<and> wq_waiting (ws_queue s) = {''b''}"
proof -
  have "case exec_events demo_events idle_workers of None \<Rightarrow> False
    | Some s \<Rightarrow> wq_queue (ws_queue s) = [] \<and> running s
        \<and> ws_busy s 0 = Some ''a'' \<and> ws_busy s 1 = None \<and> wq_waiting (ws_queue s) = {''b''}"
    by code_simp
  then show ?thesis by (auto intro: queue_run_exec split: option.splits)
qed

text \<open>C7: no event is lost while the queue is running. After an event for a key, a request for it
  or a failure of its handlers, until a worker takes the key again, the key waits for its
  delay, is in the queue, or is marked while a worker still processes it, and in that case
  the end of the processing puts it into the queue.\<close>

theorem work_queue_keeps_keys:
  assumes "queue_run idle_workers (pre @ e # post) s" and "asks_for e k" and "running s"
    and "\<And>i. Got i k \<notin> set post"
  shows "k \<in> wq_waiting (ws_queue s) \<or> k \<in> set (wq_queue (ws_queue s))
    \<or> (\<exists>i. ws_busy s i = Some k
        \<and> (\<forall>failed s'. queue_step s (Finished i k failed) s' \<longrightarrow> k \<in> set (wq_queue (ws_queue s'))))"
proof -
  obtain t u where pre: "queue_run idle_workers pre t" "queue_step t e u" and post: "queue_run u post s"
    using run_split [of idle_workers "pre @ [e]" post s] assms(1) by (auto elim: queue_run.cases)
  have "owed k u" using step_asks [OF pre(2) assms(2) run_running [OF post assms(3)]] .
  then have "owed k s" by (rule run_owed [OF post assms(3) _ assms(4)])
  moreover have "workers_ok s" by (rule queue_run_ok [OF assms(1) idle_ok])
  ultimately consider "k \<in> wq_waiting (ws_queue s)" | "k \<in> set (wq_queue (ws_queue s))"
    | i where "k \<in> wq_dirty (ws_queue s)" "ws_busy s i = Some k"
    by (auto simp: owed_def workers_ok_def)
  then show ?thesis
    by cases (auto simp: queue_step_exec wq_finish_fields)
qed

theorem work_queue_keeps_keys_witness:
  "\<exists>s i. queue_run idle_workers demo_events s \<and> ws_busy s i = Some ''a''
    \<and> (\<forall>failed s'. queue_step s (Finished i ''a'' failed) s' \<longrightarrow> ''a'' \<in> set (wq_queue (ws_queue s')))"
proof -
  obtain s where run: "queue_run idle_workers demo_events s" and "running s"
    and "wq_queue (ws_queue s) = []" and "wq_waiting (ws_queue s) = {''b''}"
    using demo_events_run by blast
  moreover have "demo_events = [Added ''a'', Added ''b'', Got 0 ''a''] @ Added ''a'' # [Got 1 ''b'', Finished 1 ''b'' True]"
    by (simp add: demo_events_def)
  ultimately show ?thesis
    using work_queue_keeps_keys [of "[Added ''a'', Added ''b'', Got 0 ''a'']" "Added ''a''"
        "[Got 1 ''b'', Finished 1 ''b'' True]" s "''a''"]
    by (auto simp: asks_for_def)
qed

end
