(* ===== verification/Shared_Handler.thy ===== *)
theory Shared_Handler
  imports Handlers Work_Queue
begin

text \<open>
  The handlers of one kind of resource share one controller
  (\<open>vendor/github.com/rancher/lasso/pkg/controller\<close>): for every key that its queue hands out, it
  reads the resource from the informer's store and runs all registered handlers on it, each
  on the result of the one before. The program registers two for the block devices, which
  mount and delete, and one for the nodes.
\<close>

section \<open>The handlers of a controller\<close>

record ('o, 'w) handlerEntry =
  he_id :: "64 word"
  he_name :: string
  he_handler :: "('o, 'w) generic_handler"

record ('o, 'w) SharedHandler =
  sh_idCounter :: "64 word"
  sh_handlers :: "('o, 'w) handlerEntry list"

definition new_shared_handler :: "('o, 'w) SharedHandler" where
  "new_shared_handler = \<lparr> sh_idCounter = 0, sh_handlers = [] \<rparr>"

definition SharedHandler_Register ::
    "string \<Rightarrow> ('o, 'w) generic_handler \<Rightarrow> ('o, 'w) SharedHandler \<Rightarrow> ('o, 'w) SharedHandler" where
  "SharedHandler_Register name handler h =
     (let entryId = sh_idCounter h + 1
      in h\<lparr> sh_idCounter := entryId,
            sh_handlers := sh_handlers h @ [\<lparr>he_id = entryId, he_name = name, he_handler = handler\<rparr>] \<rparr>)"

text \<open>What the goroutine of a registration does when its context ends.\<close>

fun remove_entry :: "64 word \<Rightarrow> ('o, 'w) handlerEntry list \<Rightarrow> ('o, 'w) handlerEntry list" where
  "remove_entry entryId [] = []"
| "remove_entry entryId (e # es) = (if he_id e = entryId then es else e # remove_entry entryId es)"

definition SharedHandler_Unregister :: "64 word \<Rightarrow> ('o, 'w) SharedHandler \<Rightarrow> ('o, 'w) SharedHandler" where
  "SharedHandler_Unregister entryId h = h\<lparr>sh_handlers := remove_entry entryId (sh_handlers h)\<rparr>"

text \<open>
  The registrations of the generated controllers. \<open>SharedControllerHandlerFunc\<close> calls the
  function that it wraps.
\<close>

definition AddGenericHandler ::
    "string \<Rightarrow> ('o, 'w) generic_handler \<Rightarrow> ('o, 'w) SharedHandler \<Rightarrow> ('o, 'w) SharedHandler" where
  "AddGenericHandler name handler = SharedHandler_Register name handler"

definition AddGenericRemoveHandler ::
    "('o, 'w) object_kind \<Rightarrow> string \<Rightarrow> ('o, 'w) generic_handler \<Rightarrow> ('o, 'w) SharedHandler \<Rightarrow> ('o, 'w) SharedHandler" where
  "AddGenericRemoveHandler kind name handler = AddGenericHandler name (NewRemoveHandler kind name handler)"

definition BlockDevice_OnChange ::
    "string \<Rightarrow> (BlockDevice, 'w) handler \<Rightarrow> (BlockDevice, 'w) SharedHandler \<Rightarrow> (BlockDevice, 'w) SharedHandler" where
  "BlockDevice_OnChange name sync = AddGenericHandler name (FromBlockDeviceHandlerToHandler sync)"

definition BlockDevice_OnRemove ::
    "'w env \<Rightarrow> string \<Rightarrow> (BlockDevice, 'w) handler \<Rightarrow> (BlockDevice, 'w) SharedHandler \<Rightarrow> (BlockDevice, 'w) SharedHandler" where
  "BlockDevice_OnRemove env name sync =
     AddGenericHandler name (NewRemoveHandler (block_device_kind env) name (FromBlockDeviceHandlerToHandler sync))"

definition Node_OnChange ::
    "string \<Rightarrow> (Node, 'w) handler \<Rightarrow> (Node, 'w) SharedHandler \<Rightarrow> (Node, 'w) SharedHandler" where
  "Node_OnChange name sync = AddGenericHandler name (FromNodeHandlerToHandler sync)"

definition Node_OnRemove ::
    "'w env \<Rightarrow> string \<Rightarrow> (Node, 'w) handler \<Rightarrow> (Node, 'w) SharedHandler \<Rightarrow> (Node, 'w) SharedHandler" where
  "Node_OnRemove env name sync =
     AddGenericHandler name (NewRemoveHandler (node_kind env) name (FromNodeHandlerToHandler sync))"

section \<open>Errors of several handlers\<close>

datatype shared_error = HandlerError string go_error | ErrorList "(string \<times> go_error) list"

definition handler_message :: "string \<times> go_error \<Rightarrow> string" where
  "handler_message e = ''handler '' @ fst e @ '': '' @ Error (snd e)"

fun shared_Error :: "shared_error \<Rightarrow> string" where
  "shared_Error (HandlerError name err) = handler_message (name, err)"
| "shared_Error (ErrorList es) = Join (map handler_message es) '', ''"

definition ToErr :: "(string \<times> go_error) list \<Rightarrow> shared_error option" where
  "ToErr es = (case es of [] \<Rightarrow> None | [(name, err)] \<Rightarrow> Some (HandlerError name err) | _ \<Rightarrow> Some (ErrorList es))"

section \<open>Running the handlers\<close>

text \<open>
  The loop over the handlers. A result replaces the object if it is not nil and has a UID:
  the server gave it one, so the object is not an empty one.
\<close>

fun handlers_loop ::
    "('o, 'w) object_kind \<Rightarrow> ('o, 'w) handlerEntry list \<Rightarrow> string \<Rightarrow> 'o runtime_object \<Rightarrow>
     (string \<times> go_error) list \<Rightarrow> 'w world \<Rightarrow> ((string \<times> go_error) list \<times> 'w world) outcome" where
  "handlers_loop kind [] key obj errs w = Ret (errs, w)"
| "handlers_loop kind (e # es) key obj errs w =
     bind_outcome (he_handler e key obj w) (\<lambda>((newObj, err), w).
       let errs = (case err of
                     Some x \<Rightarrow> if x \<noteq> ErrSkip then errs @ [(he_name e, x)] else errs
                   | None \<Rightarrow> errs);
           obj = (case newObj of
                    Object (Some x) \<Rightarrow> if om_UID (ok_Meta kind x) \<noteq> [] then newObj else obj
                  | _ \<Rightarrow> obj)
       in handlers_loop kind es key obj errs w)"

definition SharedHandler_OnChange ::
    "('o, 'w) object_kind \<Rightarrow> ('o, 'w) SharedHandler \<Rightarrow> string \<Rightarrow> 'o runtime_object \<Rightarrow> 'w world \<Rightarrow>
     (shared_error option \<times> 'w world) outcome" where
  "SharedHandler_OnChange kind h key obj w =
     bind_outcome (handlers_loop kind (sh_handlers h) key obj [] w) (\<lambda>(errs, w). Ret (ToErr errs, w))"

text \<open>
  \<open>getByKey\<close> is the informer's store, which holds no nil pointers; a lookup in it does not fail.
\<close>

definition syncHandler ::
    "('o, 'w) object_kind \<Rightarrow> ('o, 'w) SharedHandler \<Rightarrow> (string \<Rightarrow> 'w \<Rightarrow> 'o option) \<Rightarrow> string \<Rightarrow> 'w world \<Rightarrow>
     (shared_error option \<times> 'w world) outcome" where
  "syncHandler kind h getByKey key w =
     (case getByKey key (ext w) of
        None \<Rightarrow> SharedHandler_OnChange kind h key NilObject w
      | Some obj \<Rightarrow> SharedHandler_OnChange kind h key (Object (Some obj)) w)"

text \<open>One key of the queue: the handlers, then the end of the processing in the queue.\<close>

definition processSingleItem ::
    "('o, 'w) object_kind \<Rightarrow> ('o, 'w) SharedHandler \<Rightarrow> (string \<Rightarrow> 'w \<Rightarrow> 'o option) \<Rightarrow> string \<Rightarrow>
     string work_queue \<Rightarrow> 'w world \<Rightarrow> (shared_error option \<times> string work_queue \<times> 'w world) outcome" where
  "processSingleItem kind h getByKey key q w =
     bind_outcome (syncHandler kind h getByKey key w) (\<lambda>(err, w).
       Ret (err, wq_finish key (err \<noteq> None) q, w))"

section \<open>The handlers of this program\<close>

definition block_device_handlers :: "'w env \<Rightarrow> Controller \<Rightarrow> string \<Rightarrow> (BlockDevice, 'w) SharedHandler" where
  "block_device_handlers env c name =
     BlockDevice_OnRemove env name (\<lambda>key dev w. Ret (OnBlockDeviceDelete env c key dev w))
       (BlockDevice_OnChange name (OnBlockDeviceChange env c) new_shared_handler)"

definition node_handlers :: "'w env \<Rightarrow> NodeController \<Rightarrow> string \<Rightarrow> (Node, 'w) SharedHandler" where
  "node_handlers env c name =
     Node_OnRemove env name (\<lambda>key n w. Ret (OnNodeDelete env c key n w)) new_shared_handler"

lemma block_device_handlers_entries:
  "sh_handlers (block_device_handlers env c name) =
     [\<lparr>he_id = 1, he_name = name, he_handler = FromBlockDeviceHandlerToHandler (OnBlockDeviceChange env c)\<rparr>,
      \<lparr>he_id = 2, he_name = name, he_handler = block_device_remover env c name\<rparr>]"
  by (simp add: block_device_handlers_def BlockDevice_OnRemove_def BlockDevice_OnChange_def AddGenericHandler_def
      SharedHandler_Register_def new_shared_handler_def block_device_remover_def Let_def)

lemma node_handlers_entries:
  "sh_handlers (node_handlers env c name) =
     [\<lparr>he_id = 1, he_name = name, he_handler = node_remover env c name\<rparr>]"
  by (simp add: node_handlers_def Node_OnRemove_def AddGenericHandler_def SharedHandler_Register_def
      new_shared_handler_def node_remover_def Let_def)

end
