(* ===== verification/System.thy ===== *)
theory System
  imports Daemon Udev_Props Shared_Handler
begin

text \<open>
  The daemon as a state machine. Once it serves, the informers and failed runs put keys into
  the queues of its two controllers, the workers take keys and run the registered handlers
  on what the informer's store then has for the key, and the udev monitor handles events, in
  any order, while the rest of the cluster and the machine do what they like. A theorem about
  the calls of all reachable states does not depend on how the calls of handlers that run at
  the same time are interleaved, because it speaks of every single call.
\<close>

section \<open>Steps\<close>

text \<open>The handlers that the daemon registered, as the shared handlers of the two controllers.\<close>

fun install ::
    "'w env \<Rightarrow> registration \<Rightarrow> (BlockDevice, 'w) SharedHandler \<times> (Node, 'w) SharedHandler \<Rightarrow>
     (BlockDevice, 'w) SharedHandler \<times> (Node, 'w) SharedHandler" where
  "install env (BlockDeviceOnChange name c) (b, n) = (BlockDevice_OnChange name (OnBlockDeviceChange env c) b, n)"
| "install env (BlockDeviceOnRemove name c) (b, n) =
     (BlockDevice_OnRemove env name (\<lambda>key dev w. Ret (OnBlockDeviceDelete env c key dev w)) b, n)"
| "install env (NodeOnRemove name c) (b, n) =
     (b, Node_OnRemove env name (\<lambda>key node w. Ret (OnNodeDelete env c key node w)) n)"

definition installed ::
    "'w env \<Rightarrow> registration list \<Rightarrow> (BlockDevice, 'w) SharedHandler \<times> (Node, 'w) SharedHandler" where
  "installed env hs = fold (install env) hs (new_shared_handler, new_shared_handler)"

text \<open>What the stores of the two informers have for a key.\<close>

record 'w informers =
  inf_devices :: "string \<Rightarrow> 'w \<Rightarrow> BlockDevice option"
  inf_nodes :: "string \<Rightarrow> 'w \<Rightarrow> Node option"

record 'w daemon =
  d_world :: "'w world"
  d_devices :: "string workers"
  d_nodes :: "string workers"

text \<open>
  A worker that is busy with a key ends its run of the handlers; a run of the handlers or of the
  udev handler is one step, from which the run returned. A run that panics ends the process and
  one that never returns leaves no state after it; what such runs do is stated of the operations
  themselves, in \<open>Udev_Props\<close>. The event \<open>Finished\<close> of a queue
  happens in that step only.
\<close>

definition ends_run :: "'k queue_event \<Rightarrow> bool" where
  "ends_run e \<longleftrightarrow> (case e of Finished j key failed \<Rightarrow> True | _ \<Rightarrow> False)"

inductive daemon_step :: "'w env \<Rightarrow> 'w informers \<Rightarrow> registration list \<Rightarrow> Udev \<Rightarrow> 'w daemon \<Rightarrow> 'w daemon \<Rightarrow> bool"
  for env :: "'w env" and infs :: "'w informers" and hs :: "registration list" and u :: Udev
where
  device_queue: "queue_step (d_devices d) e q \<Longrightarrow> \<not> ends_run e \<Longrightarrow>
    daemon_step env infs hs u d (d\<lparr>d_devices := q\<rparr>)"
| node_queue: "queue_step (d_nodes d) e q \<Longrightarrow> \<not> ends_run e \<Longrightarrow> daemon_step env infs hs u d (d\<lparr>d_nodes := q\<rparr>)"
| device_handled: "ws_busy (d_devices d) j = Some key \<Longrightarrow>
    processSingleItem (block_device_kind env) (fst (installed env hs)) (inf_devices infs) key
      (ws_queue (d_devices d)) (d_world d) = Ret (err, q, w') \<Longrightarrow>
    daemon_step env infs hs u d
      (d\<lparr>d_world := w', d_devices := \<lparr>ws_queue = q, ws_busy = (ws_busy (d_devices d))(j := None)\<rparr>\<rparr>)"
| node_handled: "ws_busy (d_nodes d) j = Some key \<Longrightarrow>
    processSingleItem (node_kind env) (snd (installed env hs)) (inf_nodes infs) key
      (ws_queue (d_nodes d)) (d_world d) = Ret (err, q, w') \<Longrightarrow>
    daemon_step env infs hs u d
      (d\<lparr>d_world := w', d_nodes := \<lparr>ws_queue = q, ws_busy = (ws_busy (d_nodes d))(j := None)\<rparr>\<rparr>)"
| uevent: "ActionHandler n env u event (d_world d) = Some (Ret w') \<Longrightarrow>
    daemon_step env infs hs u d (d\<lparr>d_world := w'\<rparr>)"
| elsewhere: "daemon_step env infs hs u d (d\<lparr>d_world := (d_world d)\<lparr>ext := s\<rparr>\<rparr>)"

text \<open>
  The states of a daemon that was started in a world where it had made no call: \<open>run\<close> has
  served, and then steps were taken. The keys with which the queues begin (theory \<open>Startup\<close>) come
  into them by the first of these steps.
\<close>

inductive reachable ::
    "'w env \<Rightarrow> 'w informers \<Rightarrow> Option \<Rightarrow> registration list \<Rightarrow> Udev \<Rightarrow> 'w daemon \<Rightarrow> bool"
  for env :: "'w env" and infs :: "'w informers" and opt :: Option and hs :: "registration list" and u :: Udev
where
  serve: "run env opt ctx ghwSetup clientConfig factory leads startAll w0 = Ret (Serving hs u, w)
    \<Longrightarrow> calls w0 = [] \<Longrightarrow> reachable env infs opt hs u \<lparr>d_world = w, d_devices = idle_workers, d_nodes = idle_workers\<rparr>"
| step: "reachable env infs opt hs u d \<Longrightarrow> daemon_step env infs hs u d d' \<Longrightarrow> reachable env infs opt hs u d'"

inductive_cases daemon_stepE [consumes 1, case_names device_queue node_queue device_handled node_handled uevent elsewhere]:
  "daemon_step env infs hs u d d'"

text \<open>What a daemon that serves has registered.\<close>

lemma served_handlers:
  assumes "run env opt ctx ghwSetup clientConfig factory leads startAll w0 = Ret (Serving hs u, w)"
  shows "\<exists>c nc. installed env hs = (block_device_handlers env c blockDeviceHandlerName,
        node_handlers env nc blockDeviceNodeHandlerName)
    \<and> c_namespace c = opt_Namespace opt \<and> c_nodeName c = opt_NodeName opt \<and> nc_namespace nc = opt_Namespace opt
    \<and> u_namespace u = opt_Namespace opt \<and> u_nodeName u = opt_NodeName opt
    \<and> RegisterNodeBlockDevices env c w0 = Ret (None, w)"
proof -
  obtain info where l: "lead env info opt startAll w0 = Ret (Serving hs u, w)"
    using run_cases [OF assms] by auto
  let ?c = "\<lparr>c_namespace = opt_Namespace opt, c_nodeName = opt_NodeName opt, c_BlockInfo = info\<rparr>"
  let ?nc = "\<lparr>nc_namespace = opt_Namespace opt, nc_nodeName = opt_NodeName opt, nc_BlockInfo = info\<rparr>"
  have reg: "RegisterNodeBlockDevices env ?c w0 = Ret (None, w)"
    and u: "u = NewUdev info (opt_Namespace opt) (opt_NodeName opt)"
    using lead_serves [OF l] by simp_all
  then have "Register_blockdevice env info opt w0 = Ret (([BlockDeviceOnChange blockDeviceHandlerName ?c,
      BlockDeviceOnRemove blockDeviceHandlerName ?c], None), w)"
    by (simp add: Register_blockdevice_Ret)
  with l have "hs = [BlockDeviceOnChange blockDeviceHandlerName ?c, BlockDeviceOnRemove blockDeviceHandlerName ?c,
      NodeOnRemove blockDeviceNodeHandlerName ?nc]"
    by (auto simp: lead_def Register_node_def Let_def split: option.splits)
  then show ?thesis
    using reg u by (intro exI [of _ ?c] exI [of _ ?nc])
      (simp add: installed_def block_device_handlers_def node_handlers_def NewUdev_def)
qed

section \<open>Which calls a daemon may make\<close>

text \<open>A resource as the daemon of a node builds it.\<close>

definition own_resource :: "string \<Rightarrow> string \<Rightarrow> BlockDevice \<Rightarrow> bool" where
  "own_resource ns node bd \<longleftrightarrow>
     bd_Namespace bd = ns \<and> spec_NodeName (bd_Spec bd) = node
     \<and> (\<exists>ls. om_Labels (bd_ObjectMeta bd) = Some ls \<and> Mapping.lookup ls LabelHostname = Some node)
     \<and> bs_State (bd_Status bd) = BlockDeviceActive \<and> valid_device bd"

text \<open>
  A mount that a resource asks for: the informer has it in some state of the world, it is not
  being deleted, and its file system is not recorded as valid.
\<close>

definition requests :: "'w informers \<Rightarrow> string \<Rightarrow> string \<Rightarrow> bool" where
  "requests infs dev path \<longleftrightarrow>
     (\<exists>key s bd. inf_devices infs key s = Some bd \<and> spec_DevPath (bd_Spec bd) = dev
        \<and> fi_MountPoint (fs_spec bd) = path \<and> wants_mount bd \<and> \<not> fs_valid bd)"

fun allowed :: "(string \<Rightarrow> string \<Rightarrow> bool) \<Rightarrow> string \<Rightarrow> string \<Rightarrow> call \<Rightarrow> bool" where
  "allowed req ns node (CallCreate m bd) \<longleftrightarrow> m = ns \<and> own_resource ns node bd"
| "allowed req ns node (CallUpdate m bd) \<longleftrightarrow> m = bd_Namespace bd \<and> valid_device bd"
| "allowed req ns node (CallUpdateStatus m bd) \<longleftrightarrow> m = bd_Namespace bd \<and> valid_device bd
     \<and> bs_State (bd_Status bd) \<in> {BlockDeviceActive, BlockDeviceInactive}"
| "allowed req ns node (CallDelete m name) \<longleftrightarrow> m = ns"
| "allowed req ns node (CallList m) \<longleftrightarrow> m = ns"
| "allowed req ns node (CallMkdir path perm) \<longleftrightarrow> path \<noteq> [] \<and> (\<exists>dev. req dev path)"
| "allowed req ns node (CallMount dev path fstype flags opts) \<longleftrightarrow>
     path \<noteq> [] \<and> req dev path \<and> fstype = ''ext4'' \<and> flags = MS_RELATIME \<and> opts = ext4MountOptions"
| "allowed req ns node (CallSleep d) \<longleftrightarrow> defaultDuration <s d"
| "allowed req ns node (CallNodeUpdate m n) \<longleftrightarrow> m = node_Namespace n"
| "allowed req ns node c \<longleftrightarrow> False"

text \<open>
  What the API server, its cache and the informer hand out has passed the validation of the
  resource's schema; the answer to an update has a UID when it is a resource.
\<close>

definition reads_valid :: "'w env \<Rightarrow> 'w informers \<Rightarrow> bool" where
  "reads_valid env infs \<longleftrightarrow>
     (\<forall>key s. pred_option valid_device (inf_devices infs key s))
     \<and> (\<forall>ns bd w. valid_device bd \<longrightarrow> om_UID (bd_ObjectMeta (fst (fst (e_Update env ns bd w)))) \<noteq> [] \<longrightarrow>
          valid_device (fst (fst (e_Update env ns bd w))))
     \<and> (\<forall>ns n w bd. e_CacheGet env ns n w = Inr bd \<longrightarrow> valid_device bd)
     \<and> (\<forall>ns sel w. list_all valid_device (fst (e_CacheList env ns sel w)))
     \<and> (\<forall>ns w. list_all valid_device (fst (fst (e_List env ns w))))"

text \<open>Between two worlds only calls that satisfy \<open>P\<close> were made.\<close>

definition made :: "(call \<Rightarrow> bool) \<Rightarrow> 'w world \<Rightarrow> 'w world \<Rightarrow> bool" where
  "made P w w' \<longleftrightarrow> (\<exists>cs. calls w' = calls w @ cs \<and> list_all P cs)"

lemma made_refl [simp]: "made P w w"
  by (simp add: made_def)

lemma made_trans [trans]: "made P w w1 \<Longrightarrow> made P w1 w2 \<Longrightarrow> made P w w2"
  by (auto simp: made_def)

lemma madeI: "calls w' = calls w @ cs \<Longrightarrow> list_all P cs \<Longrightarrow> made P w w'"
  by (auto simp: made_def)

lemma made_end: "made P w w' \<Longrightarrow> list_all P (calls w) \<Longrightarrow> list_all P (calls w')"
  by (auto simp: made_def)

section \<open>The operations make allowed calls\<close>

lemma own_built:
  "GetNewBlockDevices d node ns = Ret bds \<Longrightarrow> list_all (own_resource ns node) bds"
  by (auto simp: GetNewBlockDevices_Ret own_resource_def list_all_iff valid_disk_block_device
      valid_part_block_device lookup_update' ParentDeviceLabel_def LabelHostname_def)

lemma own_scanned: "list_all (own_resource (c_namespace c) (c_nodeName c)) (scanned c)"
  using own_built [OF GetNewBlockDevices_Ret]
  by (fastforce simp: scanned_def list_all_iff)

lemma own_valid: "own_resource ns node bd \<Longrightarrow> valid_device bd \<and> bd_Namespace bd = ns"
  by (simp add: own_resource_def)

lemma valid_with_device_status:
  "valid_device old \<Longrightarrow> valid_device bd \<Longrightarrow> valid_device (with_device_status (bd_DeviceStatus bd) old)"
  by (simp add: valid_device_def)

lemma valid_with_spec [simp]: "valid_device (with_spec s bd) = valid_device bd"
  by (simp add: valid_device_def with_spec_def)

lemma valid_found:
  "find P bds = Some old \<Longrightarrow> list_all valid_device bds \<Longrightarrow> valid_device old"
  by (auto simp: find_Some_iff list_all_length)

lemma save_call_allowed:
  assumes "own_resource ns node bd" and "list_all valid_device bdList"
  shows "allowed req ns node (save_call bdList bd)"
  using assms own_valid [OF assms(1)]
  by (auto simp: save_call_def valid_with_device_status dest: valid_found split: option.splits)

lemma udev_save_allowed:
  assumes "own_resource ns node bd" and "list_all valid_device bdList"
  shows "list_all (allowed req ns node) (udev_save_calls (find P bdList) bd)"
  using assms own_valid [OF assms(1)]
  by (auto simp: udev_save_calls_def valid_with_device_status dest: valid_found split: option.splits)

lemma save_loop_made:
  assumes "list_all (own_resource ns node) bds" and "list_all valid_device bdList"
  shows "made (allowed req ns node) w (snd (save_loop env bds bdList w))"
  using assms(1)
proof (induction bds arbitrary: w)
  case (Cons bd bds)
  obtain err w1 where s: "SaveBlockDeviceByList env bd bdList w = (err, w1)" by fastforce
  have "made (allowed req ns node) w w1"
    using SaveBlockDeviceByList_call [of env bd bdList w] s Cons.prems save_call_allowed [OF _ assms(2)]
    by (auto intro: madeI)
  also have "made (allowed req ns node) w1 (snd (save_loop env bds bdList w1))"
    using Cons by simp
  finally show ?case
    using s \<open>made (allowed req ns node) w w1\<close> by (simp split: option.splits)
qed simp

lemma register_made:
  assumes "reads_valid env infs" and "RegisterNodeBlockDevices env c w = Ret (err, w')"
  shows "made (allowed req (c_namespace c) (c_nodeName c)) w w'"
proof -
  obtain bdList e w1 where l: "List env (c_namespace c) w = ((bdList, e), w1)"
    by (metis prod.exhaust)
  have valid: "list_all valid_device bdList"
    using assms(1) l by (auto simp: reads_valid_def List_def after_call_def) (metis fst_conv)
  have "made (allowed req (c_namespace c) (c_nodeName c)) w w1"
    using client_calls(5) [OF l] by (auto intro: madeI)
  also have "made (allowed req (c_namespace c) (c_nodeName c)) w1 w'"
    using assms(2) l save_loop_made [OF own_scanned [of c] valid, where req = req and w = w1 and env = env]
    by (auto simp: RegisterNodeBlockDevices_def new_devices_Ret split: option.splits)
  finally show ?thesis .
qed


lemma delete_loop_made: "made (allowed req ns node) w (snd (delete_loop env ns bds w))"
proof (induction bds arbitrary: w)
  case (Cons bd bds)
  obtain err w1 where d: "Delete env ns (bd_Name bd) w = (err, w1)" by fastforce
  have "made (allowed req ns node) w w1" using client_calls(4) [OF d] by (auto intro: madeI)
  then show ?case using d Cons.IH [of w1] by (auto split: option.splits intro: made_trans)
qed simp

lemma device_delete_made:
  "OnBlockDeviceDelete env c key dev w = (r, w') \<Longrightarrow> made (allowed req (c_namespace c) node) w w'"
  by (auto simp: OnBlockDeviceDelete_def split: option.splits prod.splits)
    (metis delete_loop_made snd_conv)+

lemma node_delete_made:
  "OnNodeDelete env c key n w = (r, w') \<Longrightarrow> made (allowed req (nc_namespace c) node) w w'"
  by (auto simp: OnNodeDelete_def split: option.splits prod.splits)
    (metis delete_loop_made snd_conv)+

lemma change_made:
  assumes "OnBlockDeviceChange env c key dev w = Ret (r, w')" and "pred_option valid_device dev"
    and "pred_option (\<lambda>bd. wants_mount bd \<and> \<not> fs_valid bd \<longrightarrow>
      req (spec_DevPath (bd_Spec bd)) (fi_MountPoint (fs_spec bd))) dev"
  shows "made (allowed req ns node) w w'"
proof (cases dev)
  case None
  then show ?thesis using assms(1) by (simp add: OnBlockDeviceChange_def)
next
  case (Some device)
  with assms(1) have "OnBlockDeviceChange env c key (Some device) w = Ret (r, w')" by simp
  from change_calls [OF this] obtain mnt upd where "calls w' = calls w @ mnt @ upd"
    and mnt: "mnt \<in> set (mount_attempts (spec_DevPath (bd_Spec device)) (fi_MountPoint (fs_spec device)))"
      "mnt \<noteq> [] \<longrightarrow> wants_mount device \<and> \<not> fs_valid device"
    and upd: "upd = [] \<or> (\<exists>obj. upd = [CallUpdate (bd_Namespace device) obj] \<and> wants_mount device
         \<and> change_written device obj)" by blast
  moreover have "list_all (allowed req ns node) mnt"
    using mnt assms(3) Some by (auto simp: mount_attempts_def wants_mount_def)
  moreover have "list_all (allowed req ns node) upd"
    using upd assms(2) Some by (auto dest: change_written_valid)
  ultimately show ?thesis by (auto intro: madeI)
qed

section \<open>The registered handlers make allowed calls\<close>

text \<open>
  The objects that pass from handler to handler are valid: a nil object, a resource that was
  read, or the answer to an update that has a UID.
\<close>

fun valid_object :: "BlockDevice runtime_object \<Rightarrow> bool" where
  "valid_object NilObject \<longleftrightarrow> True"
| "valid_object (Object v) \<longleftrightarrow> pred_option valid_device v"

definition passes_on :: "('o, 'w) object_kind \<Rightarrow> ('o runtime_object \<Rightarrow> bool) \<Rightarrow> 'o runtime_object \<Rightarrow> bool" where
  "passes_on kind ok r \<longleftrightarrow> (\<forall>x. r = Object (Some x) \<longrightarrow> om_UID (ok_Meta kind x) \<noteq> [] \<longrightarrow> ok r)"

lemma passes_onI: "ok r \<Longrightarrow> passes_on kind ok r"
  by (auto simp: passes_on_def)

lemma handlers_loop_made:
  assumes "\<And>e obj w r err w'. e \<in> set es \<Longrightarrow> ok obj \<Longrightarrow> he_handler e key obj w = Ret ((r, err), w') \<Longrightarrow>
      made P w w' \<and> passes_on kind ok r"
    and "ok obj" and "handlers_loop kind es key obj errs w = Ret (res, w')"
  shows "made P w w'"
  using assms
proof (induction es arbitrary: obj errs w)
  case (Cons e es)
  obtain r err w1 where h: "he_handler e key obj w = Ret ((r, err), w1)"
    using Cons.prems(3) by (auto simp: bind_outcome_Ret_iff)
  have first: "made P w w1" "passes_on kind ok r" using Cons.prems(1) [OF _ Cons.prems(2) h] by simp_all
  obtain obj' errs' where rest: "handlers_loop kind es key obj' errs' w1 = Ret (res, w')" and "obj' = obj \<or> ok obj'"
    using Cons.prems(3) first(2) by (auto simp: h Let_def passes_on_def split: runtime_object.splits option.splits if_splits)
  then have ok: "ok obj'" using Cons.prems(2) by auto
  have "made P w1 w'"
    by (rule Cons.IH [OF _ ok rest], rule Cons.prems(1)) simp_all
  with first(1) show ?case by (rule made_trans)
qed simp

text \<open>The first handler gets the object as it was read; the others get what was passed on.\<close>

lemma item_made:
  assumes "processSingleItem kind h getByKey key q w = Ret (err, q', w')" and "sh_handlers h = e1 # es"
    and "\<And>obj w r err w'. ok1 obj \<Longrightarrow> he_handler e1 key obj w = Ret ((r, err), w') \<Longrightarrow>
      made P w w' \<and> passes_on kind ok r"
    and "\<And>e obj w r err w'. e \<in> set es \<Longrightarrow> ok obj \<Longrightarrow> he_handler e key obj w = Ret ((r, err), w') \<Longrightarrow>
      made P w w' \<and> passes_on kind ok r"
    and "\<And>obj. ok1 obj \<Longrightarrow> ok obj" and "ok1 NilObject" and "\<And>x. getByKey key (ext w) = Some x \<Longrightarrow> ok1 (Object (Some x))"
  shows "made P w w'"
proof -
  obtain obj errs where obj: "ok1 obj" and run: "handlers_loop kind (e1 # es) key obj [] w = Ret (errs, w')"
    using assms(1,2,6,7) by (auto simp: processSingleItem_def syncHandler_def SharedHandler_OnChange_def bind_outcome_Ret_iff
        simp del: handlers_loop.simps split: option.splits)
  obtain r err w1 where h: "he_handler e1 key obj w = Ret ((r, err), w1)"
    using run by (auto simp: bind_outcome_Ret_iff)
  have first: "made P w w1" "passes_on kind ok r" using assms(3) [OF obj h] by simp_all
  obtain obj' errs' where rest: "handlers_loop kind es key obj' errs' w1 = Ret (errs, w')" and "obj' = obj \<or> ok obj'"
    using run first(2) by (auto simp: h Let_def passes_on_def split: runtime_object.splits option.splits if_splits)
  then have ok: "ok obj'" using assms(5) obj by auto
  have "made P w1 w'"
    by (rule handlers_loop_made [where ok = ok, OF _ ok rest], rule assms(4))
  with first(1) show ?thesis by (rule made_trans)
qed

lemma device_updater_made:
  assumes "reads_valid env infs" and "valid_device bd"
    and "Updater (block_device_kind env) (Object (Some bd)) w = Ret ((r, err), w')"
  shows "made (allowed req ns node) w w' \<and> passes_on (block_device_kind env) valid_object r"
proof -
  obtain x where u: "Update env bd w = ((x, err), w')" and r: "r = Object (Some x)"
    using assms(3) by (auto simp: Updater_def Let_def split: prod.splits)
  have "x = fst (fst (e_Update env (bd_Namespace bd) bd (ext w)))"
    using u by (auto simp: Update_def after_call_def)
  then have "passes_on (block_device_kind env) valid_object r"
    using assms(1,2) r by (simp add: passes_on_def reads_valid_def)
  moreover have "made (allowed req ns node) w w'"
    using client_calls(2) [OF u] assms(2) by (auto intro: madeI)
  ultimately show ?thesis by simp
qed

lemma valid_SetFinalizers [simp]:
  "valid_device (SetFinalizers (block_device_kind env) fs bd) = valid_device bd"
  by (simp add: SetFinalizers_def valid_device_def)

lemma set_finalizers_made:
  assumes "reads_valid env infs" and "valid_device bd"
    and "Updater (block_device_kind env) (Object (Some (SetFinalizers (block_device_kind env) fs bd))) w = Ret ((r, err), w')"
  shows "made (allowed req ns node) w w' \<and> passes_on (block_device_kind env) valid_object r"
  by (rule device_updater_made [OF assms(1) _ assms(3)]) (simp add: assms(2))

lemma add_finalizer_made:
  assumes "reads_valid env infs" and "valid_device bd"
    and "addFinalizer (block_device_kind env) name bd w = Ret ((r, err), w')"
  shows "made (allowed req ns node) w w' \<and> passes_on (block_device_kind env) valid_object r"
  using assms(2,3)
  by (auto simp: addFinalizer_def passes_onI split: if_splits dest: set_finalizers_made [OF assms(1,2)])

lemma remove_finalizer_made:
  assumes "reads_valid env infs" and "valid_object obj"
    and "removeFinalizer (block_device_kind env) name obj w = Ret ((r, err), w')"
  shows "made (allowed req ns node) w w' \<and> passes_on (block_device_kind env) valid_object r"
proof (cases obj)
  case NilObject
  then show ?thesis using assms(3) by (simp add: removeFinalizer_def passes_onI)
next
  case (Object v)
  then obtain bd where bd: "obj = Object (Some bd)" "valid_device bd"
    using assms(2,3) by (cases v) (auto simp: removeFinalizer_def)
  then show ?thesis
    using assms(3)
    by (auto simp: removeFinalizer_def passes_onI split: if_splits dest: set_finalizers_made [OF assms(1) bd(2)])
qed

text \<open>The results of the two handlers of the program.\<close>

lemma device_delete_result:
  "OnBlockDeviceDelete env c key dev w = ((v, err), w') \<Longrightarrow> v = None \<or> v = dev"
  by (auto simp: OnBlockDeviceDelete_def split: option.splits prod.splits)

lemma finish_change_result: "finish_change env device d w = ((v, err), w') \<Longrightarrow> v = None \<or> v = Some device"
  by (auto simp: finish_change_def Let_def split: prod.splits option.splits if_splits)

lemma change_result:
  assumes "OnBlockDeviceChange env c key (Some device) w = Ret ((v, err), w')"
  shows "v = None \<or> v = Some device \<or> (\<exists>obj w1. change_written device obj \<and> v = Some (fst (fst (Update env obj w1))))"
proof (cases "wants_mount device")
  case True
  show ?thesis
  proof (cases "fs_valid device")
    case valid: True
    then have "finish_change env device device w = ((v, err), w')"
      using assms OnBlockDeviceChange_valid [OF True, of env c key w] by simp
    then show ?thesis by (auto dest: finish_change_result)
  next
    case False
    obtain e w1 where m: "mountDevice env (spec_DevPath (bd_Spec device)) (fi_MountPoint (fs_spec device)) w = (e, w1)"
      by fastforce
    show ?thesis
    proof (cases e)
      case None
      with assms m show ?thesis
        by (auto simp: OnBlockDeviceChange_mount [OF True False] bind_outcome_Ret_iff dest: finish_change_result)
    next
      case (Some e')
      let ?obj = "mount_failed (e_stamp env (ext w1)) device e' (format_stamp (e_now env (ext w)) device)"
      have "v = Some (fst (fst (Update env ?obj w1)))"
        using assms m Some by (auto simp: OnBlockDeviceChange_mount [OF True False] split: prod.splits)
      then show ?thesis using change_written_intros(1) [OF False] by blast
    qed
  qed
qed (use assms in \<open>simp add: OnBlockDeviceChange_idle\<close>)

lemma change_passes_on:
  assumes "reads_valid env infs" and "pred_option valid_device dev"
    and "OnBlockDeviceChange env c key dev w = Ret ((v, err), w')"
  shows "passes_on (block_device_kind env) valid_object (case v of None \<Rightarrow> NilObject | Some x \<Rightarrow> Object (Some x))"
proof (cases dev)
  case None
  then show ?thesis using assms(3) by (simp add: OnBlockDeviceChange_def passes_onI)
next
  case (Some device)
  have "om_UID (bd_ObjectMeta x) \<noteq> [] \<longrightarrow> valid_device x"
    if "change_written device obj" "x = fst (fst (Update env obj w1))" for x obj w1
  proof -
    have "x = fst (fst (e_Update env (bd_Namespace obj) obj (ext w1)))"
      using that(2) by (simp add: Update_def)
    then show ?thesis
      using assms(1,2) Some change_written_valid [OF that(1)] by (simp add: reads_valid_def)
  qed
  with change_result [OF assms(3) [unfolded Some]] assms(2) Some show ?thesis
    by (auto simp: passes_on_def)
qed

lemma remover_made:
  assumes "reads_valid env infs" and "valid_object obj"
    and "block_device_remover env c name key obj w = Ret ((r, err), w')"
  shows "made (allowed req (c_namespace c) node) w w' \<and> passes_on (block_device_kind env) valid_object r"
proof -
  consider "obj = NilObject" | "obj = Object None" | bd where "obj = Object (Some bd)"
    by (metis runtime_object.exhaust option.exhaust)
  then show ?thesis
  proof cases
    case (3 bd)
    then have valid: "valid_device bd" using assms(2) by simp
    consider "om_DeletionTimestamp (bd_ObjectMeta bd) = None"
      | "om_DeletionTimestamp (bd_ObjectMeta bd) \<noteq> None" "\<not> hasFinalizer (block_device_kind env) name bd"
      | "om_DeletionTimestamp (bd_ObjectMeta bd) \<noteq> None" "hasFinalizer (block_device_kind env) name bd" by blast
    then show ?thesis
    proof cases
      case 1
      then show ?thesis
        using assms(3) 3 add_finalizer_made [OF assms(1) valid] by (simp add: block_device_remover_def NewRemoveHandler_def)
    next
      case 2
      then show ?thesis
        using assms(2,3) 3 by (auto simp: block_device_remover_def NewRemoveHandler_def passes_onI)
    next
      case deleted: 3
      obtain v e w1 where d: "OnBlockDeviceDelete env c key (Some bd) w = ((v, e), w1)"
        by (metis prod.exhaust)
      have v: "v = None \<or> v = Some bd" by (rule device_delete_result [OF d])
      have "made (allowed req (c_namespace c) node) w1 w' \<and> passes_on (block_device_kind env) valid_object r"
      proof (cases e)
        case None
        then have "removeFinalizer (block_device_kind env) name (Object (Some bd)) w1 = Ret ((r, err), w')"
          using assms(3) 3 deleted d v by (auto simp: block_device_remover_def NewRemoveHandler_def
              FromBlockDeviceHandlerToHandler_def FromHandlerToHandler_def split: option.splits)
        then show ?thesis by (rule remove_finalizer_made [OF assms(1), rotated]) (simp add: valid)
      next
        case (Some x)
        then show ?thesis
          using assms(3) 3 deleted d v valid by (auto simp: block_device_remover_def NewRemoveHandler_def
              FromBlockDeviceHandlerToHandler_def FromHandlerToHandler_def passes_on_def)
      qed
      with device_delete_made [OF d] show ?thesis by (blast intro: made_trans)
    qed
  qed (use assms(3) in \<open>simp_all add: block_device_remover_def NewRemoveHandler_def passes_onI\<close>)
qed

text \<open>What the change handler gets: a valid resource whose mount is requested, if it wants one.\<close>

definition read_object :: "(string \<Rightarrow> string \<Rightarrow> bool) \<Rightarrow> BlockDevice runtime_object \<Rightarrow> bool" where
  "read_object req obj \<longleftrightarrow>
     valid_object obj
     \<and> (\<forall>bd. obj = Object (Some bd) \<longrightarrow> wants_mount bd \<longrightarrow> \<not> fs_valid bd \<longrightarrow>
          req (spec_DevPath (bd_Spec bd)) (fi_MountPoint (fs_spec bd)))"

lemma change_handler_made:
  assumes "reads_valid env infs" and "read_object req obj"
    and "FromBlockDeviceHandlerToHandler (OnBlockDeviceChange env c) key obj w = Ret ((r, err), w')"
  shows "made (allowed req ns node) w w' \<and> passes_on (block_device_kind env) valid_object r"
proof -
  define dev where "dev = (case obj of NilObject \<Rightarrow> None | Object v \<Rightarrow> v)"
  have valid: "pred_option valid_device dev"
    and req: "pred_option (\<lambda>bd. wants_mount bd \<and> \<not> fs_valid bd \<longrightarrow>
      req (spec_DevPath (bd_Spec bd)) (fi_MountPoint (fs_spec bd))) dev"
    using assms(2) by (cases obj; simp add: dev_def read_object_def pred_option_def)+
  obtain v where run: "OnBlockDeviceChange env c key dev w = Ret ((v, err), w')"
    and r: "r = (case v of None \<Rightarrow> NilObject | Some x \<Rightarrow> Object (Some x))"
    using assms(3) by (cases obj) (auto simp: dev_def FromBlockDeviceHandlerToHandler_def FromHandlerToHandler_def
        bind_outcome_Ret_iff)
  show ?thesis
    using change_made [OF run valid req] change_passes_on [OF assms(1) valid run] by (simp add: r)
qed

lemma node_updater_made:
  "Updater (node_kind env) (Object (Some n)) w = Ret (r, w') \<Longrightarrow> made (allowed req ns node) w w'"
  using node_kind.updater_calls by (fastforce intro: madeI)

lemma node_delete_result: "OnNodeDelete env c key n w = ((v, err), w') \<Longrightarrow> v = None \<or> v = n"
  by (auto simp: OnNodeDelete_def split: option.splits prod.splits)

lemma node_remover_made:
  assumes "node_remover env c name key obj w = Ret ((r, err), w')"
  shows "made (allowed req (nc_namespace c) node) w w'"
proof -
  consider "obj = NilObject" | "obj = Object None" | n where "obj = Object (Some n)"
    by (metis runtime_object.exhaust option.exhaust)
  then show ?thesis
  proof cases
    case (3 n)
    obtain v e w1 where d: "OnNodeDelete env c key (Some n) w = ((v, e), w1)"
      by (metis prod.exhaust)
    have first: "made (allowed req (nc_namespace c) node) w w1" by (rule node_delete_made [OF d])
    show ?thesis
      using assms 3 d first node_delete_result [OF d]
      by (auto simp: node_remover_def NewRemoveHandler_def addFinalizer_def removeFinalizer_def
          FromNodeHandlerToHandler_def FromHandlerToHandler_def
          split: if_splits option.splits intro: node_updater_made made_trans)
  qed (use assms in \<open>simp_all add: node_remover_def NewRemoveHandler_def\<close>)
qed

section \<open>The monitor makes allowed calls\<close>

lemma pause_made: "made (allowed req ns node) w (pause env duration w)"
  by (auto simp: pause_calls pause_calls_def intro!: madeI [where cs = "pause_calls duration"])

lemma RemoveBlockDevice_made:
  assumes "RemoveBlockDevice env u device duration w = Some w'"
  shows "made (allowed req (u_namespace u) node) w w'"
proof (rule RemoveBlockDevice.raw_induct [OF _ assms], goal_cases)
  case (1 rec env u device duration w w')
  let ?w = "pause env duration w"
  obtain err w1 where d: "Delete env (u_namespace u) (device_resource u device) ?w = (err, w1)" by fastforce
  have "made (allowed req (u_namespace u) node) w ?w" by (rule pause_made)
  also have "made (allowed req (u_namespace u) node) ?w w1"
    using client_calls(4) [OF d] by (auto intro: madeI)
  also have "made (allowed req (u_namespace u) node) w1 w'"
  proof (cases "err \<noteq> None \<and> \<not> IsNotFound err")
    case True
    then show ?thesis using 1 d by (simp add: Let_def)
  next
    case False
    then have "w1 = w'" using 1(2) d by (auto simp: Let_def)
    then show ?thesis by simp
  qed
  finally show ?case .
qed

lemma valid_update_copy:
  "valid_device bd \<Longrightarrow> valid_device (update_copy now action d bd)"
  by (simp add: valid_device_def update_copy_frame)

lemma UpdateBlockDevice_made:
  assumes "UpdateBlockDevice env u device duration action w = Some y"
  shows "reads_valid env infs \<longrightarrow> (\<forall>w'. y = Ret w' \<longrightarrow> made (allowed req ns node) w w')"
proof (rule UpdateBlockDevice.raw_induct [OF _ assms], goal_cases)
  case (1 rec env u device duration action w y)
  let ?w = "pause env duration w"
  have "made (allowed req ns node) w w'" if valid: "reads_valid env infs" and y: "y = Ret w'" for w'
  proof -
    have "made (allowed req ns node) w ?w" by (rule pause_made)
    also have "made (allowed req ns node) ?w w'"
    proof (cases "action \<noteq> ONLINE \<and> action \<noteq> OFFLINE")
      case True
      then show ?thesis using 1(2) y by (auto simp: Let_def split: outcome.splits)
    next
      case False
      then obtain d bd where
        d: "GetDiskByName (host_now env ?w) (c_BlockInfo (u_controller u)) (GetShortName device) = Ret d"
        and bd: "cache_get env (u_namespace u) (device_resource u device) ?w = Inr bd"
        using 1(2) y by (auto simp: Let_def split: outcome.splits sum.splits)
      let ?obj = "update_copy (e_stamp env (ext ?w)) action d bd"
      have "valid_device bd" using bd valid by (auto simp: reads_valid_def)
      then have ok: "allowed req ns node (CallUpdateStatus (bd_Namespace ?obj) ?obj)"
        by (simp add: valid_update_copy update_copy_frame)
      obtain r err w1 where u: "UpdateStatus env ?obj ?w = ((r, err), w1)" by (metis prod.exhaust)
      have first: "made (allowed req ns node) ?w w1"
        by (rule madeI [OF client_calls(3) [OF u]]) (simp add: ok del: allowed.simps)
      show ?thesis
      proof (cases "bd_Status bd = bd_Status ?obj")
        case True
        then show ?thesis using 1(2) d bd False y by (auto simp: Let_def)
      next
        case changed: False
        show ?thesis
        proof (cases err)
          case None
          then have "w1 = w'" using 1(2) d bd False changed u y by (auto simp: Let_def)
          with first show ?thesis by simp
        next
          case (Some e)
          then have "rec env u device (2 * duration) action w1 = Some (Ret w')"
            using 1(2) d bd False changed u y by (auto simp: Let_def)
          from 1(1) [OF this] valid have "made (allowed req ns node) w1 w'" by blast
          with first show ?thesis by (rule made_trans)
        qed
      qed
    qed
    finally show ?thesis .
  qed
  then show ?case by blast
qed


lemma add_loop_made:
  assumes "\<And>w w'. retry w = Some (Ret w') \<Longrightarrow> made (allowed req ns node) w w'"
    and "list_all (own_resource ns node) bds" and "list_all valid_device bdList"
    and "add_loop retry env bds bdList w = Some (Ret w')"
  shows "made (allowed req ns node) w w'"
  using assms(2,4)
proof (induction bds arbitrary: w)
  case (Cons bd bds)
  obtain err w1 where s: "SaveBlockDevice env bd bdList w = (err, w1)" by fastforce
  have "made (allowed req ns node) w w1"
    using SaveBlockDevice_udev [OF s] udev_save_allowed [OF _ assms(3)] Cons.prems(1) by (auto intro: madeI)
  also have "made (allowed req ns node) w1 w'"
  proof (cases err)
    case None
    then show ?thesis using Cons s by simp
  next
    case (Some e)
    then obtain w2 where "retry w1 = Some (Ret w2)" "add_loop retry env bds bdList w2 = Some (Ret w')"
      using Cons.prems(2) s by (auto split: option.splits outcome.splits)
    then show ?thesis using Cons.IH Cons.prems(1) assms(1) by (auto intro: made_trans)
  qed
  finally show ?case .
qed simp

lemma AddBlockDevice_made:
  assumes "reads_valid env infs"
  shows "AddBlockDevice n env u device duration w = Some (Ret w') \<Longrightarrow>
    made (allowed req (u_namespace u) (u_nodeName u)) w w'"
proof (induction n arbitrary: duration w w')
  case (Suc n)
  let ?P = "allowed req (u_namespace u) (u_nodeName u)" and ?w = "pause env duration w"
  let ?retry = "AddBlockDevice n env u device (2 * defaultDuration)"
  obtain bds where bds: "udev_resources env u device ?w = Ret bds"
    using Suc.prems by (cases "udev_resources env u device ?w") (auto simp: udev_resources_def Let_def)
  then have own: "list_all (own_resource (u_namespace u) (u_nodeName u)) bds"
    by (auto simp: udev_resources_def bind_outcome_Ret_iff dest: own_built)
  obtain bdList err where l: "cache_list env (u_namespace u) Everything ?w = (bdList, err)" by fastforce
  then have valid: "list_all valid_device bdList"
    using assms by (auto simp: reads_valid_def) (metis fst_conv)
  have loop: "made ?P w1 w'" if "add_loop ?retry env bds bdList w1 = Some (Ret w')" for w1
    by (rule add_loop_made [OF Suc.IH own valid that])
  have "made ?P w ?w" by (rule pause_made)
  also have "made ?P ?w w'"
  proof (cases err)
    case None
    then have "add_loop ?retry env bds bdList ?w = Some (Ret w')"
      using Suc.prems bds l by (simp add: udev_resources_def)
    then show ?thesis by (rule loop)
  next
    case (Some e)
    then obtain w1 where "AddBlockDevice n env u device (2 * duration) ?w = Some (Ret w1)"
      "add_loop ?retry env bds bdList w1 = Some (Ret w')"
      using Suc.prems bds l by (auto simp: udev_resources_def split: option.splits outcome.splits)
    then show ?thesis using Suc.IH loop by (blast intro: made_trans)
  qed
  finally show ?case .
qed simp

lemma ActionHandler_made:
  assumes "reads_valid env infs" and "ActionHandler n env u event w = Some (Ret w')"
  shows "made (allowed req (u_namespace u) (u_nodeName u)) w w'"
proof -
  have update: "made (allowed req (u_namespace u) (u_nodeName u)) w w'"
    if "UpdateBlockDevice env u device duration action w = Some (Ret w')" for device duration action
    using UpdateBlockDevice_made [OF that] assms(1) by blast
  show ?thesis
    using assms(2)
    by (auto simp: ActionHandler_def Let_def simp del: AddBlockDevice.simps split: if_splits
        intro: AddBlockDevice_made [OF assms(1)] RemoveBlockDevice_made update)
qed

section \<open>Every step and every reachable state\<close>

lemma daemon_step_made:
  assumes "reads_valid env infs"
    and "installed env hs = (block_device_handlers env c name, node_handlers env nc nname)"
    and "c_namespace c = ns" and "nc_namespace nc = ns" and "u_namespace u = ns" and "u_nodeName u = node"
    and "daemon_step env infs hs u d d'"
  shows "made (allowed (requests infs) ns node) (d_world d) (d_world d')"
  using assms(7)
proof (cases rule: daemon_stepE)
  case (device_handled j key err q w')
  have "made (allowed (requests infs) (c_namespace c) node) (d_world d) w'"
  proof (rule item_made [OF device_handled(3) [unfolded assms(2) fst_conv] block_device_handlers_entries,
        where ?ok1.0 = "read_object (requests infs)" and ok = valid_object])
    fix e obj w r err w'
    assume "e \<in> set [\<lparr>he_id = 2, he_name = name, he_handler = block_device_remover env c name\<rparr>]"
      "valid_object obj" "he_handler e key obj w = Ret ((r, err), w')"
    then show "made (allowed (requests infs) (c_namespace c) node) w w' \<and> passes_on (block_device_kind env) valid_object r"
      using remover_made [OF assms(1)] by simp
  next
    fix bd assume bd: "inf_devices infs key (ext (d_world d)) = Some bd"
    then have "valid_device bd" using assms(1) by (auto simp: reads_valid_def pred_option_def)
    then show "read_object (requests infs) (Object (Some bd))"
      using bd by (auto simp: read_object_def requests_def)
  qed (use change_handler_made [OF assms(1)] in \<open>auto simp: read_object_def\<close>)
  then show ?thesis using device_handled(1) assms(3) by simp
next
  case (node_handled j key err q w')
  have "made (allowed (requests infs) (nc_namespace nc) node) (d_world d) w'"
    by (rule item_made [OF node_handled(3) [unfolded assms(2) snd_conv] node_handlers_entries,
          where ?ok1.0 = "\<lambda>_. True" and ok = "\<lambda>_. True"])
      (use node_remover_made in \<open>auto simp: passes_on_def\<close>)
  then show ?thesis using node_handled(1) assms(4) by simp
next
  case (uevent n event w')
  then show ?thesis using ActionHandler_made [OF assms(1)] assms(5,6) by fastforce
next
  case (elsewhere s)
  then show ?thesis by (simp add: made_def)
qed simp_all

lemma reachable_made:
  assumes "reads_valid env infs" and "reachable env infs opt hs u d"
  shows "(\<exists>c nc. installed env hs = (block_device_handlers env c blockDeviceHandlerName,
          node_handlers env nc blockDeviceNodeHandlerName)
        \<and> c_namespace c = opt_Namespace opt \<and> nc_namespace nc = opt_Namespace opt
        \<and> u_namespace u = opt_Namespace opt \<and> u_nodeName u = opt_NodeName opt)
    \<and> list_all (allowed (requests infs) (opt_Namespace opt) (opt_NodeName opt)) (calls (d_world d))"
  using assms(2)
proof induction
  case (serve ctx ghwSetup clientConfig factory leads startAll w0 w)
  obtain c nc where served: "installed env hs = (block_device_handlers env c blockDeviceHandlerName,
      node_handlers env nc blockDeviceNodeHandlerName)"
    "c_namespace c = opt_Namespace opt" "c_nodeName c = opt_NodeName opt" "nc_namespace nc = opt_Namespace opt"
    "u_namespace u = opt_Namespace opt" "u_nodeName u = opt_NodeName opt"
    and reg: "RegisterNodeBlockDevices env c w0 = Ret (None, w)"
    using served_handlers [OF serve(1)] by blast
  have "made (allowed (requests infs) (opt_Namespace opt) (opt_NodeName opt)) w0 w"
    using register_made [OF assms(1) reg] served by simp
  then show ?case using served serve(2) made_end by fastforce
next
  case (step d d')
  then obtain c nc where served: "installed env hs = (block_device_handlers env c blockDeviceHandlerName,
      node_handlers env nc blockDeviceNodeHandlerName)"
    "c_namespace c = opt_Namespace opt" "nc_namespace nc = opt_Namespace opt"
    "u_namespace u = opt_Namespace opt" "u_nodeName u = opt_NodeName opt"
    and before: "list_all (allowed (requests infs) (opt_Namespace opt) (opt_NodeName opt)) (calls (d_world d))" by blast
  have "list_all (allowed (requests infs) (opt_Namespace opt) (opt_NodeName opt)) (calls (d_world d'))"
    by (rule made_end [OF daemon_step_made [OF assms(1) served step(2)] before])
  with served show ?case by blast
qed

text \<open>C2: whatever events a daemon handles after it has started to serve, every call that it has made
  is allowed. It creates only valid, active resources of its own node in its own namespace; it
  updates a resource only to one that passes the validation of the schema, given that what it
  reads does; a status update sets the state to Active or Inactive; it deletes in its own
  namespace only; it mounts ext4 only, with its fixed flags and options, and only a device
  on a directory for which a resource of the informer asks that is not being deleted and whose
  file system is not recorded as valid; it never creates or deletes a node; and it never sleeps for the default duration
  or less.\<close>

theorem reachable_calls_allowed:
  assumes "reads_valid env infs" and "reachable env infs opt hs u d"
  shows "list_all (allowed (requests infs) (opt_Namespace opt) (opt_NodeName opt)) (calls (d_world d))"
  using reachable_made [OF assms] by blast

text \<open>A daemon on the small machine: it has served, an event for the disk came, and the disk was handled.\<close>

definition demo_informers :: "bool informers" where
  "demo_informers = \<lparr>inf_devices = (\<lambda>key s. if key = ''ns/sda-n1'' then Some demo_device else None), inf_nodes = (\<lambda>key s. None)\<rparr>"

definition demo_served :: "bool world" where
  "demo_served = (case demo_start of Ret (Serving hs u, w) \<Rightarrow> w | _ \<Rightarrow> demo_world)"

definition demo_handlers :: "registration list" where
  "demo_handlers = (case demo_start of Ret (Serving hs u, w) \<Rightarrow> hs | _ \<Rightarrow> [])"

definition demo_udev :: Udev where
  "demo_udev = (case demo_start of Ret (Serving hs u, w) \<Rightarrow> u | _ \<Rightarrow> demo_monitor)"

definition demo_queued :: "string workers" where
  "demo_queued = the (exec_events [Added ''ns/sda-n1'', Got 0 ''ns/sda-n1''] idle_workers)"

definition demo_item :: "(shared_error option \<times> string work_queue \<times> bool world) outcome" where
  "demo_item = processSingleItem (block_device_kind (demo_env [])) (fst (installed (demo_env []) demo_handlers))
     (inf_devices demo_informers) ''ns/sda-n1'' (ws_queue demo_queued) demo_served"

definition demo_changed :: "bool daemon" where
  "demo_changed = (case demo_item of
       Ret (err, q, w) \<Rightarrow> \<lparr>d_world = w, d_devices = \<lparr>ws_queue = q, ws_busy = (ws_busy demo_queued)(0 := None)\<rparr>,
         d_nodes = idle_workers\<rparr>
     | Panic e \<Rightarrow> \<lparr>d_world = demo_served, d_devices = idle_workers, d_nodes = idle_workers\<rparr>)"

lemma demo_reachable: "reachable (demo_env []) demo_informers demo_options demo_handlers demo_udev demo_changed"
proof -
  let ?reachable = "reachable (demo_env []) demo_informers demo_options demo_handlers demo_udev"
  let ?d = "\<lambda>q. \<lparr>d_world = demo_served, d_devices = q, d_nodes = idle_workers\<rparr>"
  have "case demo_start of Ret (Serving hs u, w) \<Rightarrow> True | _ \<Rightarrow> False" by code_simp
  then obtain hs u w where eq: "demo_start = Ret (Serving hs u, w)"
    by (auto split: outcome.splits run_result.splits)
  have run: "demo_start = Ret (Serving demo_handlers demo_udev, demo_served)"
    unfolding demo_handlers_def demo_udev_def demo_served_def eq by simp
  have start: "?reachable (?d idle_workers)"
    by (rule reachable.serve [OF run [unfolded demo_start_def]]) (simp add: demo_world_def)
  have queued: "?reachable (?d q')" if "?reachable (?d q)" "exec_event e q = Some q'" "\<not> ends_run e" for q q' e
    using reachable.step [OF that(1) daemon_step.device_queue [of "?d q" e q']] that(2,3) by (simp add: queue_step_exec)
  have "exec_events [Added ''ns/sda-n1'', Got 0 ''ns/sda-n1''] idle_workers \<noteq> None" by code_simp
  then obtain q1 where "exec_event (Added ''ns/sda-n1'') idle_workers = Some q1"
    "exec_event (Got 0 ''ns/sda-n1'') q1 = Some demo_queued"
    by (auto simp: demo_queued_def split: option.splits simp del: exec_event.simps)
  then have "?reachable (?d demo_queued)"
    using queued [OF queued [OF start]] by (simp add: ends_run_def del: exec_event.simps)
  moreover have "daemon_step (demo_env []) demo_informers demo_handlers demo_udev (?d demo_queued) demo_changed"
  proof -
    have "case demo_item of Ret r \<Rightarrow> True | Panic e \<Rightarrow> False" by code_simp
    then obtain err q w where item: "demo_item = Ret (err, q, w)" by (auto split: outcome.splits)
    have "ws_busy demo_queued 0 = Some ''ns/sda-n1''" by code_simp
    then have "daemon_step (demo_env []) demo_informers demo_handlers demo_udev (?d demo_queued)
        ((?d demo_queued)\<lparr>d_world := w, d_devices := \<lparr>ws_queue = q, ws_busy = (ws_busy (d_devices (?d demo_queued)))(0 := None)\<rparr>\<rparr>)"
      using item by (intro daemon_step.device_handled [where key = "''ns/sda-n1''" and err = err]) (simp_all add: demo_item_def)
    then show ?thesis by (simp add: demo_changed_def item)
  qed
  ultimately show ?thesis by (rule reachable.step)
qed

theorem reachable_calls_allowed_witness:
  "list_all (allowed (requests demo_informers) ''ns'' ''n1'') (calls (d_world demo_changed))
    \<and> mount_call ''/dev/sda'' ''/data/'' \<in> set (calls (d_world demo_changed))"
proof
  have "valid_device demo_device" by code_simp
  then have "reads_valid (demo_env []) demo_informers"
    by (simp add: reads_valid_def demo_env_def BlockDeviceCache_Get_def BlockDeviceCache_List_def demo_informers_def
        empty_cache_def store_Get_def store_List_def store_ByIndex_def append_matching_def index_keys_def)
  from reachable_calls_allowed [OF this demo_reachable]
  show "list_all (allowed (requests demo_informers) ''ns'' ''n1'') (calls (d_world demo_changed))"
    by (simp add: demo_options_def)
  show "mount_call ''/dev/sda'' ''/data/'' \<in> set (calls (d_world demo_changed))" by code_simp
qed


section \<open>The queues of the daemon\<close>

text \<open>The daemon refines the two queues: its steps are steps of a queue, or leave it alone.\<close>

lemma item_queue:
  "processSingleItem kind h getByKey key q w = Ret (err, q', w') \<Longrightarrow> q' = wq_finish key (err \<noteq> None) q"
  by (auto simp: processSingleItem_def bind_outcome_Ret_iff)

lemma daemon_step_queues:
  assumes "daemon_step env infs hs u d d'"
  shows "(\<exists>es. queue_run (d_devices d) es (d_devices d')) \<and> (\<exists>es. queue_run (d_nodes d) es (d_nodes d'))"
proof -
  have one: "\<exists>es. queue_run q es q'" if "queue_step q e q'" for q q' :: "string workers" and e
    using queue_run.snoc [OF queue_run.nil that] by blast
  have same: "\<exists>es. queue_run q es q" for q :: "string workers"
    using queue_run.nil by blast
  have ended: "queue_step q (Finished j key (err \<noteq> None)) \<lparr>ws_queue = q', ws_busy = (ws_busy q)(j := None)\<rparr>"
    if "ws_busy q j = Some key" "q' = wq_finish key (err \<noteq> None) (ws_queue q)"
    for q :: "string workers" and j key q' and err :: "shared_error option"
  proof -
    have "\<lparr>ws_queue = q', ws_busy = (ws_busy q)(j := None)\<rparr> = q\<lparr>ws_queue := q', ws_busy := (ws_busy q)(j := None)\<rparr>"
      by simp
    then show ?thesis using queue_step.finished [OF that(1), of "err \<noteq> None"] by (simp only: that(2))
  qed
  show ?thesis
    using assms
  proof (cases rule: daemon_stepE)
    case (device_handled j key err q w')
    then show ?thesis using one [OF ended [OF device_handled(2) item_queue [OF device_handled(3)]]] same by simp
  next
    case (node_handled j key err q w')
    then show ?thesis using one [OF ended [OF node_handled(2) item_queue [OF node_handled(3)]]] same by simp
  qed (auto intro: one same)
qed

lemma reachable_queues:
  assumes "reachable env infs opt hs u d"
  shows "(\<exists>es. queue_run idle_workers es (d_devices d)) \<and> (\<exists>es. queue_run idle_workers es (d_nodes d))"
  using assms
proof induction
  case (step d d')
  then show ?case using daemon_step_queues [OF step(2)] by (blast intro: run_append)
qed (auto intro: queue_run.nil)

text \<open>C6: in every reachable state of the daemon no two workers run the handlers of the same block
  device, nor of the same node, and a key that is in process is not at the same time in the
  queue for another worker.\<close>

theorem daemon_refines_queues:
  assumes "reachable env infs opt hs u d" and "q \<in> {d_devices d, d_nodes d}"
  shows "(\<exists>es. queue_run idle_workers es q)
    \<and> (\<forall>i j k. ws_busy q i = Some k \<and> ws_busy q j = Some k \<longrightarrow> i = j)
    \<and> (\<forall>i k. ws_busy q i = Some k \<longrightarrow> k \<notin> set (wq_queue (ws_queue q)))"
proof -
  obtain es where run: "queue_run idle_workers es q"
    using reachable_queues [OF assms(1)] assms(2) by blast
  with queue_run_ok [OF run idle_ok] show ?thesis
    by (auto simp: workers_ok_def)
qed

theorem daemon_refines_queues_witness:
  "\<exists>es. queue_run idle_workers es (d_devices demo_changed)"
  using daemon_refines_queues [OF demo_reachable, of "d_devices demo_changed"] by blast


section \<open>Devices of other nodes\<close>

text \<open>The change handler does not look at the node of the device: for a device of another node
  that is to be mounted it makes the directory and mounts the device path on its own host.\<close>

lemma OnBlockDeviceChange_other_node:
  assumes "spec_NodeName (bd_Spec device) \<noteq> c_nodeName c"
    and "om_DeletionTimestamp (bd_ObjectMeta device) = None" and "fi_MountPoint (fs_spec device) \<noteq> []"
    and "\<not> snd (isValidFileSystem (fs_spec device) (fs_status device))"
    and "\<And>e. host_stat (host_now env w) (fi_MountPoint (fs_spec device)) \<noteq> StatFails e"
    and "fst (e_Mkdir env (fi_MountPoint (fs_spec device)) ModeDir (ext w)) = None"
    and "OnBlockDeviceChange env c key (Some device) w = Ret (r, w')"
  shows "mount_call (spec_DevPath (bd_Spec device)) (fi_MountPoint (fs_spec device)) \<in> set (new_calls w w')"
proof -
  let ?dev = "spec_DevPath (bd_Spec device)" and ?mp = "fi_MountPoint (fs_spec device)"
  have wants: "wants_mount device" and invalid: "\<not> fs_valid device"
    using assms(2-4) by (simp_all add: wants_mount_def fs_valid_def)
  obtain err w1 where m: "mountDevice env ?dev ?mp w = (err, w1)" by fastforce
  have "\<exists>pre. calls w1 = calls w @ pre @ [mount_call ?dev ?mp]"
    using m assms(5,6)
    by (auto simp: mountDevice_def Mkdir_def after_call_def split: file_stat.splits option.splits prod.splits
        dest!: client_calls(7))
  moreover have "\<exists>rest. calls w' = calls w1 @ rest"
    using assms(7) m
    by (auto simp: OnBlockDeviceChange_mount [OF wants invalid] bind_outcome_Ret_iff
        split: option.splits prod.splits dest!: client_calls(2) finish_change_calls)
  ultimately show ?thesis by (auto simp: new_calls_def)
qed

end
