(* ===== verification/Generated.thy ===== *)
theory Generated
  imports Shared_Handler
begin

text \<open>
  The rest of the generated controllers (\<open>pkg/generated/controllers/longhorn.io\<close>) and the shared
  controllers behind them: how a controller is made for a kind of resource, the keys that it puts into its queue, its
  indexers, and the handlers that the generator offers for changes of a copy, of the status
  and of generated objects. The program itself registers only the handlers of theory
  \<open>Shared_Handler\<close>; what is modelled here is offered to it by the same interface.
\<close>

section \<open>Keys\<close>

definition keyFunc :: "string \<Rightarrow> string \<Rightarrow> string" where
  "keyFunc namespace name = (if namespace = [] then name else namespace @ ''/'' @ name)"

text \<open>
  A controller before and after its queue exists: keys that come before it is started wait in
  \<open>startKeys\<close> with their delays.
\<close>

record key_source =
  ks_startKeys :: "(string \<times> 64 word) list"
  ks_queue :: "string work_queue option"

definition wq_AddAfter :: "'k \<Rightarrow> 64 word \<Rightarrow> 'k work_queue \<Rightarrow> 'k work_queue" where
  "wq_AddAfter item duration q =
     (if wq_shuttingDown q then q
      else if duration \<le>s 0 then wq_Add item q
      else q\<lparr>wq_waiting := insert item (wq_waiting q)\<rparr>)"

definition controller_Enqueue :: "string \<Rightarrow> string \<Rightarrow> key_source \<Rightarrow> key_source" where
  "controller_Enqueue namespace name c =
     (let key = keyFunc namespace name
      in case ks_queue c of
           None \<Rightarrow> c\<lparr>ks_startKeys := ks_startKeys c @ [(key, 0)]\<rparr>
         | Some q \<Rightarrow> c\<lparr>ks_queue := Some (wq_AddRateLimited key q)\<rparr>)"

definition controller_EnqueueAfter :: "string \<Rightarrow> string \<Rightarrow> 64 word \<Rightarrow> key_source \<Rightarrow> key_source" where
  "controller_EnqueueAfter namespace name duration c =
     (let key = keyFunc namespace name
      in case ks_queue c of
           None \<Rightarrow> c\<lparr>ks_startKeys := ks_startKeys c @ [(key, duration)]\<rparr>
         | Some q \<Rightarrow> c\<lparr>ks_queue := Some (wq_AddAfter key duration q)\<rparr>)"

text \<open>\<open>MetaNamespaceKeyFunc\<close> for any kind; \<open>meta\<close> is the metadata of a resource of the kind.\<close>

definition object_key :: "('o \<Rightarrow> ObjectMeta) \<Rightarrow> 'o \<Rightarrow> string" where
  "object_key meta x = keyFunc (om_Namespace (meta x)) (om_Name (meta x))"

text \<open>What the informer calls for a resource that was added, updated or deleted.\<close>

definition handleObject :: "('o \<Rightarrow> ObjectMeta) \<Rightarrow> 'o \<Rightarrow> key_source \<Rightarrow> key_source" where
  "handleObject meta x c =
     (let key = object_key meta x
      in case ks_queue c of
           None \<Rightarrow> c\<lparr>ks_startKeys := ks_startKeys c @ [(key, 0)]\<rparr>
         | Some q \<Rightarrow> c\<lparr>ks_queue := Some (wq_Add key q)\<rparr>)"

definition controller_start :: "key_source \<Rightarrow> key_source" where
  "controller_start c =
     c\<lparr> ks_startKeys := [],
        ks_queue := Some (fold (\<lambda>(key, after) q. if after = 0 then wq_Add key q else wq_AddAfter key after q)
          (ks_startKeys c) new_queue) \<rparr>"

text \<open>\<open>EnqueueKey\<close> adds a key as it is.\<close>

definition controller_EnqueueKey :: "string \<Rightarrow> key_source \<Rightarrow> key_source" where
  "controller_EnqueueKey key c =
     (case ks_queue c of
        None \<Rightarrow> c\<lparr>ks_startKeys := ks_startKeys c @ [(key, 0)]\<rparr>
      | Some q \<Rightarrow> c\<lparr>ks_queue := Some (wq_Add key q)\<rparr>)"

section \<open>Shared controllers\<close>

text \<open>
  The factory of the library has one shared controller per resource
  (\<open>vendor/github.com/rancher/lasso/pkg/controller/sharedcontrollerfactory.go\<close> and
  \<open>sharedcontroller.go\<close>). It makes the controller behind it when that is first needed; a failure
  then leaves one that does nothing, and shows when the controllers are started.
\<close>

record GroupVersionResource =
  gvr_Group :: string
  gvr_Version :: string
  gvr_Resource :: string

datatype lasso_controller = Working key_source | ErrorController

record ('o, 'w) sharedController =
  sc_kind :: string
  sc_namespaced :: bool
  sc_handler :: "('o, 'w) SharedHandler"
  sc_controller :: "lasso_controller option"
  sc_startError :: "go_error option"
  sc_started :: bool

type_synonym ('o, 'w) controllers = "GroupVersionResource \<rightharpoonup> ('o, 'w) sharedController"

definition ForResourceKind ::
    "GroupVersionResource \<Rightarrow> string \<Rightarrow> bool \<Rightarrow> ('o, 'w) controllers \<Rightarrow> ('o, 'w) controllers" where
  "ForResourceKind gvr kind namespaced cs =
     (case cs gvr of
        Some c \<Rightarrow> cs
      | None \<Rightarrow> cs(gvr \<mapsto> \<lparr> sc_kind = kind, sc_namespaced = namespaced, sc_handler = new_shared_handler,
                          sc_controller = None, sc_startError = None, sc_started = False \<rparr>))"

text \<open>\<open>deferred\<close> is the error of making the controller, if there is one.\<close>

definition initController :: "go_error option \<Rightarrow> ('o, 'w) sharedController \<Rightarrow> ('o, 'w) sharedController" where
  "initController deferred c =
     (case sc_controller c of
        Some k \<Rightarrow> c
      | None \<Rightarrow>
          c\<lparr> sc_startError := deferred,
             sc_controller := Some (if deferred \<noteq> None then ErrorController
               else Working \<lparr>ks_startKeys = [], ks_queue = None\<rparr>) \<rparr>)"

text \<open>
  A handler that is registered after the start makes every key of the store (\<open>ListKeys\<close>) come
  again; the contexts of this program carry no transaction.
\<close>

definition RegisterHandler ::
    "go_error option \<Rightarrow> string list \<Rightarrow> string \<Rightarrow> ('o, 'w) generic_handler \<Rightarrow> ('o, 'w) sharedController \<Rightarrow>
     ('o, 'w) sharedController" where
  "RegisterHandler deferred ListKeys name handler c =
     (let c = initController deferred c;
          c = c\<lparr>sc_handler := SharedHandler_Register name handler (sc_handler c)\<rparr>
      in if sc_started c
         then (case sc_controller c of
                 Some (Working ks) \<Rightarrow> c\<lparr>sc_controller := Some (Working (fold controller_EnqueueKey ListKeys ks))\<rparr>
               | _ \<Rightarrow> c)
         else c)"

text \<open>\<open>startCache\<close> is the result of starting the cache and waiting for it to be in sync.\<close>

definition sharedController_Start ::
    "go_error option \<Rightarrow> ('o, 'w) sharedController \<Rightarrow> ('o, 'w) sharedController \<times> go_error option" where
  "sharedController_Start startCache c =
     (case sc_controller c of
        None \<Rightarrow> (c, sc_startError c)
      | Some k \<Rightarrow>
          if sc_startError c \<noteq> None then (c, sc_startError c)
          else case k of
                 ErrorController \<Rightarrow> (c\<lparr>sc_started := True\<rparr>, None)
               | Working ks \<Rightarrow>
                   if ks_queue ks \<noteq> None then (c\<lparr>sc_started := True\<rparr>, None)
                   else (case startCache of
                           Some e \<Rightarrow> (c, Some e)
                         | None \<Rightarrow> (c\<lparr>sc_controller := Some (Working (controller_start ks)), sc_started := True\<rparr>, None)))"

text \<open>
  How many workers a controller gets, by the kind of its resource; \<open>gvk\<close> is the kind or the
  error of looking it up, and a resource without a kind gets what was asked for.
\<close>

definition getWorkers ::
    "(GroupVersionKind \<rightharpoonup> int) \<Rightarrow> int \<Rightarrow> (go_error \<Rightarrow> bool) \<Rightarrow> go_error + GroupVersionKind \<Rightarrow> int \<Rightarrow>
     int \<times> go_error option" where
  "getWorkers kindWorkers defaultWorkers IsNoMatchError gvk workers =
     (case gvk of
        Inl err \<Rightarrow> if IsNoMatchError err then (workers, None) else (0, Some err)
      | Inr k \<Rightarrow>
          (case kindWorkers k of
             Some n \<Rightarrow> (n, None)
           | None \<Rightarrow> if 0 < workers then (workers, None) else (defaultWorkers, None)))"

text \<open>With the options of this program, which asks for none of its own, a known kind has at least one worker.\<close>

lemma getWorkers_some: "\<exists>n > 0. getWorkers Map.empty 5 noMatch (Inr k) workers = (n, None)"
  by (simp add: getWorkers_def)

text \<open>The controllers of the factory, for the two types of resources of this program.\<close>

record 'w controllerFactory =
  cf_devices :: "(BlockDevice, 'w) controllers"
  cf_nodes :: "(Node, 'w) controllers"

definition new_factory :: "'w controllerFactory" where
  "new_factory = \<lparr> cf_devices = Map.empty, cf_nodes = Map.empty \<rparr>"

section \<open>Controllers of the two kinds\<close>

text \<open>\<open>rc_controller\<close> says which shared controller of the factory the generated controller holds.\<close>

record resource_controller =
  rc_gvk :: GroupVersionKind
  rc_groupResource :: "string \<times> string"
  rc_controller :: GroupVersionResource

definition WithResource :: "GroupVersionKind \<Rightarrow> string \<Rightarrow> GroupVersionResource" where
  "WithResource gvk resource =
     \<lparr> gvr_Group = gvk_Group gvk, gvr_Version = gvk_Version gvk, gvr_Resource = resource \<rparr>"

definition NewBlockDeviceController ::
    "GroupVersionKind \<Rightarrow> string \<Rightarrow> bool \<Rightarrow> 'w controllerFactory \<Rightarrow> resource_controller \<times> 'w controllerFactory" where
  "NewBlockDeviceController gvk resource namespaced f =
     (let c = WithResource gvk resource;
          f = f\<lparr>cf_devices := ForResourceKind c (gvk_Kind gvk) namespaced (cf_devices f)\<rparr>
      in (\<lparr> rc_gvk = gvk, rc_groupResource = (gvk_Group gvk, resource), rc_controller = c \<rparr>, f))"

definition NewNodeController ::
    "GroupVersionKind \<Rightarrow> string \<Rightarrow> bool \<Rightarrow> 'w controllerFactory \<Rightarrow> resource_controller \<times> 'w controllerFactory" where
  "NewNodeController gvk resource namespaced f =
     (let c = WithResource gvk resource;
          f = f\<lparr>cf_nodes := ForResourceKind c (gvk_Kind gvk) namespaced (cf_nodes f)\<rparr>
      in (\<lparr> rc_gvk = gvk, rc_groupResource = (gvk_Group gvk, resource), rc_controller = c \<rparr>, f))"

definition version_BlockDevice :: "'w controllerFactory \<Rightarrow> resource_controller \<times> 'w controllerFactory" where
  "version_BlockDevice = NewBlockDeviceController
     \<lparr>gvk_Group = ''longhorn.io'', gvk_Version = ''v1beta1'', gvk_Kind = ''BlockDevice''\<rparr> ''blockdevices'' True"

definition version_Node :: "'w controllerFactory \<Rightarrow> resource_controller \<times> 'w controllerFactory" where
  "version_Node = NewNodeController
     \<lparr>gvk_Group = ''longhorn.io'', gvk_Version = ''v1beta1'', gvk_Kind = ''Node''\<rparr> ''nodes'' True"

definition BlockDevice_GroupVersionKind :: "resource_controller \<Rightarrow> GroupVersionKind" where
  "BlockDevice_GroupVersionKind c = rc_gvk c"

definition Node_GroupVersionKind :: "resource_controller \<Rightarrow> GroupVersionKind" where
  "Node_GroupVersionKind c = rc_gvk c"

text \<open>A change of the shared controller that a generated controller holds.\<close>

definition on_devices ::
    "resource_controller \<Rightarrow> ((BlockDevice, 'w) sharedController \<Rightarrow> (BlockDevice, 'w) sharedController) \<Rightarrow>
     'w controllerFactory \<Rightarrow> 'w controllerFactory" where
  "on_devices c g f = f\<lparr>cf_devices := (cf_devices f)(rc_controller c := map_option g (cf_devices f (rc_controller c)))\<rparr>"

definition on_nodes ::
    "resource_controller \<Rightarrow> ((Node, 'w) sharedController \<Rightarrow> (Node, 'w) sharedController) \<Rightarrow>
     'w controllerFactory \<Rightarrow> 'w controllerFactory" where
  "on_nodes c g f = f\<lparr>cf_nodes := (cf_nodes f)(rc_controller c := map_option g (cf_nodes f (rc_controller c)))\<rparr>"

text \<open>\<open>Informer\<close> makes the shared controller if there is none yet, and \<open>Cache\<close> needs the informer.\<close>

definition BlockDevice_Informer :: "go_error option \<Rightarrow> resource_controller \<Rightarrow> 'w controllerFactory \<Rightarrow> 'w controllerFactory" where
  "BlockDevice_Informer deferred c = on_devices c (initController deferred)"

definition BlockDevice_Cache :: "go_error option \<Rightarrow> resource_controller \<Rightarrow> 'w controllerFactory \<Rightarrow> 'w controllerFactory" where
  "BlockDevice_Cache deferred c = BlockDevice_Informer deferred c"

definition Node_Informer :: "go_error option \<Rightarrow> resource_controller \<Rightarrow> 'w controllerFactory \<Rightarrow> 'w controllerFactory" where
  "Node_Informer deferred c = on_nodes c (initController deferred)"

definition Node_Cache :: "go_error option \<Rightarrow> resource_controller \<Rightarrow> 'w controllerFactory \<Rightarrow> 'w controllerFactory" where
  "Node_Cache deferred c = Node_Informer deferred c"

text \<open>
  The scheme, as the kinds that it knows, in the order in which they are added; the kinds that
  \<open>metav1.AddToGroupVersion\<close> adds to every group are the argument \<open>common\<close>.
\<close>

definition addKnownTypes :: "GroupVersionKind list \<Rightarrow> GroupVersionKind list \<Rightarrow> GroupVersionKind list" where
  "addKnownTypes common scheme =
     scheme @ map with_kind [''BlockDevice'', ''BlockDeviceList'', ''Node'', ''NodeList''] @ common"

text \<open>
  A builder is a list of functions that add to a scheme; the first error ends the adding. When
  the generated package is loaded, it registers its builder with the library, which keeps the
  functions of all packages and applies each to the common scheme.
\<close>

type_synonym 's scheme_function = "'s \<Rightarrow> go_error option \<times> 's"

fun SchemeBuilder_AddToScheme :: "'s scheme_function list \<Rightarrow> 's scheme_function" where
  "SchemeBuilder_AddToScheme [] s = (None, s)"
| "SchemeBuilder_AddToScheme (f # fs) s =
     (case f s of (Some err, s) \<Rightarrow> (Some err, s) | (None, s) \<Rightarrow> SchemeBuilder_AddToScheme fs s)"

definition SchemeBuilder :: "GroupVersionKind list \<Rightarrow> GroupVersionKind list scheme_function list" where
  "SchemeBuilder common = [\<lambda>scheme. (None, addKnownTypes common scheme)]"

definition AddToScheme :: "GroupVersionKind list \<Rightarrow> GroupVersionKind list scheme_function" where
  "AddToScheme common = SchemeBuilder_AddToScheme (SchemeBuilder common)"

definition schemes_Register ::
    "'s scheme_function \<Rightarrow> 's scheme_function list \<times> 's \<Rightarrow> go_error option \<times> ('s scheme_function list \<times> 's)" where
  "schemes_Register addToScheme schemes =
     (let (localSchemeBuilder, every) = schemes;
          (err, every) = addToScheme every
      in (err, localSchemeBuilder @ [addToScheme], every))"

definition init_v1beta1 ::
    "GroupVersionKind list \<Rightarrow> GroupVersionKind list scheme_function list \<times> GroupVersionKind list \<Rightarrow>
     GroupVersionKind list scheme_function list \<times> GroupVersionKind list" where
  "init_v1beta1 common schemes = snd (schemes_Register (AddToScheme common) schemes)"

lemma SchemeBuilder_AddToScheme_append:
  "SchemeBuilder_AddToScheme (fs @ gs) s =
     (case SchemeBuilder_AddToScheme fs s of (Some err, s) \<Rightarrow> (Some err, s) | (None, s) \<Rightarrow> SchemeBuilder_AddToScheme gs s)"
  by (induction fs arbitrary: s) (auto split: option.splits prod.splits)

text \<open>Once the package is loaded, the common scheme, and every scheme that is built later without an error, knows its kinds.\<close>

lemma init_v1beta1_kinds:
  assumes "init_v1beta1 common (fs, every) = (fs', every')"
    and "SchemeBuilder_AddToScheme fs' s = (None, s')"
    and "k \<in> {''BlockDevice'', ''BlockDeviceList'', ''Node'', ''NodeList''}"
  shows "with_kind k \<in> set every' \<and> with_kind k \<in> set s'"
  using assms
  by (auto simp: init_v1beta1_def schemes_Register_def AddToScheme_def SchemeBuilder_def addKnownTypes_def
      SchemeBuilder_AddToScheme_append split: option.splits prod.splits)

section \<open>Keys of the two kinds\<close>

definition BlockDevice_Enqueue :: "string \<Rightarrow> string \<Rightarrow> key_source \<Rightarrow> key_source" where
  "BlockDevice_Enqueue = controller_Enqueue"

definition BlockDevice_EnqueueAfter :: "string \<Rightarrow> string \<Rightarrow> 64 word \<Rightarrow> key_source \<Rightarrow> key_source" where
  "BlockDevice_EnqueueAfter = controller_EnqueueAfter"

definition Node_Enqueue :: "string \<Rightarrow> string \<Rightarrow> key_source \<Rightarrow> key_source" where
  "Node_Enqueue = controller_Enqueue"

definition Node_EnqueueAfter :: "string \<Rightarrow> string \<Rightarrow> 64 word \<Rightarrow> key_source \<Rightarrow> key_source" where
  "Node_EnqueueAfter = controller_EnqueueAfter"

section \<open>Indexers\<close>

definition store_AddIndexers :: "(string \<times> ('a \<Rightarrow> string list)) list \<Rightarrow> 'a store \<Rightarrow> 'a store \<times> go_error option" where
  "store_AddIndexers new c =
     (if items c \<noteq> [] then (c, Some (PlainError ''cannot add indexers to running index''))
      else if \<exists>name \<in> fst ` set new. name \<in> fst ` set (indexers c)
      then (c, Some (PlainError ''indexer conflict''))
      else (c\<lparr>indexers := indexers c @ new\<rparr>, None))"

text \<open>
  \<open>utilruntime.Must\<close> panics. An indexer that returns an error makes the store panic later; here
  an indexer is a function without errors.
\<close>

definition BlockDeviceCache_AddIndexer ::
    "string \<Rightarrow> (BlockDevice \<Rightarrow> string list) \<Rightarrow> bd_store \<Rightarrow> bd_store outcome" where
  "BlockDeviceCache_AddIndexer indexName indexer c =
     (case store_AddIndexers [(indexName, indexer)] c of
        (c', None) \<Rightarrow> Ret c'
      | (c', Some err) \<Rightarrow> Panic (Error err))"

definition BlockDeviceCache_GetByIndex :: "bd_store \<Rightarrow> string \<Rightarrow> string \<Rightarrow> string + BlockDevice list" where
  "BlockDeviceCache_GetByIndex c indexName key =
     (case store_ByIndex c indexName key of Inl err \<Rightarrow> Inl err | Inr objs \<Rightarrow> Inr objs)"

section \<open>Changing a copy\<close>

text \<open>\<open>equality.Semantic\<close> takes a nil map and an empty map for equal.\<close>

definition semantic_labels :: "labels option \<Rightarrow> labels option" where
  "semantic_labels ls = (case ls of None \<Rightarrow> None | Some m \<Rightarrow> if m = Mapping.empty then None else Some m)"

definition semantic_meta :: "ObjectMeta \<Rightarrow> ObjectMeta" where
  "semantic_meta m = m\<lparr>om_Labels := semantic_labels (om_Labels m)\<rparr>"

definition semantic_equal :: "BlockDevice \<Rightarrow> BlockDevice \<Rightarrow> bool" where
  "semantic_equal a b \<longleftrightarrow>
     a\<lparr>bd_ObjectMeta := semantic_meta (bd_ObjectMeta a)\<rparr> = b\<lparr>bd_ObjectMeta := semantic_meta (bd_ObjectMeta b)\<rparr>"

text \<open>
  The handler gets a copy; the first component of its result is what it left there.
\<close>

definition UpdateBlockDeviceDeepCopyOnChange ::
    "'w env \<Rightarrow> BlockDevice option \<Rightarrow>
     (BlockDevice \<Rightarrow> 'w world \<Rightarrow> (BlockDevice \<times> BlockDevice option \<times> go_error option) \<times> 'w world) \<Rightarrow>
     'w world \<Rightarrow> (BlockDevice option \<times> go_error option) \<times> 'w world" where
  "UpdateBlockDeviceDeepCopyOnChange env obj handler w =
     (case obj of
        None \<Rightarrow> ((None, None), w)
      | Some bd \<Rightarrow>
          (let ((copyObj, newObj, err), w) = handler bd w;
               copyObj = (case newObj of None \<Rightarrow> copyObj | Some x \<Rightarrow> x)
           in if om_ResourceVersion (bd_ObjectMeta bd) = om_ResourceVersion (bd_ObjectMeta copyObj)
                 \<and> \<not> semantic_equal bd copyObj
              then (let ((r, uerr), w) = Update env copyObj w in ((Some r, uerr), w))
              else ((Some copyObj, err), w)))"

text \<open>The same for a node, whose maps can also be nil or empty.\<close>

definition semantic_map :: "('k, 'v) mapping option \<Rightarrow> ('k, 'v) mapping option" where
  "semantic_map m = (case m of None \<Rightarrow> None | Some x \<Rightarrow> if x = Mapping.empty then None else Some x)"

definition semantic_disk_status :: "DiskStatus \<Rightarrow> DiskStatus" where
  "semantic_disk_status d =
     d\<lparr>dst_Conditions := semantic_map (dst_Conditions d), dst_ScheduledReplica := semantic_map (dst_ScheduledReplica d)\<rparr>"

definition semantic_node :: "Node \<Rightarrow> Node" where
  "semantic_node n =
     n\<lparr> node_ObjectMeta := semantic_meta (node_ObjectMeta n),
        node_Spec := (node_Spec n)\<lparr>nsp_Disks := semantic_map (nsp_Disks (node_Spec n))\<rparr>,
        node_Status := (node_Status n)
          \<lparr> nst_Conditions := semantic_map (nst_Conditions (node_Status n)),
            nst_DiskStatus := map_option (Mapping.map_values (\<lambda>k. map_option semantic_disk_status))
              (semantic_map (nst_DiskStatus (node_Status n))) \<rparr> \<rparr>"

definition UpdateNodeDeepCopyOnChange ::
    "'w env \<Rightarrow> Node option \<Rightarrow> (Node \<Rightarrow> 'w world \<Rightarrow> (Node \<times> Node option \<times> go_error option) \<times> 'w world) \<Rightarrow>
     'w world \<Rightarrow> (Node option \<times> go_error option) \<times> 'w world" where
  "UpdateNodeDeepCopyOnChange env obj handler w =
     (case obj of
        None \<Rightarrow> ((None, None), w)
      | Some n \<Rightarrow>
          (let ((copyObj, newObj, err), w) = handler n w;
               copyObj = (case newObj of None \<Rightarrow> copyObj | Some x \<Rightarrow> x)
           in if om_ResourceVersion (node_ObjectMeta n) = om_ResourceVersion (node_ObjectMeta copyObj)
                 \<and> semantic_node n \<noteq> semantic_node copyObj
              then (let ((r, uerr), w) = NodeUpdate env copyObj w in ((Some r, uerr), w))
              else ((Some copyObj, err), w)))"

text \<open>A handler that leaves its copy as it is causes no call.\<close>

lemma UpdateOnChange_idle:
  "handler bd w = ((bd, None, err), w') \<Longrightarrow>
   UpdateBlockDeviceDeepCopyOnChange env (Some bd) handler w = ((Some bd, err), w')"
  "nhandler n w = ((n, None, err), w') \<Longrightarrow>
   UpdateNodeDeepCopyOnChange env (Some n) nhandler w = ((Some n, err), w')"
  by (simp_all add: UpdateBlockDeviceDeepCopyOnChange_def UpdateNodeDeepCopyOnChange_def semantic_equal_def)

section \<open>Status handlers\<close>

text \<open>
  A status handler gets a copy of the resource and its status by value; the first component of
  its result is the copy as the handler left it.
\<close>

type_synonym 'w status_handler =
  "BlockDevice \<Rightarrow> BlockDeviceStatus \<Rightarrow> 'w world \<Rightarrow>
   (BlockDevice \<times> BlockDeviceStatus \<times> go_error option) \<times> 'w world"

text \<open>
  The conditions of a bare status: the reflection of the library finds its field \<open>Conditions\<close>
  as it finds \<open>Status.Conditions\<close> of a resource.
\<close>

definition with_status :: "BlockDeviceStatus \<Rightarrow> BlockDevice" where
  "with_status st = zero_block_device\<lparr>bd_Status := st\<rparr>"

definition on_status :: "(BlockDevice \<Rightarrow> BlockDevice) \<Rightarrow> BlockDeviceStatus \<Rightarrow> BlockDeviceStatus" where
  "on_status f st = bd_Status (f (with_status st))"

definition LastUpdated :: "string \<Rightarrow> string \<Rightarrow> BlockDevice \<Rightarrow> BlockDevice" where
  "LastUpdated c ts = write_cond c (\<lambda>x. x\<lparr>cond_LastUpdateTime := ts\<rparr>)"

definition blockDeviceStatusHandler_sync ::
    "'w env \<Rightarrow> string \<Rightarrow> 'w status_handler \<Rightarrow> (BlockDevice, 'w) handler" where
  "blockDeviceStatusHandler_sync env condition handler key dev w =
     (case dev of
        None \<Rightarrow> Ret ((None, None), w)
      | Some obj \<Rightarrow>
          (let origStatus = bd_Status obj;
               ((obj, newStatus, err), w) = handler obj (bd_Status obj) w;
               newStatus = (if err \<noteq> None then origStatus else newStatus);
               now = e_stamp env (ext w);
               newStatus =
                 (if condition \<noteq> [] then
                    (if IsConflict err then on_status (SetError condition now [] None) newStatus
                     else on_status (SetError condition now [] err) newStatus)
                  else newStatus)
           in if origStatus \<noteq> newStatus then
                (let newStatus = (if condition \<noteq> [] then on_status (LastUpdated condition now) newStatus else newStatus);
                     obj = obj\<lparr>bd_Status := newStatus\<rparr>;
                     ((newObj, newErr), w) = UpdateStatus env obj w;
                     err = (if err = None then newErr else err);
                     obj = (if newErr = None then newObj else obj)
                 in Ret ((Some obj, err), w))
              else Ret ((Some obj, err), w)))"

definition RegisterBlockDeviceStatusHandler ::
    "'w env \<Rightarrow> string \<Rightarrow> string \<Rightarrow> 'w status_handler \<Rightarrow> (BlockDevice, 'w) SharedHandler \<Rightarrow> (BlockDevice, 'w) SharedHandler" where
  "RegisterBlockDeviceStatusHandler env condition name handler =
     AddGenericHandler name (FromBlockDeviceHandlerToHandler (blockDeviceStatusHandler_sync env condition handler))"

section \<open>Handlers that generate objects\<close>

text \<open>
  What the handler asks of \<open>apply\<close>, a library that is an argument here: the settings that
  \<open>ConfigureApplyForObject\<close> makes, the owner, the set and its objects.
\<close>

record GeneratingHandlerOptions =
  gho_AllowCrossNamespace :: bool
  gho_AllowClusterScoped :: bool
  gho_NoOwnerReference :: bool
  gho_DynamicLookup :: bool

definition zero_options :: GeneratingHandlerOptions where
  "zero_options =
     \<lparr> gho_AllowCrossNamespace = False, gho_AllowClusterScoped = False, gho_NoOwnerReference = False,
       gho_DynamicLookup = False \<rparr>"

record 'r apply_request =
  ar_dynamicLookup :: bool
  ar_noOwnerReference :: bool
  ar_defaultNamespace :: "string option"
  ar_listerNamespace :: "string option"
  ar_restrictClusterScoped :: bool
  ar_owner :: BlockDevice
  ar_setID :: string
  ar_objects :: "'r list"

definition ConfigureApplyForObject ::
    "BlockDevice \<Rightarrow> GeneratingHandlerOptions option \<Rightarrow> string \<Rightarrow> 'r list \<Rightarrow> 'r apply_request" where
  "ConfigureApplyForObject obj opts setID objs =
     (let opts = (case opts of None \<Rightarrow> zero_options | Some o' \<Rightarrow> o');
          ns = (if gho_AllowCrossNamespace opts \<and> \<not> gho_AllowClusterScoped opts then Some (bd_Namespace obj) else None)
      in \<lparr> ar_dynamicLookup = gho_DynamicLookup opts, ar_noOwnerReference = gho_NoOwnerReference opts,
           ar_defaultNamespace = ns, ar_listerNamespace = ns,
           ar_restrictClusterScoped = (\<not> gho_AllowClusterScoped opts),
           ar_owner = obj, ar_setID = setID, ar_objects = objs \<rparr>)"

record ('r, 'w) blockDeviceGeneratingHandler =
  gh_handler :: "BlockDevice \<Rightarrow> BlockDeviceStatus \<Rightarrow> 'w world \<Rightarrow>
    (BlockDevice \<times> 'r list \<times> BlockDeviceStatus \<times> go_error option) \<times> 'w world"
  gh_apply :: "'r apply_request \<Rightarrow> 'w world \<Rightarrow> go_error option \<times> 'w world"
  gh_opts :: GeneratingHandlerOptions
  gh_gvk :: GroupVersionKind
  gh_name :: string

definition RSplit :: "string \<Rightarrow> string \<Rightarrow> string \<times> string" where
  "RSplit s sep =
     (case SplitN s sep 2 of
        [a] \<Rightarrow> ([], TrimSpace a)
      | a # b # rest \<Rightarrow> (TrimSpace a, TrimSpace b)
      | [] \<Rightarrow> ([], []))"

definition SetGroupVersionKind :: "GroupVersionKind \<Rightarrow> BlockDevice \<Rightarrow> BlockDevice" where
  "SetGroupVersionKind gvk bd =
     (let (apiVersion, kind) = ToAPIVersionAndKind gvk
      in bd\<lparr>bd_TypeMeta := \<lparr>tm_Kind = kind, tm_APIVersion = apiVersion\<rparr>\<rparr>)"

definition generating_Remove :: "('r, 'w) blockDeviceGeneratingHandler \<Rightarrow> (BlockDevice, 'w) handler" where
  "generating_Remove a key dev w =
     (case dev of
        Some obj \<Rightarrow> Ret ((Some obj, None), w)
      | None \<Rightarrow>
          (let (namespace, name) = RSplit key ''/'';
               obj = zero_block_device
                 \<lparr>bd_ObjectMeta := (bd_ObjectMeta zero_block_device)\<lparr>om_Namespace := namespace, om_Name := name\<rparr>\<rparr>;
               obj = SetGroupVersionKind (gh_gvk a) obj;
               (err, w) = gh_apply a (ConfigureApplyForObject obj (Some (gh_opts a)) (gh_name a) []) w
           in Ret ((None, err), w)))"

definition generating_Handle :: "('r, 'w) blockDeviceGeneratingHandler \<Rightarrow> 'w status_handler" where
  "generating_Handle a obj status w =
     (let ((obj, objs, newStatus, err), w) = gh_handler a obj status w
      in case err of
           Some e \<Rightarrow> ((obj, newStatus, Some e), w)
         | None \<Rightarrow>
             (let (err, w) = gh_apply a (ConfigureApplyForObject obj (Some (gh_opts a)) (gh_name a) objs) w
              in ((obj, newStatus, err), w)))"

definition RegisterBlockDeviceGeneratingHandler ::
    "'w env \<Rightarrow> resource_controller \<Rightarrow> ('r apply_request \<Rightarrow> 'w world \<Rightarrow> go_error option \<times> 'w world) \<Rightarrow> string \<Rightarrow> string \<Rightarrow>
     (BlockDevice \<Rightarrow> BlockDeviceStatus \<Rightarrow> 'w world \<Rightarrow>
       (BlockDevice \<times> 'r list \<times> BlockDeviceStatus \<times> go_error option) \<times> 'w world) \<Rightarrow>
     GeneratingHandlerOptions option \<Rightarrow> (BlockDevice, 'w) SharedHandler \<Rightarrow> (BlockDevice, 'w) SharedHandler" where
  "RegisterBlockDeviceGeneratingHandler env c apply condition name handler opts h =
     (let statusHandler = \<lparr> gh_handler = handler, gh_apply = apply,
            gh_opts = (case opts of None \<Rightarrow> zero_options | Some o' \<Rightarrow> o'),
            gh_gvk = rc_gvk c, gh_name = name \<rparr>;
          h = BlockDevice_OnChange name (generating_Remove statusHandler) h
      in RegisterBlockDeviceStatusHandler env condition name (generating_Handle statusHandler) h)"

section \<open>Keys and resources\<close>

text \<open>
  One key per resource: what the informer enqueues, what the caller of \<open>Enqueue\<close> names, where
  the store keeps the resource, and what is left of a resource that is gone.
\<close>

lemma keyFunc_informer:
  "ns_ok (bd_Namespace bd) \<Longrightarrow> MetaNamespaceKeyFunc bd = keyFunc (bd_Namespace bd) (bd_Name bd)"
  by (simp add: MetaNamespaceKeyFunc_ok keyFunc_def ns_ok_def)

lemma RSplit_keyFunc:
  assumes "ns_ok ns" and "no_space ns" and "no_space n" and "CHR ''/'' \<notin> set n"
  shows "RSplit (keyFunc ns n) ''/'' = (ns, n)"
proof -
  have "cut_at (ns @ ''/'' @ n) ''/'' = Some (ns, n)"
    using assms(1) cut_at_free [of "CHR ''/''" ns "[]" n] by (simp add: ns_ok_def)
  then show ?thesis
    using assms by (simp add: RSplit_def keyFunc_def ns_ok_def numeral_2_eq_2 TrimSpace_no_space)
qed

lemma start_keys:
  "set (wq_queue (fold (\<lambda>(key, after) q. if after = 0 then wq_Add key q else wq_AddAfter key after q) ks q))
     \<union> wq_waiting (fold (\<lambda>(key, after) q. if after = 0 then wq_Add key q else wq_AddAfter key after q) ks q) =
   fst ` set ks \<union> set (wq_queue q) \<union> wq_waiting q"
  if "\<not> wq_shuttingDown q" "wq_processing q = {}" "wq_dirty q = set (wq_queue q)"
  using that
proof (induction ks arbitrary: q)
  case (Cons k ks)
  obtain key after where k: "k = (key, after)" by (cases k)
  let ?q = "if after = 0 then wq_Add key q else wq_AddAfter key after q"
  have "\<not> wq_shuttingDown ?q" "wq_processing ?q = {}" "wq_dirty ?q = set (wq_queue ?q)"
    "set (wq_queue ?q) \<union> wq_waiting ?q = insert key (set (wq_queue q) \<union> wq_waiting q)"
    using Cons.prems by (auto simp: wq_Add_def wq_AddAfter_def Let_def)
  then show ?case using Cons.IH [of ?q] k by auto
qed simp

section \<open>What a status handler writes\<close>

lemma on_status_SetError:
  "bs_State (on_status (SetError c now r e) st) = bs_State st"
  "bs_DeviceStatus (on_status (SetError c now r e) st) = bs_DeviceStatus st"
  by (simp_all add: on_status_def frame_simps with_status_def)

lemma on_status_LastUpdated:
  "bs_State (on_status (LastUpdated c ts) st) = bs_State st"
  "bs_DeviceStatus (on_status (LastUpdated c ts) st) = bs_DeviceStatus st"
  by (simp_all add: on_status_def LastUpdated_def with_status_def)

lemma with_on_status: "conditions (with_status (on_status f st)) = conditions (f (with_status st))"
  by (simp add: with_status_def on_status_def conditions_def)

lemma status_after_error:
  "GetStatus c (with_status (on_status (LastUpdated c ts) (on_status (SetError c now r e) st))) =
   (if e = None \<or> e = Some ErrSkip then ''True'' else ''False'')"
proof -
  have same: "GetStatus c (with_status (on_status f x)) = GetStatus c (f (with_status x))" for f x
    by (simp add: GetStatus_def read_cond_def with_on_status)
  have keep: "GetStatus c (LastUpdated c ts bd) = GetStatus c bd" if "HasCond c bd" for bd
    using that by (auto simp: LastUpdated_def cond_defs find_write_cond)
  have has: "HasCond c (with_status (on_status f x)) = HasCond c (f (with_status x))" for f x
    by (simp add: HasCond_def with_on_status)
  have "HasCond c (SetError c now r e bd)" for bd
    by (simp add: SetError_def wrangler.has_set)
  then have "GetStatus c (with_status (on_status (LastUpdated c ts) (on_status (SetError c now r e) st))) =
      GetStatus c (SetError c now r e (with_status st))"
    by (simp add: same keep has)
  then show ?thesis
    by (simp add: SetError_def wrangler.get_status wrangler.has_set)
qed

text \<open>A status handler writes at most one status. If the handler failed, what is written is the old
  status but for the condition, and the error is returned even when the write succeeds; the
  condition is True after a success and, although the handler failed, after a conflict, and
  False after any other error.\<close>

lemma status_handler_effects:
  assumes "handler obj (bd_Status obj) w = ((left, st, err), w1)"
    and "blockDeviceStatusHandler_sync env condition handler key (Some obj) w = Ret ((r, e), w')"
  shows "\<exists>upd. calls w' = calls w1 @ upd
    \<and> (upd = [] \<and> e = err \<or>
        (\<exists>st'. upd = [CallUpdateStatus (bd_Namespace left) (left\<lparr>bd_Status := st'\<rparr>)]
          \<and> bs_State st' = (if err = None then bs_State st else bs_State (bd_Status obj))
          \<and> bs_DeviceStatus st' = (if err = None then bs_DeviceStatus st else bs_DeviceStatus (bd_Status obj))
          \<and> (condition \<noteq> [] \<longrightarrow> GetStatus condition (with_status st') =
               (if err = None \<or> err = Some ErrSkip \<or> IsConflict err then ''True'' else ''False''))
          \<and> (err \<noteq> None \<longrightarrow> e = err)))"
proof -
  let ?base = "if err \<noteq> None then bd_Status obj else st"
  let ?now = "e_stamp env (ext w1)"
  let ?set = "if condition \<noteq> [] then on_status (SetError condition ?now [] (if IsConflict err then None else err)) ?base
    else ?base"
  let ?new = "if condition \<noteq> [] then on_status (LastUpdated condition ?now) ?set else ?set"
  have run: "blockDeviceStatusHandler_sync env condition handler key (Some obj) w =
    (if bd_Status obj \<noteq> ?set then
       (let ((newObj, newErr), w) = UpdateStatus env (left\<lparr>bd_Status := ?new\<rparr>) w1
        in Ret ((Some (if newErr = None then newObj else left\<lparr>bd_Status := ?new\<rparr>), if err = None then newErr else err), w))
     else Ret ((Some left, err), w1))"
    by (auto simp: blockDeviceStatusHandler_sync_def assms(1) Let_def split: prod.splits)
  have parts: "bs_State ?new = bs_State ?base" "bs_DeviceStatus ?new = bs_DeviceStatus ?base"
    by (simp_all add: on_status_LastUpdated on_status_SetError)
  have cond: "condition \<noteq> [] \<longrightarrow> GetStatus condition (with_status ?new) =
      (if err = None \<or> err = Some ErrSkip \<or> IsConflict err then ''True'' else ''False'')"
    by (auto simp: status_after_error IsConflict_def)
  show ?thesis
  proof (cases "bd_Status obj \<noteq> ?set")
    case True
    obtain newObj newErr w2 where u: "UpdateStatus env (left\<lparr>bd_Status := ?new\<rparr>) w1 = ((newObj, newErr), w2)"
      by (metis prod.exhaust)
    then have "w' = w2" "err \<noteq> None \<longrightarrow> e = err" using run assms(2) True by auto
    with client_calls(3) [OF u] parts cond show ?thesis
      by (intro exI [of _ "[CallUpdateStatus (bd_Namespace left) (left\<lparr>bd_Status := ?new\<rparr>)]"]) auto
  qed (use run assms(2) in auto)
qed

end
