(* ===== verification/Registration.thy ===== *)
theory Registration
  imports System Generated
begin

text \<open>
  The registrations of \<open>main.go\<close> through the factory of shared controllers. The program asks the
  factory for a controller of the block devices three times and for one of the nodes once;
  theory \<open>System\<close> works with one queue and one list of handlers for each kind, and this theory
  shows that the factory makes them so.
\<close>

section \<open>Registering through the factory\<close>

definition device_handler :: "registration \<Rightarrow> bool" where
  "device_handler r \<longleftrightarrow> (case r of NodeOnRemove name c \<Rightarrow> False | _ \<Rightarrow> True)"

text \<open>
  One call of \<open>OnChange\<close> or \<open>OnRemove\<close>, on the controllers that the \<open>Register\<close> functions were given.
  \<open>deferred\<close> is the error of making a controller, \<open>ListKeys\<close> what its store has.
\<close>

fun register_in ::
    "'w env \<Rightarrow> go_error option \<Rightarrow> string list \<Rightarrow> resource_controller \<Rightarrow> resource_controller \<Rightarrow> registration \<Rightarrow>
     'w controllerFactory \<Rightarrow> 'w controllerFactory" where
  "register_in env deferred ListKeys b n (BlockDeviceOnChange name c) =
     on_devices b (RegisterHandler deferred ListKeys name (FromBlockDeviceHandlerToHandler (OnBlockDeviceChange env c)))"
| "register_in env deferred ListKeys b n (BlockDeviceOnRemove name c) =
     on_devices b (RegisterHandler deferred ListKeys name (NewRemoveHandler (block_device_kind env) name
       (FromBlockDeviceHandlerToHandler (\<lambda>key dev w. Ret (OnBlockDeviceDelete env c key dev w)))))"
| "register_in env deferred ListKeys b n (NodeOnRemove name c) =
     on_nodes n (RegisterHandler deferred ListKeys name (NewRemoveHandler (node_kind env) name
       (FromNodeHandlerToHandler (\<lambda>key node w. Ret (OnNodeDelete env c key node w)))))"

text \<open>
  The callback of the leader election up to the start: the controller of the block devices, its
  cache and its handlers; then the controller of the nodes, again that of the block devices
  with its cache, and the handlers of the nodes.
\<close>

definition registered_factory ::
    "'w env \<Rightarrow> go_error option \<Rightarrow> string list \<Rightarrow> registration list \<Rightarrow> 'w controllerFactory \<Rightarrow> 'w controllerFactory" where
  "registered_factory env deferred ListKeys hs f =
     (let (b, f) = version_BlockDevice f;
          f = BlockDevice_Cache deferred b f;
          f = fold (register_in env deferred ListKeys b b) (filter device_handler hs) f;
          (n, f) = version_Node f;
          (b, f) = version_BlockDevice f;
          f = BlockDevice_Cache deferred b f
      in fold (register_in env deferred ListKeys b n) (filter (\<lambda>r. \<not> device_handler r) hs) f)"

definition devices_gvr :: GroupVersionResource where
  "devices_gvr = \<lparr> gvr_Group = ''longhorn.io'', gvr_Version = ''v1beta1'', gvr_Resource = ''blockdevices'' \<rparr>"

definition nodes_gvr :: GroupVersionResource where
  "nodes_gvr = \<lparr> gvr_Group = ''longhorn.io'', gvr_Version = ''v1beta1'', gvr_Resource = ''nodes'' \<rparr>"

section \<open>One controller for each kind\<close>

text \<open>A second request finds the controller that the first one made.\<close>

lemma ForResourceKind_again [simp]:
  "ForResourceKind gvr kind nsd (ForResourceKind gvr kind' nsd' cs) = ForResourceKind gvr kind' nsd' cs"
  by (simp add: ForResourceKind_def split: option.split)

lemma ForResourceKind_known: "cs gvr = Some c \<Longrightarrow> ForResourceKind gvr kind nsd cs = cs"
  by (simp add: ForResourceKind_def)

lemma initController_again [simp]: "initController d (initController d c) = initController d c"
  by (simp add: initController_def split: option.split)

definition made_controller :: "go_error option \<Rightarrow> string \<Rightarrow> ('o, 'w) SharedHandler \<Rightarrow> ('o, 'w) sharedController" where
  "made_controller deferred kind h =
     initController deferred \<lparr> sc_kind = kind, sc_namespaced = True, sc_handler = h, sc_controller = None,
       sc_startError = None, sc_started = False \<rparr>"

lemma made_init [simp]: "initController d (made_controller d kind h) = made_controller d kind h"
  by (simp add: made_controller_def)

lemma made_register [simp]:
  "RegisterHandler d ListKeys name handler (made_controller d kind h) =
     made_controller d kind (SharedHandler_Register name handler h)"
  by (simp add: RegisterHandler_def made_controller_def initController_def Let_def)

text \<open>The factory after some registrations, in terms of \<open>installed\<close>.\<close>

definition holds ::
    "go_error option \<Rightarrow> (BlockDevice, 'w) SharedHandler \<Rightarrow> 'w controllerFactory \<Rightarrow> bool" where
  "holds d h f \<longleftrightarrow> cf_devices f = [devices_gvr \<mapsto> made_controller d ''BlockDevice'' h]"

lemma register_devices:
  assumes "rc_controller b = devices_gvr" and "list_all device_handler hs" and "holds d h f"
  shows "holds d (fst (fold (install env) hs (h, k))) (fold (register_in env d ListKeys b n) hs f)
    \<and> cf_nodes (fold (register_in env d ListKeys b n) hs f) = cf_nodes f
    \<and> snd (fold (install env) hs (h, k)) = k"
  using assms(2,3)
proof (induction hs arbitrary: h f)
  case (Cons r hs)
  obtain h' where i: "install env r (h, k) = (h', k)" and f': "holds d h' (register_in env d ListKeys b n r f)"
    "cf_nodes (register_in env d ListKeys b n r f) = cf_nodes f"
    using Cons.prems by (cases r) (simp_all add: device_handler_def holds_def on_devices_def assms(1)
        BlockDevice_OnChange_def BlockDevice_OnRemove_def AddGenericHandler_def)
  show ?case using Cons.IH [OF _ f'(1)] Cons.prems(1) f'(2) i by simp
qed simp

lemma register_nodes:
  assumes "rc_controller n = nodes_gvr" and "list_all (\<lambda>r. \<not> device_handler r) hs"
    and "cf_nodes f = [nodes_gvr \<mapsto> made_controller d ''Node'' k]"
  shows "cf_nodes (fold (register_in env d ListKeys b n) hs f) =
      [nodes_gvr \<mapsto> made_controller d ''Node'' (snd (fold (install env) hs (h, k)))]
    \<and> cf_devices (fold (register_in env d ListKeys b n) hs f) = cf_devices f
    \<and> fst (fold (install env) hs (h, k)) = h"
  using assms(2,3)
proof (induction hs arbitrary: k f)
  case (Cons r hs)
  obtain k' where i: "install env r (h, k) = (h, k')"
    and f': "cf_nodes (register_in env d ListKeys b n r f) = [nodes_gvr \<mapsto> made_controller d ''Node'' k']"
      "cf_devices (register_in env d ListKeys b n r f) = cf_devices f"
  proof -
    obtain name c where r: "r = NodeOnRemove name c"
      using Cons.prems(1) by (cases r) (simp_all add: device_handler_def)
    show thesis
      by (rule that) (simp_all add: r on_nodes_def assms(1) Cons.prems(2) Node_OnRemove_def AddGenericHandler_def fun_eq_iff)
  qed
  show ?case using Cons.IH [OF _ f'(1)] Cons.prems(1) f'(2) i by simp
qed simp

text \<open>A controller of the nodes is made by the first handler that is registered with it.\<close>

definition unmade_controller :: "string \<Rightarrow> ('o, 'w) sharedController" where
  "unmade_controller kind =
     \<lparr> sc_kind = kind, sc_namespaced = True, sc_handler = new_shared_handler, sc_controller = None,
       sc_startError = None, sc_started = False \<rparr>"

lemma unmade_init [simp]: "initController d (unmade_controller kind) = made_controller d kind new_shared_handler"
  by (simp add: made_controller_def unmade_controller_def)

lemma register_first:
  "RegisterHandler d ListKeys name handler (unmade_controller kind) =
     RegisterHandler d ListKeys name handler (made_controller d kind new_shared_handler)"
  by (simp add: RegisterHandler_def)

lemma register_nodes_first:
  assumes "rc_controller n = nodes_gvr" and "list_all (\<lambda>r. \<not> device_handler r) hs" and "hs \<noteq> []"
    and "cf_nodes f = [nodes_gvr \<mapsto> unmade_controller ''Node'']"
  shows "fold (register_in env d ListKeys b n) hs f =
    fold (register_in env d ListKeys b n) hs
      (f\<lparr>cf_nodes := [nodes_gvr \<mapsto> made_controller d ''Node'' new_shared_handler]\<rparr>)"
proof (cases hs)
  case (Cons r rs)
  then obtain name c where "r = NodeOnRemove name c"
    using assms(2) by (cases r) (auto simp: device_handler_def)
  then show ?thesis using assms(1,4) by (simp add: Cons on_nodes_def register_first)
qed (use assms(3) in simp)

text \<open>\<open>installed\<close> does not depend on how the two kinds of registrations are interleaved.\<close>

lemma install_devices:
  "list_all device_handler hs \<Longrightarrow>
   fst (fold (install env) hs (h, k)) = fst (fold (install env) hs (h, k')) \<and> snd (fold (install env) hs (h, k)) = k"
proof (induction hs arbitrary: h)
  case (Cons r hs)
  then show ?case by (cases r) (simp_all add: device_handler_def)
qed simp

lemma install_nodes:
  "list_all (\<lambda>r. \<not> device_handler r) hs \<Longrightarrow>
   snd (fold (install env) hs (h, k)) = snd (fold (install env) hs (h', k)) \<and> fst (fold (install env) hs (h, k)) = h"
proof (induction hs arbitrary: k)
  case (Cons r hs)
  then show ?case by (cases r) (simp_all add: device_handler_def)
qed simp

lemma install_split:
  "fold (install env) hs (h, k) =
     (fst (fold (install env) (filter device_handler hs) (h, k)),
      snd (fold (install env) (filter (\<lambda>r. \<not> device_handler r) hs) (h, k)))"
proof (induction hs arbitrary: h k)
  case (Cons r hs)
  obtain h1 k1 where r: "install env r (h, k) = (h1, k1)" by fastforce
  have "device_handler r \<Longrightarrow> k1 = k" "\<not> device_handler r \<Longrightarrow> h1 = h"
    using r by (cases r; simp add: device_handler_def)+
  then show ?case
    using Cons.IH [of h1 k1] r install_nodes [of "filter (\<lambda>r. \<not> device_handler r) hs" env h1 k h]
      install_devices [of "filter device_handler hs" env h k1 k]
    by (cases "device_handler r") (simp_all add: list_all_iff)
qed simp

text \<open>The two controllers after all registrations.\<close>

lemma registered_factory_controllers:
  assumes "\<exists>r \<in> set hs. \<not> device_handler r"
  shows "registered_factory env d ListKeys hs new_factory =
    \<lparr> cf_devices = [devices_gvr \<mapsto> made_controller d ''BlockDevice'' (fst (installed env hs))],
      cf_nodes = [nodes_gvr \<mapsto> made_controller d ''Node'' (snd (installed env hs))] \<rparr>"
proof -
  let ?dev = "filter device_handler hs" and ?node = "filter (\<lambda>r. \<not> device_handler r) hs"
  obtain b f1 where b: "version_BlockDevice (new_factory :: 'a controllerFactory) = (b, f1)" by fastforce
  have rb: "rc_controller b = devices_gvr"
    and f1: "cf_devices f1 = [devices_gvr \<mapsto> unmade_controller ''BlockDevice'']" "cf_nodes f1 = Map.empty"
    using b by (auto simp: version_BlockDevice_def NewBlockDeviceController_def WithResource_def devices_gvr_def
        ForResourceKind_def new_factory_def unmade_controller_def Let_def)
  let ?f2 = "BlockDevice_Cache d b f1"
  let ?f3 = "fold (register_in env d ListKeys b b) ?dev ?f2"
  have "holds d new_shared_handler ?f2" and n2: "cf_nodes ?f2 = Map.empty"
    using f1 by (simp_all add: holds_def BlockDevice_Cache_def BlockDevice_Informer_def on_devices_def rb)
  from register_devices [OF rb _ this(1), of ?dev] n2
  have f3: "holds d (fst (installed env hs)) ?f3" "cf_nodes ?f3 = Map.empty"
    unfolding installed_def install_split [of env hs] by (simp_all add: list_all_iff)
  obtain n f4 where n: "version_Node ?f3 = (n, f4)" by fastforce
  have rn: "rc_controller n = nodes_gvr" and f4: "cf_devices f4 = cf_devices ?f3"
    "cf_nodes f4 = [nodes_gvr \<mapsto> unmade_controller ''Node'']"
    using n f3(2) by (auto simp: version_Node_def NewNodeController_def WithResource_def nodes_gvr_def
        ForResourceKind_def unmade_controller_def Let_def)
  have again: "version_BlockDevice f4 = (b, f4)"
    using b f3(1) f4(1) by (auto simp: version_BlockDevice_def NewBlockDeviceController_def WithResource_def holds_def
        devices_gvr_def ForResourceKind_def Let_def)
  have cached: "BlockDevice_Cache d b f4 = f4"
    using f3(1) f4(1) by (simp add: BlockDevice_Cache_def BlockDevice_Informer_def on_devices_def rb holds_def fun_eq_iff)
  let ?f5 = "fold (register_in env d ListKeys b n) ?node f4"
  have "?node \<noteq> []" using assms by (auto simp: filter_empty_conv)
  then have f5: "?f5 = fold (register_in env d ListKeys b n) ?node
      (f4\<lparr>cf_nodes := [nodes_gvr \<mapsto> made_controller d ''Node'' new_shared_handler]\<rparr>)"
    using register_nodes_first [OF rn _ _ f4(2)] by (simp add: list_all_iff)
  have "cf_nodes ?f5 = [nodes_gvr \<mapsto> made_controller d ''Node'' (snd (installed env hs))]" "cf_devices ?f5 = cf_devices f4"
    unfolding f5 installed_def install_split [of env hs]
    using register_nodes [OF rn, of ?node "f4\<lparr>cf_nodes := [nodes_gvr \<mapsto> made_controller d ''Node'' new_shared_handler]\<rparr>" d
        new_shared_handler env ListKeys b new_shared_handler]
    by (simp_all add: list_all_iff)
  moreover have "registered_factory env d ListKeys hs new_factory = ?f5"
    by (simp add: registered_factory_def Let_def b n again cached)
  ultimately show ?thesis using f3(1) f4(1) by (simp add: holds_def)
qed

text \<open>Another request for the controller of the block devices finds it.\<close>

lemma registered_factory_again:
  assumes "\<exists>r \<in> set hs. \<not> device_handler r"
  shows "snd (version_BlockDevice (registered_factory env d ListKeys hs new_factory)) = registered_factory env d ListKeys hs new_factory"
  by (simp add: registered_factory_controllers [OF assms] version_BlockDevice_def NewBlockDeviceController_def WithResource_def
      devices_gvr_def ForResourceKind_def Let_def)

end
