(* ===== verification/Factory.thy ===== *)
theory Factory
  imports Registration
begin

text \<open>
  The factory of \<open>main.go\<close>: how it is made from a configuration, and how each request for a
  controller goes through the generated accessors (\<open>Longhorn\<close>, \<open>V1beta1\<close>, \<open>BlockDevice\<close>, \<open>Node\<close>) to the
  factory of shared controllers, which the first request makes.
\<close>

section \<open>The factory of the library\<close>

text \<open>
  A factory of shared controllers is shared by reference: the memory is the list of those that were
  made, and a reference is a position in it, or nil. A factory of caches (of type \<open>'k\<close>) is only
  passed on; \<open>newCache\<close> makes one from a configuration and a namespace by way of a client, and
  \<open>SharedCacheFactory\<close> is that of a factory of shared controllers. The options about resyncs and
  health are left out.
\<close>

type_synonym factory_ref = "nat option"

record 'k FactoryOptions =
  fo_Namespace :: string
  fo_SharedCacheFactory :: "'k option"
  fo_SharedControllerFactory :: factory_ref

record ('c, 'k) generic_Factory =
  gf_cacheFactory :: "'k option"
  gf_controllerFactory :: factory_ref
  gf_threadiness :: "GroupVersionKind \<rightharpoonup> int"
  gf_config :: 'c
  gf_opts :: "'k FactoryOptions"

definition generic_NewFactoryFromConfigWithOptions ::
    "(nat \<Rightarrow> 'k) \<Rightarrow> 'c \<Rightarrow> 'k FactoryOptions option \<Rightarrow> ('c, 'k) generic_Factory \<times> go_error option" where
  "generic_NewFactoryFromConfigWithOptions SharedCacheFactory config opts =
     (let opts = (case opts of
            None \<Rightarrow> \<lparr> fo_Namespace = [], fo_SharedCacheFactory = None, fo_SharedControllerFactory = None \<rparr>
          | Some opt \<Rightarrow> opt);
          f = \<lparr> gf_cacheFactory = fo_SharedCacheFactory opts, gf_controllerFactory = fo_SharedControllerFactory opts,
                gf_threadiness = Map.empty, gf_config = config, gf_opts = opts \<rparr>
      in (case (gf_cacheFactory f, gf_controllerFactory f) of
            (None, Some c) \<Rightarrow> (f\<lparr>gf_cacheFactory := Some (SharedCacheFactory c)\<rparr>, None)
          | _ \<Rightarrow> (f, None)))"

definition SetThreadiness :: "GroupVersionKind \<Rightarrow> int \<Rightarrow> ('c, 'k) generic_Factory \<Rightarrow> ('c, 'k) generic_Factory" where
  "SetThreadiness gvk n c = c\<lparr>gf_threadiness := (gf_threadiness c)(gvk \<mapsto> n)\<rparr>"

definition setControllerFactoryWithLock ::
    "('c \<Rightarrow> string \<Rightarrow> go_error + 'k) \<Rightarrow> ('c, 'k) generic_Factory \<Rightarrow> 'w controllerFactory list \<Rightarrow>
     go_error option \<times> ('c, 'k) generic_Factory \<times> 'w controllerFactory list" where
  "setControllerFactoryWithLock newCache c mem =
     (if gf_controllerFactory c \<noteq> None then (None, c, mem)
      else case (case gf_cacheFactory c of
                   Some cacheFactory \<Rightarrow> Inr cacheFactory
                 | None \<Rightarrow> newCache (gf_config c) (fo_Namespace (gf_opts c))) of
             Inl err \<Rightarrow> (Some err, c, mem)
           | Inr cacheFactory \<Rightarrow>
               (None, c\<lparr>gf_cacheFactory := Some cacheFactory, gf_controllerFactory := Some (length mem)\<rparr>,
                mem @ [new_factory]))"

definition ControllerFactory ::
    "('c \<Rightarrow> string \<Rightarrow> go_error + 'k) \<Rightarrow> ('c, 'k) generic_Factory \<Rightarrow> 'w controllerFactory list \<Rightarrow>
     (factory_ref \<times> ('c, 'k) generic_Factory \<times> 'w controllerFactory list) outcome" where
  "ControllerFactory newCache c mem =
     (let (err, c, mem) = setControllerFactoryWithLock newCache c mem
      in case err of Some e \<Rightarrow> Panic (Error e) | None \<Rightarrow> Ret (gf_controllerFactory c, c, mem))"

section \<open>The generated factory\<close>

text \<open>The generated factory embeds that of the library and adds nothing to it.\<close>

definition NewFactoryFromConfigWithOptions ::
    "(nat \<Rightarrow> 'k) \<Rightarrow> 'c \<Rightarrow> 'k FactoryOptions option \<Rightarrow> ('c, 'k) generic_Factory \<times> go_error option" where
  "NewFactoryFromConfigWithOptions SharedCacheFactory config opts =
     generic_NewFactoryFromConfigWithOptions SharedCacheFactory config opts"

definition NewFactoryFromConfig :: "(nat \<Rightarrow> 'k) \<Rightarrow> 'c \<Rightarrow> ('c, 'k) generic_Factory \<times> go_error option" where
  "NewFactoryFromConfig SharedCacheFactory config = NewFactoryFromConfigWithOptions SharedCacheFactory config None"

definition NewFactoryFromConfigWithNamespace ::
    "(nat \<Rightarrow> 'k) \<Rightarrow> 'c \<Rightarrow> string \<Rightarrow> ('c, 'k) generic_Factory \<times> go_error option" where
  "NewFactoryFromConfigWithNamespace SharedCacheFactory config namespace =
     NewFactoryFromConfigWithOptions SharedCacheFactory config
       (Some \<lparr> fo_Namespace = namespace, fo_SharedCacheFactory = None, fo_SharedControllerFactory = None \<rparr>)"

definition NewFactoryFromConfigOrDie :: "(nat \<Rightarrow> 'k) \<Rightarrow> 'c \<Rightarrow> ('c, 'k) generic_Factory outcome" where
  "NewFactoryFromConfigOrDie SharedCacheFactory config =
     (case NewFactoryFromConfig SharedCacheFactory config of
        (f, Some err) \<Rightarrow> Panic (Error err) | (f, None) \<Rightarrow> Ret f)"

definition NewFactoryFromConfigWithOptionsOrDie ::
    "(nat \<Rightarrow> 'k) \<Rightarrow> 'c \<Rightarrow> 'k FactoryOptions option \<Rightarrow> ('c, 'k) generic_Factory outcome" where
  "NewFactoryFromConfigWithOptionsOrDie SharedCacheFactory config opts =
     (case NewFactoryFromConfigWithOptions SharedCacheFactory config opts of
        (f, Some err) \<Rightarrow> Panic (Error err) | (f, None) \<Rightarrow> Ret f)"

record longhorn_group =
  group_controllerFactory :: factory_ref

record v1beta1_version =
  version_controllerFactory :: factory_ref

definition group_New :: "factory_ref \<Rightarrow> longhorn_group" where
  "group_New controllerFactory = \<lparr> group_controllerFactory = controllerFactory \<rparr>"

definition version_New :: "factory_ref \<Rightarrow> v1beta1_version" where
  "version_New controllerFactory = \<lparr> version_controllerFactory = controllerFactory \<rparr>"

definition group_V1beta1 :: "longhorn_group \<Rightarrow> v1beta1_version" where
  "group_V1beta1 g = version_New (group_controllerFactory g)"

definition Longhorn ::
    "('c \<Rightarrow> string \<Rightarrow> go_error + 'k) \<Rightarrow> ('c, 'k) generic_Factory \<Rightarrow> 'w controllerFactory list \<Rightarrow>
     (longhorn_group \<times> ('c, 'k) generic_Factory \<times> 'w controllerFactory list) outcome" where
  "Longhorn newCache c mem =
     bind_outcome (ControllerFactory newCache c mem) (\<lambda>(ref, c, mem). Ret (group_New ref, c, mem))"

text \<open>A method that works on the factory of shared controllers behind a reference.\<close>

definition at_factory ::
    "factory_ref \<Rightarrow> ('w controllerFactory \<Rightarrow> 'a \<times> 'w controllerFactory) \<Rightarrow> 'w controllerFactory list \<Rightarrow>
     ('a \<times> 'w controllerFactory list) outcome" where
  "at_factory ref g mem =
     (case ref of
        None \<Rightarrow> Panic nil_pointer
      | Some i \<Rightarrow> let (r, cf) = g (mem ! i) in Ret (r, mem[i := cf]))"

section \<open>The registrations of the program\<close>

text \<open>
  \<open>lhs.Longhorn().V1beta1()\<close> and the method called on it: a method of the version works on the factory
  of shared controllers that the version refers to.
\<close>

definition request ::
    "('c \<Rightarrow> string \<Rightarrow> go_error + 'k) \<Rightarrow> ('w controllerFactory \<Rightarrow> 'a \<times> 'w controllerFactory) \<Rightarrow>
     ('c, 'k) generic_Factory \<Rightarrow> 'w controllerFactory list \<Rightarrow>
     ('a \<times> factory_ref \<times> ('c, 'k) generic_Factory \<times> 'w controllerFactory list) outcome" where
  "request newCache method lhs mem =
     bind_outcome (Longhorn newCache lhs mem) (\<lambda>(g, lhs, mem).
       let v = group_V1beta1 g
       in bind_outcome (at_factory (version_controllerFactory v) method mem) (\<lambda>(a, mem).
            Ret (a, version_controllerFactory v, lhs, mem)))"

text \<open>
  The callback of the leader election: the two \<open>Register\<close> functions with the controllers that they
  are given, and the controller that the udev monitor gets.
\<close>

definition main_registrations ::
    "('c \<Rightarrow> string \<Rightarrow> go_error + 'k) \<Rightarrow> 'w env \<Rightarrow> go_error option \<Rightarrow> string list \<Rightarrow> registration list \<Rightarrow>
     ('c, 'k) generic_Factory \<Rightarrow> 'w controllerFactory list \<Rightarrow>
     (resource_controller \<times> ('c, 'k) generic_Factory \<times> 'w controllerFactory list) outcome" where
  "main_registrations newCache env deferred ListKeys hs lhs mem =
     bind_outcome (request newCache version_BlockDevice lhs mem) (\<lambda>(b, ref, lhs, mem).
     bind_outcome (at_factory ref (\<lambda>f. ((), fold (register_in env deferred ListKeys b b) (filter device_handler hs)
       (BlockDevice_Cache deferred b f))) mem) (\<lambda>(_, mem).
     bind_outcome (request newCache version_Node lhs mem) (\<lambda>(n, nref, lhs, mem).
     bind_outcome (request newCache version_BlockDevice lhs mem) (\<lambda>(b, ref, lhs, mem).
     bind_outcome (at_factory ref (\<lambda>f. ((), BlockDevice_Cache deferred b f)) mem) (\<lambda>(_, mem).
     bind_outcome (at_factory nref (\<lambda>f. ((), fold (register_in env deferred ListKeys b n)
       (filter (\<lambda>r. \<not> device_handler r) hs) f)) mem) (\<lambda>(_, mem).
     bind_outcome (request newCache version_BlockDevice lhs mem) (\<lambda>(u, ref, lhs, mem).
     Ret (u, lhs, mem))))))))"

text \<open>The first request makes the factory of shared controllers, the next ones find it.\<close>

definition made_factory :: "'k \<Rightarrow> ('c, 'k) generic_Factory \<Rightarrow> ('c, 'k) generic_Factory" where
  "made_factory k lhs = lhs\<lparr>gf_cacheFactory := Some k, gf_controllerFactory := Some 0\<rparr>"

lemma fresh_factory:
  "gf_cacheFactory (fst (NewFactoryFromConfig SharedCacheFactory config)) = None"
  "gf_controllerFactory (fst (NewFactoryFromConfig SharedCacheFactory config)) = None"
  "gf_config (fst (NewFactoryFromConfig SharedCacheFactory config)) = config"
  "fo_Namespace (gf_opts (fst (NewFactoryFromConfig SharedCacheFactory config))) = []"
  "snd (NewFactoryFromConfig SharedCacheFactory config) = None"
  by (simp_all add: NewFactoryFromConfig_def NewFactoryFromConfigWithOptions_def
      generic_NewFactoryFromConfigWithOptions_def Let_def)

lemma first_request:
  assumes "gf_cacheFactory lhs = None" and "gf_controllerFactory lhs = None"
  shows "request newCache method lhs [] =
    (case newCache (gf_config lhs) (fo_Namespace (gf_opts lhs)) of
       Inl err \<Rightarrow> Panic (Error err)
     | Inr k \<Rightarrow> Ret (fst (method new_factory), Some 0, made_factory k lhs, [snd (method new_factory)]))"
  using assms
  by (auto simp: request_def Longhorn_def ControllerFactory_def setControllerFactoryWithLock_def at_factory_def
      group_V1beta1_def group_New_def version_New_def made_factory_def split: sum.split prod.split)

lemma next_request:
  "request newCache method (made_factory k lhs) [f] =
    Ret (fst (method f), Some 0, made_factory k lhs, [snd (method f)])"
  by (simp add: request_def Longhorn_def ControllerFactory_def setControllerFactoryWithLock_def at_factory_def
      group_V1beta1_def group_New_def version_New_def made_factory_def split: prod.split)

lemma main_registrations_factory:
  assumes "gf_cacheFactory lhs = None" and "gf_controllerFactory lhs = None"
  shows "main_registrations newCache env deferred ListKeys hs lhs [] =
    (case newCache (gf_config lhs) (fo_Namespace (gf_opts lhs)) of
       Inl err \<Rightarrow> Panic (Error err)
     | Inr k \<Rightarrow> let f = registered_factory env deferred ListKeys hs new_factory
         in Ret (fst (version_BlockDevice f), made_factory k lhs, [snd (version_BlockDevice f)]))"
  by (simp add: main_registrations_def first_request [OF assms] next_request registered_factory_def at_factory_def Let_def
      split: sum.split prod.split)

end
