(* ===== verification/Startup.thy ===== *)
theory Startup
  imports Factory
begin

text \<open>
  From the registrations to the start of the controllers. \<open>start.All\<close> has the factory of \<open>main.go\<close> start
  its caches and wait for them, and only then start its controllers; what the caches deliver until
  then waits in the start keys of the controllers, from which each start makes the queue.
\<close>

section \<open>What the caches deliver\<close>

text \<open>
  A notification of the informer: a resource that was added or updated, or the last state of one
  that was deleted. The event handlers of the two controllers are \<open>handleObject\<close>.
\<close>

datatype notice = DeviceNotice BlockDevice | NodeNotice Node

definition on_keys :: "(key_source \<Rightarrow> key_source) \<Rightarrow> ('o, 'w) sharedController \<Rightarrow> ('o, 'w) sharedController" where
  "on_keys h c =
     (case sc_controller c of
        Some (Working ks) \<Rightarrow> c\<lparr>sc_controller := Some (Working (h ks))\<rparr>
      | _ \<Rightarrow> c)"

fun notify :: "notice \<Rightarrow> 'w controllerFactory \<Rightarrow> 'w controllerFactory" where
  "notify (DeviceNotice x) f =
     f\<lparr>cf_devices := (cf_devices f)(devices_gvr := map_option (on_keys (handleObject bd_ObjectMeta x)) (cf_devices f devices_gvr))\<rparr>"
| "notify (NodeNotice x) f =
     f\<lparr>cf_nodes := (cf_nodes f)(nodes_gvr := map_option (on_keys (handleObject node_ObjectMeta x)) (cf_nodes f nodes_gvr))\<rparr>"

section \<open>The start\<close>

text \<open>
  The course of a start: what is delivered during the two calls of \<open>Sync\<close> and while the factory of
  shared controllers waits; the result of starting the caches; the order in which the loop over
  the map of the controllers takes them; and for each of them its kind, what is delivered
  before it is started, and the result of its own wait.
\<close>

record start_course =
  st_inSync :: "notice list"
  st_inStart :: "notice list"
  st_inWait :: "notice list"
  st_cacheStart :: "go_error option"
  st_order :: "GroupVersionResource list"
  st_kind :: "GroupVersionResource \<Rightarrow> go_error + GroupVersionKind"
  st_noMatch :: "go_error \<Rightarrow> bool"
  st_before :: "GroupVersionResource \<Rightarrow> notice list"
  st_startCache :: "GroupVersionResource \<Rightarrow> go_error option"

definition start_one ::
    "go_error option \<Rightarrow> GroupVersionResource \<Rightarrow> 'w controllerFactory \<Rightarrow> go_error option \<times> 'w controllerFactory" where
  "start_one startCache gvr f =
     (case cf_devices f gvr of
        Some c \<Rightarrow> (let (c, err) = sharedController_Start startCache c
                   in (err, f\<lparr>cf_devices := (cf_devices f)(gvr \<mapsto> c)\<rparr>))
      | None \<Rightarrow>
          (case cf_nodes f gvr of
             Some c \<Rightarrow> (let (c, err) = sharedController_Start startCache c
                        in (err, f\<lparr>cf_nodes := (cf_nodes f)(gvr \<mapsto> c)\<rparr>))
           | None \<Rightarrow> (None, f)))"

fun start_controllers ::
    "start_course \<Rightarrow> (GroupVersionKind \<rightharpoonup> int) \<Rightarrow> int \<Rightarrow> GroupVersionResource list \<Rightarrow> 'w controllerFactory \<Rightarrow>
     go_error option \<times> 'w controllerFactory" where
  "start_controllers co kindWorkers defaultWorkers [] f = (None, f)"
| "start_controllers co kindWorkers defaultWorkers (gvr # gvrs) f =
     (case getWorkers kindWorkers 5 (st_noMatch co) (st_kind co gvr) defaultWorkers of
        (w, Some err) \<Rightarrow> (Some err, f)
      | (w, None) \<Rightarrow>
          (case start_one (st_startCache co gvr) gvr (fold notify (st_before co gvr) f) of
             (Some err, f) \<Rightarrow> (Some err, f)
           | (None, f) \<Rightarrow> start_controllers co kindWorkers defaultWorkers gvrs f))"

definition sharedControllerFactory_Start ::
    "start_course \<Rightarrow> (GroupVersionKind \<rightharpoonup> int) \<Rightarrow> int \<Rightarrow> 'w controllerFactory \<Rightarrow> go_error option \<times> 'w controllerFactory" where
  "sharedControllerFactory_Start co kindWorkers defaultWorkers f =
     (case st_cacheStart co of
        Some err \<Rightarrow> (Some err, f)
      | None \<Rightarrow> start_controllers co kindWorkers defaultWorkers (st_order co) (fold notify (st_inWait co) f))"

text \<open>\<open>Sync\<close> drops the error of starting the caches.\<close>

definition Factory_Sync ::
    "notice list \<Rightarrow> ('c, 'k) generic_Factory \<Rightarrow> 'w controllerFactory list \<Rightarrow> go_error option \<times> 'w controllerFactory list" where
  "Factory_Sync xs c mem =
     (if gf_cacheFactory c \<noteq> None
      then (None, case gf_controllerFactory c of None \<Rightarrow> mem | Some i \<Rightarrow> mem[i := fold notify xs (mem ! i)])
      else (None, mem))"

definition Factory_Start ::
    "start_course \<Rightarrow> int \<Rightarrow> ('c, 'k) generic_Factory \<Rightarrow> 'w controllerFactory list \<Rightarrow>
     go_error option \<times> 'w controllerFactory list" where
  "Factory_Start co defaultThreadiness c mem =
     (case Factory_Sync (st_inStart co) c mem of
        (Some err, mem) \<Rightarrow> (Some err, mem)
      | (None, mem) \<Rightarrow>
          (case gf_controllerFactory c of
             Some i \<Rightarrow> (let (err, f) = sharedControllerFactory_Start co (gf_threadiness c) defaultThreadiness (mem ! i)
                        in (err, mem[i := f]))
           | None \<Rightarrow> (None, mem)))"

text \<open>\<open>start.All\<close> with the one starter of the program.\<close>

definition start_All ::
    "start_course \<Rightarrow> int \<Rightarrow> ('c, 'k) generic_Factory \<Rightarrow> 'w controllerFactory list \<Rightarrow>
     go_error option \<times> 'w controllerFactory list" where
  "start_All co threadiness lhs mem =
     (case Factory_Sync (st_inSync co) lhs mem of
        (Some err, mem) \<Rightarrow> (Some err, mem)
      | (None, mem) \<Rightarrow> Factory_Start co threadiness lhs mem)"

section \<open>The keys of the notifications\<close>

text \<open>All notifications of a course in their order, and the keys of those of a kind.\<close>

definition all_notices :: "start_course \<Rightarrow> notice list" where
  "all_notices co = st_inSync co @ st_inStart co @ st_inWait co @ concat (map (st_before co) (st_order co))"

fun device_key :: "notice \<Rightarrow> string option" where
  "device_key (DeviceNotice x) = Some (object_key bd_ObjectMeta x)"
| "device_key (NodeNotice x) = None"

fun node_key :: "notice \<Rightarrow> string option" where
  "node_key (DeviceNotice x) = None"
| "node_key (NodeNotice x) = Some (object_key node_ObjectMeta x)"

text \<open>A queue that has just these keys to give out, each once, in the order of their first mention.\<close>

definition queue_of :: "string list \<Rightarrow> string work_queue \<Rightarrow> bool" where
  "queue_of ks q \<longleftrightarrow>
     wq_queue q = rev (remdups (rev ks)) \<and> wq_dirty q = set ks \<and> wq_processing q = {} \<and> wq_waiting q = {}
     \<and> \<not> wq_shuttingDown q"

lemma queue_of_keys: "queue_of ks (fold wq_Add ks new_queue)"
proof (induction ks rule: rev_induct)
  case Nil
  then show ?case by (simp add: queue_of_def new_queue_def)
next
  case (snoc k ks)
  then show ?case by (auto simp: queue_of_def wq_Add_def Let_def)
qed

section \<open>The two controllers during the start\<close>

text \<open>A controller that was made without an error has the keys of its notifications, before and after its start.\<close>

definition keyed_controller :: "string \<Rightarrow> ('o, 'w) SharedHandler \<Rightarrow> string list \<Rightarrow> bool \<Rightarrow> ('o, 'w) sharedController" where
  "keyed_controller kind h ks started =
     \<lparr> sc_kind = kind, sc_namespaced = True, sc_handler = h,
       sc_controller = Some (Working (if started then \<lparr>ks_startKeys = [], ks_queue = Some (fold wq_Add ks new_queue)\<rparr>
         else \<lparr>ks_startKeys = map (\<lambda>k. (k, 0)) ks, ks_queue = None\<rparr>)),
       sc_startError = None, sc_started = started \<rparr>"

lemma keyed_made: "made_controller None kind h = keyed_controller kind h [] False"
  by (simp add: made_controller_def initController_def keyed_controller_def)

lemma keyed_notice:
  "on_keys (handleObject meta x) (keyed_controller kind h ks started) = keyed_controller kind h (ks @ [object_key meta x]) started"
  by (simp add: on_keys_def handleObject_def keyed_controller_def Let_def)

lemma keyed_start:
  "sharedController_Start None (keyed_controller kind h ks False) = (keyed_controller kind h ks True, None)"
proof -
  have "fold (\<lambda>(key, after) q. if after = 0 then wq_Add key q else wq_AddAfter key after q) (map (\<lambda>k. (k, 0)) ks) q = fold wq_Add ks q"
    for q :: "string work_queue"
    by (induction ks arbitrary: q) simp_all
  then show ?thesis by (simp add: sharedController_Start_def keyed_controller_def controller_start_def)
qed

lemma failed_start: "sharedController_Start startCache (made_controller (Some e) kind h) = (made_controller (Some e) kind h, Some e)"
  by (simp add: made_controller_def initController_def sharedController_Start_def)

lemma failed_notice: "on_keys g (made_controller (Some e) kind h) = made_controller (Some e) kind h"
  by (simp add: made_controller_def initController_def on_keys_def)

definition two_controllers ::
    "(BlockDevice, 'w) sharedController \<Rightarrow> (Node, 'w) sharedController \<Rightarrow> 'w controllerFactory" where
  "two_controllers b n = \<lparr>cf_devices = [devices_gvr \<mapsto> b], cf_nodes = [nodes_gvr \<mapsto> n]\<rparr>"

lemma gvr_distinct [simp]: "devices_gvr \<noteq> nodes_gvr" "nodes_gvr \<noteq> devices_gvr"
  by (simp_all add: devices_gvr_def nodes_gvr_def)

lemma two_notices:
  "fold notify xs (two_controllers (keyed_controller dk hb ds s) (keyed_controller nk hn ns t)) =
    two_controllers (keyed_controller dk hb (ds @ List.map_filter device_key xs) s)
      (keyed_controller nk hn (ns @ List.map_filter node_key xs) t)"
proof (induction xs arbitrary: ds ns)
  case (Cons x xs)
  then show ?case by (cases x) (simp_all add: two_controllers_def keyed_notice List.map_filter_simps fun_eq_iff)
qed (simp add: List.map_filter_simps)

lemma two_failed_notices:
  "fold notify xs (two_controllers (made_controller (Some e) dk hb) (made_controller (Some e) nk hn)) =
    two_controllers (made_controller (Some e) dk hb) (made_controller (Some e) nk hn)"
proof (induction xs)
  case (Cons x xs)
  then show ?case by (cases x) (simp_all add: two_controllers_def failed_notice fun_eq_iff)
qed simp

lemma two_start:
  "start_one None devices_gvr (two_controllers (keyed_controller dk hb ds False) n) =
    (None, two_controllers (keyed_controller dk hb ds True) n)"
  "start_one None nodes_gvr (two_controllers b (keyed_controller nk hn ns False)) =
    (None, two_controllers b (keyed_controller nk hn ns True))"
  by (simp_all add: start_one_def two_controllers_def keyed_start fun_eq_iff)

lemma two_failed_start:
  "g \<in> {devices_gvr, nodes_gvr} \<Longrightarrow>
   start_one startCache g (two_controllers (made_controller (Some e) dk hb) (made_controller (Some e) nk hn)) =
    (Some e, two_controllers (made_controller (Some e) dk hb) (made_controller (Some e) nk hn))"
  by (auto simp: start_one_def two_controllers_def failed_start fun_eq_iff)

lemma keys_append: "List.map_filter f (xs @ ys) = List.map_filter f xs @ List.map_filter f ys"
  by (simp add: List.map_filter_def)

lemma two_orders:
  assumes "distinct gs" and "set gs = {devices_gvr, nodes_gvr}"
  shows "gs = [devices_gvr, nodes_gvr] \<or> gs = [nodes_gvr, devices_gvr]"
proof -
  have "length gs = 2" using distinct_card [OF assms(1)] by (simp add: assms(2))
  then obtain a b where gs: "gs = [a, b]" by (auto simp: length_Suc_conv numeral_2_eq_2)
  then show ?thesis using assms by (auto simp: doubleton_eq_iff)
qed

lemma known_workers:
  assumes "\<forall>g. \<exists>k. st_kind co g = Inr k"
  shows "\<exists>w. getWorkers kindWorkers 5 (st_noMatch co) (st_kind co g) workers = (w, None)"
proof -
  obtain k where "st_kind co g = Inr k" using assms by blast
  then show ?thesis by (cases "kindWorkers k") (simp_all add: getWorkers_def)
qed

lemma started_controllers:
  assumes order: "distinct (st_order co)" "set (st_order co) = {devices_gvr, nodes_gvr}"
    and library: "st_cacheStart co = None" "\<forall>g. \<exists>k. st_kind co g = Inr k" "\<forall>g. st_startCache co g = None"
    and factory: "gf_cacheFactory c = Some k" "gf_controllerFactory c = Some 0"
  shows "start_All co workers c [two_controllers (made_controller None dk hb) (made_controller None nk hn)] =
    (None, [two_controllers (keyed_controller dk hb (List.map_filter device_key (all_notices co)) True)
       (keyed_controller nk hn (List.map_filter node_key (all_notices co)) True)])"
proof -
  obtain w w' where w: "getWorkers (gf_threadiness c) 5 (st_noMatch co) (st_kind co devices_gvr) workers = (w, None)"
    "getWorkers (gf_threadiness c) 5 (st_noMatch co) (st_kind co nodes_gvr) workers = (w', None)"
    using known_workers [OF library(2)] by metis
  show ?thesis
    using two_orders [OF order]
    by (auto simp: start_All_def Factory_Start_def Factory_Sync_def sharedControllerFactory_Start_def factory library
        keyed_made two_notices two_start w all_notices_def keys_append Let_def split_beta)
qed

lemma failed_controllers:
  assumes order: "distinct (st_order co)" "set (st_order co) = {devices_gvr, nodes_gvr}"
    and library: "st_cacheStart co = None" "\<forall>g. \<exists>k. st_kind co g = Inr k"
    and factory: "gf_cacheFactory c = Some k" "gf_controllerFactory c = Some 0"
  shows "start_All co workers c [two_controllers (made_controller (Some e) dk hb) (made_controller (Some e) nk hn)] =
    (Some e, [two_controllers (made_controller (Some e) dk hb) (made_controller (Some e) nk hn)])"
proof -
  obtain w w' where w: "getWorkers (gf_threadiness c) 5 (st_noMatch co) (st_kind co devices_gvr) workers = (w, None)"
    "getWorkers (gf_threadiness c) 5 (st_noMatch co) (st_kind co nodes_gvr) workers = (w', None)"
    using known_workers [OF library(2)] by metis
  show ?thesis
    using two_orders [OF order]
    by (auto simp: start_All_def Factory_Start_def Factory_Sync_def sharedControllerFactory_Start_def factory library
        two_failed_notices two_failed_start w Let_def split_beta)
qed

section \<open>From the configuration to the queues\<close>

text \<open>C33: the program makes a factory from its configuration and asks it for a controller again and
  again, for those of the block devices three times. When the caches of the library cannot be
  made, the first request panics with their error. Otherwise there is one factory of shared
  controllers in the end, with one controller for each kind of resource, which holds all
  handlers of the kind in their order. The start of the program then lets the caches deliver
  before it starts the two controllers, in any order. When making a controller failed, that
  error is what the start returns. Otherwise, provided that the library starts the caches and
  knows the kinds, both controllers are started with their handlers, and no notification is
  lost, at whatever stage of the start it came: as long as no worker has taken a key, the queue
  of a kind has the keys of all resources of the kind that were delivered, each once, in the
  order in which they came first.\<close>

theorem main_registrations_share:
  fixes env :: "'w env"
  assumes "NewFactoryFromConfig SharedCacheFactory config = (lhs, err)" and "\<exists>r \<in> set hs. \<not> device_handler r"
    and order: "distinct (st_order co)" "set (st_order co) = {devices_gvr, nodes_gvr}"
    and library: "st_cacheStart co = None" "\<forall>g. \<exists>k. st_kind co g = Inr k" "\<forall>g. st_startCache co g = None"
  shows "err = None
    \<and> (case newCache config [] of
         Inl e \<Rightarrow> main_registrations newCache env deferred ListKeys hs lhs [] = Panic (Error e)
       | Inr k \<Rightarrow> \<exists>u lhs' f b n. main_registrations newCache env deferred ListKeys hs lhs [] = Ret (u, lhs', [f])
           \<and> rc_controller u \<in> dom (cf_devices f)
           \<and> cf_devices f = [devices_gvr \<mapsto> b] \<and> cf_nodes f = [nodes_gvr \<mapsto> n]
           \<and> (sc_handler b, sc_handler n) = installed env hs
           \<and> (case deferred of
                Some e \<Rightarrow> start_All co workers lhs' [f] = (Some e, [f])
              | None \<Rightarrow> \<exists>f' b' n' q r. start_All co workers lhs' [f] = (None, [f'])
                  \<and> cf_devices f' = [devices_gvr \<mapsto> b'] \<and> cf_nodes f' = [nodes_gvr \<mapsto> n']
                  \<and> sc_handler b' = sc_handler b \<and> sc_handler n' = sc_handler n
                  \<and> sc_controller b' = Some (Working \<lparr>ks_startKeys = [], ks_queue = Some q\<rparr>)
                  \<and> sc_controller n' = Some (Working \<lparr>ks_startKeys = [], ks_queue = Some r\<rparr>)
                  \<and> queue_of (List.map_filter device_key (all_notices co)) q
                  \<and> queue_of (List.map_filter node_key (all_notices co)) r))"
proof -
  note fresh = fresh_factory [of SharedCacheFactory config, unfolded assms(1) fst_conv snd_conv]
  note run = main_registrations_factory [OF fresh(1,2), of newCache env deferred ListKeys hs, unfolded fresh(3,4)]
  let ?b = "made_controller deferred ''BlockDevice'' (fst (installed env hs))"
  let ?n = "made_controller deferred ''Node'' (snd (installed env hs))"
  have made: "registered_factory env deferred ListKeys hs new_factory = two_controllers ?b ?n"
    by (simp add: registered_factory_controllers [OF assms(2)] two_controllers_def)
  have handlers: "sc_handler ?b = fst (installed env hs)" "sc_handler ?n = snd (installed env hs)"
    by (simp_all add: made_controller_def initController_def)
  note again = registered_factory_again [OF assms(2), of env deferred ListKeys, unfolded made]
  have ref: "rc_controller (fst (version_BlockDevice f)) = devices_gvr" for f :: "'w controllerFactory"
    by (simp add: version_BlockDevice_def NewBlockDeviceController_def WithResource_def devices_gvr_def Let_def)
  show ?thesis
  proof (cases "newCache config []")
    case (Inr k)
    have regs: "main_registrations newCache env deferred ListKeys hs lhs [] =
        Ret (fst (version_BlockDevice (two_controllers ?b ?n)), made_factory k lhs, [two_controllers ?b ?n])"
      by (simp add: run Inr made again Let_def)
    have factory: "gf_cacheFactory (made_factory k lhs) = Some k" "gf_controllerFactory (made_factory k lhs) = Some 0"
      by (simp_all add: made_factory_def)
    have "case deferred of
        Some e \<Rightarrow> start_All co workers (made_factory k lhs) [two_controllers ?b ?n] = (Some e, [two_controllers ?b ?n])
      | None \<Rightarrow> \<exists>f' b' n' q r. start_All co workers (made_factory k lhs) [two_controllers ?b ?n] = (None, [f'])
          \<and> cf_devices f' = [devices_gvr \<mapsto> b'] \<and> cf_nodes f' = [nodes_gvr \<mapsto> n']
          \<and> sc_handler b' = sc_handler ?b \<and> sc_handler n' = sc_handler ?n
          \<and> sc_controller b' = Some (Working \<lparr>ks_startKeys = [], ks_queue = Some q\<rparr>)
          \<and> sc_controller n' = Some (Working \<lparr>ks_startKeys = [], ks_queue = Some r\<rparr>)
          \<and> queue_of (List.map_filter device_key (all_notices co)) q
          \<and> queue_of (List.map_filter node_key (all_notices co)) r"
    proof (cases deferred)
      case None
      let ?ds = "List.map_filter device_key (all_notices co)" and ?ns = "List.map_filter node_key (all_notices co)"
      let ?b' = "keyed_controller ''BlockDevice'' (fst (installed env hs)) ?ds True"
      let ?n' = "keyed_controller ''Node'' (snd (installed env hs)) ?ns True"
      show ?thesis
        unfolding None option.case started_controllers [OF order library factory]
        by (intro exI [of _ "two_controllers ?b' ?n'"] exI [of _ ?b'] exI [of _ ?n'] exI [of _ "fold wq_Add ?ds new_queue"]
            exI [of _ "fold wq_Add ?ns new_queue"])
          (simp add: two_controllers_def handlers [unfolded None] keyed_controller_def queue_of_keys)
    next
      case (Some e)
      show ?thesis
        unfolding Some option.case by (rule failed_controllers [OF order library(1,2) factory])
    qed
    then show ?thesis
      unfolding Inr sum.case regs
      by (intro conjI exI [of _ "two_controllers ?b ?n"] exI) (auto simp: fresh(5) ref handlers two_controllers_def)
  qed (simp add: run fresh(5))
qed

text \<open>The disk was created by the registration, is delivered twice, and waits once in the queue.\<close>

definition demo_course :: start_course where
  "demo_course =
     \<lparr> st_inSync = [DeviceNotice demo_device], st_inStart = [], st_inWait = [DeviceNotice demo_device], st_cacheStart = None,
       st_order = [nodes_gvr, devices_gvr], st_kind = (\<lambda>g. Inr (with_kind ''BlockDevice'')), st_noMatch = (\<lambda>e. False),
       st_before = (\<lambda>g. []), st_startCache = (\<lambda>g. None) \<rparr>"

theorem main_registrations_share_witness:
  "\<exists>u lhs' f f' b' q. main_registrations (\<lambda>config ns. Inr ()) (demo_env []) None [] demo_handlers
      (fst (NewFactoryFromConfig (\<lambda>i. ()) ())) [] = Ret (u, lhs', [f])
    \<and> start_All demo_course 2 lhs' [f] = (None, [f']) \<and> cf_devices f' = [devices_gvr \<mapsto> b']
    \<and> length (sh_handlers (sc_handler b')) = 2
    \<and> sc_controller b' = Some (Working \<lparr>ks_startKeys = [], ks_queue = Some q\<rparr>) \<and> wq_queue q = [''ns/sda-n1'']"
proof -
  have "list_ex (\<lambda>r. \<not> device_handler r) demo_handlers" by code_simp
  then have node: "\<exists>r \<in> set demo_handlers. \<not> device_handler r" by (simp add: list_ex_iff)
  have two: "length (sh_handlers (fst (installed (demo_env []) demo_handlers))) = 2" by code_simp
  have keys: "List.map_filter device_key (all_notices demo_course) = [''ns/sda-n1'', ''ns/sda-n1'']" by code_simp
  have course: "distinct (st_order demo_course)" "set (st_order demo_course) = {devices_gvr, nodes_gvr}"
    "st_cacheStart demo_course = None" "\<forall>g. \<exists>k. st_kind demo_course g = Inr k" "\<forall>g. st_startCache demo_course g = None"
    by (auto simp: demo_course_def)
  note run = main_registrations_share [OF prod.collapse [symmetric] node course, of "\<lambda>i. ()" "()" "\<lambda>config ns. Inr ()"
      "demo_env []" None "[]" 2, unfolded keys sum.case option.case, THEN conjunct2]
  obtain u lhs' f b n f' b' n' q r where "main_registrations (\<lambda>config ns. Inr ()) (demo_env []) None [] demo_handlers
      (fst (NewFactoryFromConfig (\<lambda>i. ()) ())) [] = Ret (u, lhs', [f])"
    "rc_controller u \<in> dom (cf_devices f)" "cf_devices f = [devices_gvr \<mapsto> b]" "cf_nodes f = [nodes_gvr \<mapsto> n]"
    "(sc_handler b, sc_handler n) = installed (demo_env []) demo_handlers"
    "start_All demo_course 2 lhs' [f] = (None, [f'])" "cf_devices f' = [devices_gvr \<mapsto> b']" "cf_nodes f' = [nodes_gvr \<mapsto> n']"
    "sc_handler b' = sc_handler b" "sc_handler n' = sc_handler n"
    "sc_controller b' = Some (Working \<lparr>ks_startKeys = [], ks_queue = Some q\<rparr>)"
    "sc_controller n' = Some (Working \<lparr>ks_startKeys = [], ks_queue = Some r\<rparr>)"
    "queue_of [''ns/sda-n1'', ''ns/sda-n1''] q" "queue_of (List.map_filter node_key (all_notices demo_course)) r"
    using run by (elim exE conjE) (rule that, assumption+)
  moreover have "wq_queue q = [''ns/sda-n1'']" if "queue_of [''ns/sda-n1'', ''ns/sda-n1''] q"
    using that by (simp add: queue_of_def)
  ultimately show ?thesis using two by (metis fst_conv)
qed

end
