(* ===== verification/Api_Server.thy ===== *)
theory Api_Server
  imports Shared_Handler
begin

text \<open>
  The controllers together with the API server. The server is not part of the repository: a
  server is an environment in which the resources that it stores are a function \<open>objs\<close> of the
  state, with the documented rules of the Kubernetes API for a custom resource without a
  status subresource, which is how \<open>manifests/longhorn.io_blockdevices.yaml\<close> declares it:
  names are unique, an update must carry the version that is stored, an accepted change gets
  a new version, and a write stores the content that it was given. The server alone decides
  about deletion: no client sets or clears the time of the deletion, and a resource that is
  being deleted goes away with its last finalizer
  (\<open>vendor/k8s.io/apimachinery/pkg/apis/meta/v1/types.go\<close>, \<open>DeletionTimestamp\<close>, \<open>Finalizers\<close>).
\<close>

section \<open>A server\<close>

type_synonym objects = "string \<Rightarrow> string \<Rightarrow> BlockDevice option"

definition put_object :: "string \<Rightarrow> string \<Rightarrow> BlockDevice \<Rightarrow> objects \<Rightarrow> objects" where
  "put_object ns n x objs = (\<lambda>ns' n'. if ns' = ns \<and> n' = n then Some x else objs ns' n')"

definition remove_object :: "string \<Rightarrow> string \<Rightarrow> objects \<Rightarrow> objects" where
  "remove_object ns n objs = (\<lambda>ns' n'. if ns' = ns \<and> n' = n then None else objs ns' n')"

text \<open>
  The stored resource has the content that was sent; the server owns the UID, the version, the
  time of the deletion and the other fields of the metadata.
\<close>

definition with_deletion :: "time option \<Rightarrow> BlockDevice \<Rightarrow> BlockDevice" where
  "with_deletion t bd = bd\<lparr>bd_ObjectMeta := (bd_ObjectMeta bd)\<lparr>om_DeletionTimestamp := t\<rparr>\<rparr>"

abbreviation deletion_of :: "BlockDevice \<Rightarrow> time option" where
  "deletion_of bd \<equiv> om_DeletionTimestamp (bd_ObjectMeta bd)"

definition server_copy :: "BlockDevice \<Rightarrow> BlockDevice \<Rightarrow> bool" where
  "server_copy x bd \<longleftrightarrow>
     bd_Spec x = bd_Spec bd \<and> bd_Status x = bd_Status bd
     \<and> bd_Name x = bd_Name bd \<and> bd_Namespace x = bd_Namespace bd
     \<and> om_Labels (bd_ObjectMeta x) = om_Labels (bd_ObjectMeta bd)
     \<and> om_Finalizers (bd_ObjectMeta x) = om_Finalizers (bd_ObjectMeta bd)
     \<and> om_DeletionTimestamp (bd_ObjectMeta x) = om_DeletionTimestamp (bd_ObjectMeta bd)"

abbreviation version_of :: "BlockDevice \<Rightarrow> string" where
  "version_of bd \<equiv> om_ResourceVersion (bd_ObjectMeta bd)"

definition stored_ok :: "objects \<Rightarrow> bool" where
  "stored_ok objs \<longleftrightarrow>
     (\<forall>ns n x. objs ns n = Some x \<longrightarrow>
        bd_Namespace x = ns \<and> bd_Name x = n \<and> version_of x \<noteq> [] \<and> om_UID (bd_ObjectMeta x) \<noteq> []
        \<and> (deletion_of x \<noteq> None \<longrightarrow> om_Finalizers (bd_ObjectMeta x) \<noteq> []))"

definition creates :: "'w env \<Rightarrow> ('w \<Rightarrow> objects) \<Rightarrow> bool" where
  "creates env objs \<longleftrightarrow>
     (\<forall>bd w r e w'. e_Create env (bd_Namespace bd) bd w = ((r, e), w') \<longrightarrow>
        (case e of
           None \<Rightarrow> objs w (bd_Namespace bd) (bd_Name bd) = None
             \<and> (\<exists>x. server_copy x (with_deletion None bd)
                  \<and> objs w' = put_object (bd_Namespace bd) (bd_Name bd) x (objs w))
         | Some _ \<Rightarrow> objs w' = objs w))"

definition accepted_change ::
    "('w \<Rightarrow> objects) \<Rightarrow> BlockDevice \<Rightarrow> BlockDevice \<Rightarrow> 'w \<Rightarrow> 'w \<Rightarrow> bool" where
  "accepted_change objs old bd w w' \<longleftrightarrow>
     (if deletion_of old \<noteq> None \<and> om_Finalizers (bd_ObjectMeta bd) = []
      then objs w' = remove_object (bd_Namespace bd) (bd_Name bd) (objs w)
      else (\<exists>x. server_copy x (with_deletion (deletion_of old) bd)
             \<and> (server_copy old (with_deletion (deletion_of old) bd) \<or> version_of x \<noteq> version_of old)
             \<and> objs w' = put_object (bd_Namespace bd) (bd_Name bd) x (objs w)))"

definition updates :: "'w env \<Rightarrow> ('w \<Rightarrow> objects) \<Rightarrow> bool" where
  "updates env objs \<longleftrightarrow>
     (\<forall>bd w r e w'. e_Update env (bd_Namespace bd) bd w = ((r, e), w') \<longrightarrow>
        (case e of
           None \<Rightarrow> (\<exists>old. objs w (bd_Namespace bd) (bd_Name bd) = Some old
             \<and> (version_of bd = [] \<or> version_of bd = version_of old)
             \<and> accepted_change objs old bd w w')
         | Some err \<Rightarrow> objs w' = objs w \<and> err \<noteq> ErrSkip)
        \<and> (\<forall>old. objs w (bd_Namespace bd) (bd_Name bd) = Some old \<and> version_of bd \<noteq> []
             \<and> version_of bd \<noteq> version_of old \<longrightarrow> IsConflict e))"

definition lists :: "'w env \<Rightarrow> ('w \<Rightarrow> objects) \<Rightarrow> bool" where
  "lists env objs \<longleftrightarrow>
     (\<forall>ns w bds w'. e_List env ns w = ((bds, None), w') \<longrightarrow>
        set bds = {x. objs w ns (bd_Name x) = Some x} \<and> distinct (map bd_Name bds) \<and> objs w' = objs w)"

text \<open>The calls to the kernel do not reach the server.\<close>

definition kernel_apart :: "'w env \<Rightarrow> ('w \<Rightarrow> objects) \<Rightarrow> bool" where
  "kernel_apart env objs \<longleftrightarrow>
     (\<forall>p perm w. objs (snd (e_Mkdir env p perm w)) = objs w)
     \<and> (\<forall>dev p ty fl opt w. objs (snd (e_Mount env dev p ty fl opt w)) = objs w)"

definition api_server :: "'w env \<Rightarrow> ('w \<Rightarrow> objects) \<Rightarrow> bool" where
  "api_server env objs \<longleftrightarrow>
     (\<forall>w. stored_ok (objs w)) \<and> creates env objs \<and> updates env objs \<and> lists env objs \<and> kernel_apart env objs"

lemma put_object_simps [simp]:
  "put_object ns n x objs ns n = Some x"
  "ns' \<noteq> ns \<or> n' \<noteq> n \<Longrightarrow> put_object ns n x objs ns' n' = objs ns' n'"
  by (auto simp: put_object_def)

lemma server_Create:
  assumes "api_server env objs" and "Create env bd w = ((r, None), w')"
  shows "objs (ext w) (bd_Namespace bd) (bd_Name bd) = None
    \<and> (\<exists>x. server_copy x (with_deletion None bd)
         \<and> objs (ext w') = put_object (bd_Namespace bd) (bd_Name bd) x (objs (ext w)))"
proof -
  have "e_Create env (bd_Namespace bd) bd (ext w) = ((r, None), ext w')"
    using assms(2) by (auto simp: Create_def after_call_def prod_eq_iff)
  with assms(1) show ?thesis by (fastforce simp: api_server_def creates_def)
qed

lemma accepted_update:
  assumes "updates env objs" and "e_Update env (bd_Namespace bd) bd w = ((r, None), w')"
  shows "\<exists>old. objs w (bd_Namespace bd) (bd_Name bd) = Some old \<and> accepted_change objs old bd w w'"
  using assms(1) [unfolded updates_def, rule_format, OF assms(2)] by auto

text \<open>An accepted update, unless it takes the last finalizer from a resource that is being deleted.\<close>

lemma server_Update:
  assumes "api_server env objs" and "Update env bd w = ((r, e), w')"
  shows "e = None \<Longrightarrow> om_Finalizers (bd_ObjectMeta bd) \<noteq> []
        \<or> (\<forall>old. objs (ext w) (bd_Namespace bd) (bd_Name bd) = Some old \<longrightarrow> deletion_of old = None) \<Longrightarrow>
      \<exists>old x. objs (ext w) (bd_Namespace bd) (bd_Name bd) = Some old
      \<and> server_copy x (with_deletion (deletion_of old) bd)
      \<and> (server_copy old (with_deletion (deletion_of old) bd) \<or> version_of x \<noteq> version_of old)
      \<and> objs (ext w') = put_object (bd_Namespace bd) (bd_Name bd) x (objs (ext w))"
    and "e \<noteq> None \<Longrightarrow> objs (ext w') = objs (ext w) \<and> e \<noteq> Some ErrSkip"
    and "objs (ext w) (bd_Namespace bd) (bd_Name bd) = Some old \<Longrightarrow> version_of bd \<noteq> [] \<Longrightarrow>
      version_of bd \<noteq> version_of old \<Longrightarrow> IsConflict e"
proof -
  have u: "e_Update env (bd_Namespace bd) bd (ext w) = ((r, e), ext w')"
    using assms(2) by (auto simp: Update_def after_call_def prod_eq_iff)
  have api: "updates env objs" using assms(1) by (simp add: api_server_def)
  note law = api [unfolded updates_def, rule_format, OF u]
  show "\<exists>old x. objs (ext w) (bd_Namespace bd) (bd_Name bd) = Some old
      \<and> server_copy x (with_deletion (deletion_of old) bd)
      \<and> (server_copy old (with_deletion (deletion_of old) bd) \<or> version_of x \<noteq> version_of old)
      \<and> objs (ext w') = put_object (bd_Namespace bd) (bd_Name bd) x (objs (ext w))"
    if accepted: "e = None" and stays: "om_Finalizers (bd_ObjectMeta bd) \<noteq> []
        \<or> (\<forall>old. objs (ext w) (bd_Namespace bd) (bd_Name bd) = Some old \<longrightarrow> deletion_of old = None)"
  proof -
    obtain old where old: "objs (ext w) (bd_Namespace bd) (bd_Name bd) = Some old"
      and change: "accepted_change objs old bd (ext w) (ext w')"
      using accepted_update [OF api u [unfolded accepted]] by blast
    have "\<not> (deletion_of old \<noteq> None \<and> om_Finalizers (bd_ObjectMeta bd) = [])" using stays old by auto
    then show ?thesis using old change by (auto simp only: accepted_change_def if_False)
  qed
  show "e \<noteq> None \<Longrightarrow> objs (ext w') = objs (ext w) \<and> e \<noteq> Some ErrSkip" using law by auto
  show "objs (ext w) (bd_Namespace bd) (bd_Name bd) = Some old \<Longrightarrow> version_of bd \<noteq> [] \<Longrightarrow>
      version_of bd \<noteq> version_of old \<Longrightarrow> IsConflict e"
    using law by auto
qed

lemma with_deletion_simps [simp]:
  "with_deletion (deletion_of bd) bd = bd"
  "bd_Spec (with_deletion t bd) = bd_Spec bd" "bd_Status (with_deletion t bd) = bd_Status bd"
  "bd_Name (with_deletion t bd) = bd_Name bd" "bd_Namespace (with_deletion t bd) = bd_Namespace bd"
  "om_Labels (bd_ObjectMeta (with_deletion t bd)) = om_Labels (bd_ObjectMeta bd)"
  "om_Finalizers (bd_ObjectMeta (with_deletion t bd)) = om_Finalizers (bd_ObjectMeta bd)"
  "deletion_of (with_deletion t bd) = t" "version_of (with_deletion t bd) = version_of bd"
  "with_deletion t (with_deletion u bd) = with_deletion t bd"
  by (simp_all add: with_deletion_def)

text \<open>An update that says of the deletion what is stored, of a resource that is not being deleted.\<close>

lemma server_Update_live:
  assumes "api_server env objs" and "Update env bd w = ((r, None), w')"
    and "objs (ext w) (bd_Namespace bd) (bd_Name bd) = Some old" "deletion_of old = None" "deletion_of bd = None"
  shows "\<exists>x. server_copy x bd \<and> (server_copy old bd \<or> version_of x \<noteq> version_of old)
      \<and> objs (ext w') = put_object (bd_Namespace bd) (bd_Name bd) x (objs (ext w))"
proof -
  have "with_deletion None bd = bd" using assms(5) with_deletion_simps(1) [of bd] by simp
  then show ?thesis using server_Update(1) [OF assms(1,2) refl] assms(3,4) by auto
qed

lemma server_List:
  assumes "api_server env objs" and "List env ns w = ((bds, None), w')"
  shows "set bds = {x. objs (ext w) ns (bd_Name x) = Some x}" "distinct (map bd_Name bds)"
    "objs (ext w') = objs (ext w)"
proof -
  have "e_List env ns (ext w) = ((bds, None), ext w')"
    using assms(2) by (auto simp: List_def after_call_def prod_eq_iff)
  with assms(1) show "set bds = {x. objs (ext w) ns (bd_Name x) = Some x}" "distinct (map bd_Name bds)"
    "objs (ext w') = objs (ext w)"
    unfolding api_server_def lists_def by blast+
qed

lemma server_stored:
  assumes "api_server env objs" and "objs x ns n = Some bd"
  shows "bd_Namespace bd = ns" "bd_Name bd = n" "version_of bd \<noteq> []" "om_UID (bd_ObjectMeta bd) \<noteq> []"
    "deletion_of bd \<noteq> None \<Longrightarrow> om_Finalizers (bd_ObjectMeta bd) \<noteq> []"
  using assms by (auto simp: api_server_def stored_ok_def)

lemma server_mountDevice:
  assumes "api_server env objs" and "mountDevice env dev mp w = (err, w')"
  shows "objs (ext w') = objs (ext w)"
proof -
  have "objs (ext w2) = objs (ext w1)" if "Mkdir env p perm w1 = (e, w2)" for p perm e w1 w2
    using that assms(1) by (auto simp: Mkdir_def after_call_def api_server_def kernel_apart_def)
  moreover have "objs (ext w2) = objs (ext w1)" if "MountExt4 env d p False w1 = (e, w2)" for d p e w1 w2
    using that assms(1) by (auto simp: MountExt4_def after_call_def api_server_def kernel_apart_def)
  ultimately show ?thesis
    using assms(2) by (fastforce simp: mountDevice_def split: file_stat.splits prod.splits option.splits)
qed


section \<open>Registering the devices of the node\<close>

text \<open>What the server holds for a scanned device after it was saved.\<close>

definition saved_as :: "BlockDevice \<Rightarrow> BlockDevice option \<Rightarrow> BlockDevice \<Rightarrow> bool" where
  "saved_as bd before x \<longleftrightarrow>
     (case before of
        None \<Rightarrow> server_copy x (with_deletion None bd)
      | Some old \<Rightarrow> server_copy x (with_device_status (bd_DeviceStatus bd) old))"

lemma save_one:
  assumes "api_server env objs" and "SaveBlockDeviceByList env bd bdList w = (None, w')"
    and "find (\<lambda>x. bd_Name x = bd_Name bd) bdList = objs (ext w) (bd_Namespace bd) (bd_Name bd)"
  shows "\<exists>x. saved_as bd (objs (ext w) (bd_Namespace bd) (bd_Name bd)) x
    \<and> objs (ext w') = put_object (bd_Namespace bd) (bd_Name bd) x (objs (ext w))"
proof (cases "objs (ext w) (bd_Namespace bd) (bd_Name bd)")
  case None
  obtain r where "Create env bd w = ((r, None), w')"
    using assms(2,3) None by (auto simp: SaveBlockDeviceByList_def split: prod.splits)
  from server_Create [OF assms(1) this] show ?thesis by (simp add: saved_as_def None)
next
  case (Some old)
  let ?new = "with_device_status (bd_DeviceStatus bd) old"
  obtain r where up: "Update env ?new w = ((r, None), w')"
    using assms(2,3) Some by (auto simp: SaveBlockDeviceByList_def with_device_status_def split: prod.splits)
  have place: "bd_Namespace old = bd_Namespace bd" "bd_Name old = bd_Name bd"
    using server_stored(1,2) [OF assms(1) Some] by simp_all
  have "om_Finalizers (bd_ObjectMeta ?new) \<noteq> [] \<or> deletion_of old = None"
    using server_stored(5) [OF assms(1) Some] by (cases "deletion_of old") auto
  then obtain x where "server_copy x (with_deletion (deletion_of old) ?new)"
    "objs (ext w') = put_object (bd_Namespace bd) (bd_Name bd) x (objs (ext w))"
    using server_Update(1) [OF assms(1) up refl] Some by (auto simp: place)
  moreover have "with_deletion (deletion_of old) ?new = ?new"
    using with_deletion_simps(1) [of ?new] by simp
  ultimately show ?thesis by (auto simp: saved_as_def Some)
qed

lemma save_all:
  assumes "api_server env objs"
    and "save_loop env bds bdList w = (None, w')" and "distinct (map bd_Name bds)"
    and "\<And>bd. bd \<in> set bds \<Longrightarrow> bd_Namespace bd = ns"
    and "\<And>bd. bd \<in> set bds \<Longrightarrow> find (\<lambda>x. bd_Name x = bd_Name bd) bdList = objs (ext w) ns (bd_Name bd)"
  shows "(\<forall>bd \<in> set bds. \<exists>x. objs (ext w') ns (bd_Name bd) = Some x
      \<and> saved_as bd (objs (ext w) ns (bd_Name bd)) x)
    \<and> (\<forall>ns' n. ns' = ns \<and> n \<in> bd_Name ` set bds \<or> objs (ext w') ns' n = objs (ext w) ns' n)"
  using assms(2-)
proof (induction bds arbitrary: w)
  case (Cons bd bds)
  obtain w1 where s: "SaveBlockDeviceByList env bd bdList w = (None, w1)"
    and rest: "save_loop env bds bdList w1 = (None, w')"
    using Cons.prems(1) by (auto split: prod.splits option.splits)
  have ns: "bd_Namespace bd = ns" using Cons.prems(3) by simp
  obtain x where x: "saved_as bd (objs (ext w) ns (bd_Name bd)) x"
    and w1: "objs (ext w1) = put_object ns (bd_Name bd) x (objs (ext w))"
    using save_one [OF assms(1) s] Cons.prems(4) [of bd] ns by auto
  have fresh: "bd_Name bd \<notin> bd_Name ` set bds" using Cons.prems(2) by simp
  have other: "objs (ext w1) ns (bd_Name b) = objs (ext w) ns (bd_Name b)" if "b \<in> set bds" for b
  proof -
    have "bd_Name b \<noteq> bd_Name bd" using fresh that by (metis imageI)
    then show ?thesis by (simp add: w1)
  qed
  have IH: "(\<forall>b \<in> set bds. \<exists>y. objs (ext w') ns (bd_Name b) = Some y
      \<and> saved_as b (objs (ext w1) ns (bd_Name b)) y)
    \<and> (\<forall>ns' n. ns' = ns \<and> n \<in> bd_Name ` set bds \<or> objs (ext w') ns' n = objs (ext w1) ns' n)"
    by (rule Cons.IH [OF rest]) (use Cons.prems other in auto)
  from IH fresh have "objs (ext w') ns (bd_Name bd) = objs (ext w1) ns (bd_Name bd)" by blast
  then have "objs (ext w') ns (bd_Name bd) = Some x" by (simp add: w1)
  moreover have "ns' = ns \<and> n \<in> bd_Name ` set (bd # bds) \<or> objs (ext w') ns' n = objs (ext w) ns' n" for ns' n
    using IH [THEN conjunct2, THEN spec, THEN spec, of ns' n] by (auto simp: w1 put_object_def split: if_splits)
  ultimately show ?case using IH x other by auto
qed simp

text \<open>C16: when the registration of a node succeeds against a server that nobody else writes to, the
  server holds a resource for every scanned device, whose device status is what was scanned:
  a new one as it was built, a known one with its specification, conditions, state, labels
  and finalizers as they were; and every other resource is untouched.\<close>

theorem registration_stores_scan:
  assumes "api_server env objs" and "RegisterNodeBlockDevices env c w = Ret (None, w')"
    and "distinct (map bd_Name (scanned c))"
  shows "(\<forall>bd \<in> set (scanned c). \<exists>x. objs (ext w') (c_namespace c) (bd_Name bd) = Some x
      \<and> bd_DeviceStatus x = bd_DeviceStatus bd
      \<and> (case objs (ext w) (c_namespace c) (bd_Name bd) of
           None \<Rightarrow> bd_Spec x = bd_Spec bd \<and> bd_Status x = bd_Status bd
             \<and> om_Labels (bd_ObjectMeta x) = om_Labels (bd_ObjectMeta bd)
         | Some old \<Rightarrow> bd_Spec x = bd_Spec old \<and> bs_State (bd_Status x) = bs_State (bd_Status old)
             \<and> bs_Conditions (bd_Status x) = bs_Conditions (bd_Status old)
             \<and> om_Labels (bd_ObjectMeta x) = om_Labels (bd_ObjectMeta old)
             \<and> om_Finalizers (bd_ObjectMeta x) = om_Finalizers (bd_ObjectMeta old)))
    \<and> (\<forall>ns n. ns = c_namespace c \<and> n \<in> bd_Name ` set (scanned c) \<or> objs (ext w') ns n = objs (ext w) ns n)"
proof -
  obtain bdList err w1 where l: "List env (c_namespace c) w = ((bdList, err), w1)" by (metis prod.exhaust)
  with assms(2) have err: "err = None" and loop: "save_loop env (scanned c) bdList w1 = (None, w')"
    by (auto simp: RegisterNodeBlockDevices_def new_devices_Ret split: option.splits)
  note listed = server_List [OF assms(1) l [unfolded err]]
  have known: "find (\<lambda>x. bd_Name x = n) bdList = objs (ext w) (c_namespace c) n" for n
  proof (cases "objs (ext w) (c_namespace c) n")
    case None
    then show ?thesis by (auto simp: find_None_all listed(1))
  next
    case (Some x)
    then have "x \<in> set bdList" "bd_Name x = n"
      using server_stored(2) [OF assms(1) Some] by (auto simp: listed(1))
    then show ?thesis using find_unique [OF listed(2)] Some by metis
  qed
  have saved: "(\<forall>bd \<in> set (scanned c). \<exists>x. objs (ext w') (c_namespace c) (bd_Name bd) = Some x
      \<and> saved_as bd (objs (ext w1) (c_namespace c) (bd_Name bd)) x)
    \<and> (\<forall>ns n. ns = c_namespace c \<and> n \<in> bd_Name ` set (scanned c) \<or> objs (ext w') ns n = objs (ext w1) ns n)"
    by (rule save_all [OF assms(1) loop assms(3)]) (auto simp: scanned_namespace known listed(3))
  have copies: "bd_DeviceStatus x = bd_DeviceStatus bd \<and> (case b of
           None \<Rightarrow> bd_Spec x = bd_Spec bd \<and> bd_Status x = bd_Status bd
             \<and> om_Labels (bd_ObjectMeta x) = om_Labels (bd_ObjectMeta bd)
         | Some old \<Rightarrow> bd_Spec x = bd_Spec old \<and> bs_State (bd_Status x) = bs_State (bd_Status old)
             \<and> bs_Conditions (bd_Status x) = bs_Conditions (bd_Status old)
             \<and> om_Labels (bd_ObjectMeta x) = om_Labels (bd_ObjectMeta old)
             \<and> om_Finalizers (bd_ObjectMeta x) = om_Finalizers (bd_ObjectMeta old))"
    if "saved_as bd b x" for bd b x
    using that by (auto simp: saved_as_def server_copy_def split: option.splits)
  show ?thesis
    using saved copies unfolding listed(3) by blast
qed


section \<open>The two handlers of a block device on one key\<close>

lemma handlers_run:
  assumes "OnBlockDeviceChange env c key (Some bd) w = Ret ((v, None), w1)"
    and "v = None \<or> v = Some bd"
  shows "SharedHandler_OnChange (block_device_kind env) (block_device_handlers env c name) key (Object (Some bd)) w =
    bind_outcome (block_device_remover env c name key (Object (Some bd)) w1)
      (\<lambda>((r, err), w2). Ret (case err of None \<Rightarrow> None
         | Some e \<Rightarrow> if e = ErrSkip then None else Some (HandlerError name e), w2))"
proof -
  have "FromBlockDeviceHandlerToHandler (OnBlockDeviceChange env c) key (Object (Some bd)) w =
      Ret ((case v of None \<Rightarrow> NilObject | Some x \<Rightarrow> Object (Some x), None), w1)"
    by (simp add: FromBlockDeviceHandlerToHandler_def FromHandlerToHandler_def assms(1))
  moreover have "(case (case v of None \<Rightarrow> NilObject | Some x \<Rightarrow> Object (Some x)) of
      Object (Some x) \<Rightarrow> if om_UID (bd_ObjectMeta x) \<noteq> [] then case v of None \<Rightarrow> NilObject | Some x \<Rightarrow> Object (Some x)
        else Object (Some bd)
    | _ \<Rightarrow> Object (Some bd)) = Object (Some bd)"
    using assms(2) by auto
  ultimately show ?thesis
    by (cases "block_device_remover env c name key (Object (Some bd)) w1")
      (auto simp: SharedHandler_OnChange_def block_device_handlers_entries ToErr_def Let_def split: option.splits)
qed

text \<open>A successful run of the change handler that wrote something changed the stored resource.\<close>

lemma finish_change_update:
  assumes "finish_change env bd u v = ((None, None), w1)" and "CallUpdate ns obj \<in> set (new_calls v w1)"
  shows "\<exists>r. Update env obj v = ((r, None), w1)" and "obj \<noteq> bd"
proof -
  let ?obj = "set_mounted (e_stamp env (ext v)) u"
  have obj: "?obj = obj \<and> obj \<noteq> bd"
    using finish_change_calls [OF assms(1)] assms(2) by (auto simp: new_calls_def split: if_splits)
  then show "\<exists>r. Update env obj v = ((r, None), w1)"
    using assms(1) by (auto simp: finish_change_def Let_def split: prod.splits option.splits)
  show "obj \<noteq> bd" using obj by simp
qed

lemma change_stores:
  assumes "api_server env objs"
    and "OnBlockDeviceChange env c key (Some bd) w = Ret ((None, None), w1)"
    and "CallUpdate ns obj \<in> set (new_calls w w1)"
    and "objs (ext w) (bd_Namespace bd) (bd_Name bd) = Some bd"
  shows "\<exists>x. server_copy x obj \<and> version_of x \<noteq> version_of bd
    \<and> objs (ext w1) = put_object (bd_Namespace bd) (bd_Name bd) x (objs (ext w))"
proof -
  note written = change_update [OF assms(2,3)]
  obtain v u where same: "objs (ext v) = objs (ext w)" and run: "finish_change env bd u v = ((None, None), w1)"
    and new: "CallUpdate ns obj \<in> set (new_calls v w1)"
  proof (cases "fs_valid bd")
    case True
    have "finish_change env bd bd w = ((None, None), w1)"
      using assms(2) OnBlockDeviceChange_valid [OF written(2) True, of env c key w] by simp
    then show ?thesis using assms(3) by (intro that [of w bd]) auto
  next
    case False
    obtain err v where m: "mountDevice env (spec_DevPath (bd_Spec bd)) (fi_MountPoint (fs_spec bd)) w = (err, v)"
      by fastforce
    from mountDevice_calls [OF m] obtain mnt where mnt: "calls v = calls w @ mnt"
      "mnt \<in> set (mount_attempts (spec_DevPath (bd_Spec bd)) (fi_MountPoint (fs_spec bd)))" by blast
    from m assms(2) obtain u where u: "finish_change env bd u v = ((None, None), w1)"
      by (auto simp: OnBlockDeviceChange_mount [OF written(2) False] bind_outcome_Ret_iff split: option.splits prod.splits)
    from finish_change_calls [OF this] obtain cs where "calls w1 = calls v @ cs" by blast
    with mnt(1) have "new_calls w w1 = mnt @ new_calls v w1" by (simp add: new_calls_def)
    with assms(3) mnt(2) have "CallUpdate ns obj \<in> set (new_calls v w1)" by (auto simp: mount_attempts_def)
    with u server_mountDevice [OF assms(1) m] show ?thesis by (intro that [of v u]) auto
  qed
  obtain r where u: "Update env obj v = ((r, None), w1)"
    using finish_change_update(1) [OF run new] by blast
  note rest = change_written_rest [OF written(1)]
  have "\<not> server_copy bd obj"
    using rest finish_change_update(2) [OF run new] by (auto simp: server_copy_def)
  moreover have "deletion_of bd = None" using written(2) by (simp add: wants_mount_def)
  ultimately show ?thesis
    using server_Update_live [OF assms(1) u, of bd] assms(4) by (auto simp: same rest)
qed


text \<open>A synchronisation of a resource that shows what the change handler wrote.\<close>

lemma settled_sync:
  assumes "change_written bd obj" and "wants_mount bd" and "fs_valid obj" and "server_copy x obj"
  shows "SharedHandler_OnChange (block_device_kind env) (block_device_handlers env c name) key (Object (Some x)) w =
    bind_outcome (addFinalizer (block_device_kind env) name x w)
      (\<lambda>((r, err), w2). Ret (case err of None \<Rightarrow> None
         | Some e \<Rightarrow> if e = ErrSkip then None else Some (HandlerError name e), w2))"
proof -
  have live: "om_DeletionTimestamp (bd_ObjectMeta x) = None"
    using assms(2,4) change_written_rest(2) [OF assms(1)] by (simp add: server_copy_def wants_mount_def)
  have "OnBlockDeviceChange env c key (Some x) w = Ret ((None, None), w)"
    using assms live by (intro written_settles [of bd obj]) (auto simp: server_copy_def)
  from handlers_run [OF this] live show ?thesis
    by (simp add: block_device_remover_def NewRemoveHandler_def)
qed

text \<open>C9: once the written resource, whose file system is valid, comes back from the server, the next
  synchronisation makes exactly one call, the update that adds the finalizer; and when that
  is accepted, the server has the resource with the finalizer, and unless the server has
  begun to delete it in the meantime, a synchronisation of the resource that is then stored
  makes no call and reports no error: the resource has reached its end state.\<close>

theorem later_syncs_settle:
  assumes "api_server env objs"
    and "OnBlockDeviceChange env c key (Some bd) w = Ret (r, w1)" and "CallUpdate ns obj \<in> set (new_calls w w1)"
    and "snd (isValidFileSystem (fs_spec obj) (fs_status obj))"
    and "server_copy x obj" and "''wrangler.cattle.io/'' @ name \<notin> set (om_Finalizers (bd_ObjectMeta x))"
  shows "\<exists>e v1. SharedHandler_OnChange (block_device_kind env) (block_device_handlers env c name) key
        (Object (Some x)) v = Ret (e, v1)
    \<and> calls v1 = calls v @ [CallUpdate (bd_Namespace x) (x\<lparr>bd_ObjectMeta := (bd_ObjectMeta x)
         \<lparr>om_Finalizers := om_Finalizers (bd_ObjectMeta x) @ [''wrangler.cattle.io/'' @ name]\<rparr>\<rparr>)]
    \<and> (e = None \<longrightarrow> (\<exists>y. objs (ext v1) (bd_Namespace x) (bd_Name x) = Some y
         \<and> ''wrangler.cattle.io/'' @ name \<in> set (om_Finalizers (bd_ObjectMeta y))
         \<and> (om_DeletionTimestamp (bd_ObjectMeta y) = None \<longrightarrow>
              (\<forall>u. SharedHandler_OnChange (block_device_kind env) (block_device_handlers env c name) key
                 (Object (Some y)) u = Ret (None, u)))))"
proof -
  note written = change_update [OF assms(2,3)]
  have valid: "fs_valid obj" using assms(4) by (simp add: fs_valid_def)
  note sync = settled_sync [OF written(1,2) valid]
  let ?new = "x\<lparr>bd_ObjectMeta := (bd_ObjectMeta x)
    \<lparr>om_Finalizers := om_Finalizers (bd_ObjectMeta x) @ [''wrangler.cattle.io/'' @ name]\<rparr>\<rparr>"
  obtain r e v1 where u: "Update env ?new v = ((r, e), v1)" by (metis prod.exhaust)
  have add: "addFinalizer (block_device_kind env) name x v = Ret ((Object (Some r), e), v1)"
    using assms(6) u by (simp add: addFinalizer_def hasFinalizer_def constructFinalizerKey_def Updater_def SetFinalizers_def)
  have run: "SharedHandler_OnChange (block_device_kind env) (block_device_handlers env c name) key (Object (Some x)) v =
      Ret (map_option (HandlerError name) e, v1)"
    using server_Update(2) [OF assms(1) u] by (cases e) (simp_all add: sync [OF assms(5)] add)
  have stored: "\<exists>y. objs (ext v1) (bd_Namespace x) (bd_Name x) = Some y
      \<and> ''wrangler.cattle.io/'' @ name \<in> set (om_Finalizers (bd_ObjectMeta y))
      \<and> (deletion_of y = None \<longrightarrow> (\<forall>u. SharedHandler_OnChange (block_device_kind env)
            (block_device_handlers env c name) key (Object (Some y)) u = Ret (None, u)))" if accepted: "e = None"
  proof -
    obtain y t where y: "server_copy y (with_deletion t ?new)" "objs (ext v1) (bd_Namespace x) (bd_Name x) = Some y"
      using server_Update(1) [OF assms(1) u accepted] by auto
    have fin: "''wrangler.cattle.io/'' @ name \<in> set (om_Finalizers (bd_ObjectMeta y))"
      using y(1) by (simp add: server_copy_def)
    have "SharedHandler_OnChange (block_device_kind env) (block_device_handlers env c name) key
        (Object (Some y)) u = Ret (None, u)" if live: "deletion_of y = None" for u
    proof -
      have "OnBlockDeviceChange env c key (Some y) u = Ret ((None, None), u)"
        using y(1) assms(5) live
        by (intro written_settles [OF written(1,2) valid]) (auto simp: server_copy_def)
      from handlers_run [OF this, of name] live fin show ?thesis
        by (simp add: block_device_remover_def NewRemoveHandler_def addFinalizer_def hasFinalizer_def
            constructFinalizerKey_def)
    qed
    with y(2) fin show ?thesis by blast
  qed
  show ?thesis
    using run client_calls(2) [OF u] stored by (intro exI [of _ "map_option (HandlerError name) e"] exI [of _ v1]) auto
qed


section \<open>A small server\<close>

text \<open>
  The small machine with a server of its own: the state has the resources, the newest first.
  It has no status subresource, and its kernel refuses to mount the device twice. Other writers
  are not part of it.
\<close>

definition stored :: "BlockDevice list \<Rightarrow> objects" where
  "stored xs = (\<lambda>ns n. find (\<lambda>x. bd_Namespace x = ns \<and> bd_Name x = n
     \<and> version_of x \<noteq> [] \<and> om_UID (bd_ObjectMeta x) \<noteq> []
     \<and> (deletion_of x \<noteq> None \<longrightarrow> om_Finalizers (bd_ObjectMeta x) \<noteq> [])) xs)"

definition without_object :: "string \<Rightarrow> string \<Rightarrow> BlockDevice list \<Rightarrow> BlockDevice list" where
  "without_object ns n xs = filter (\<lambda>x. \<not> (bd_Namespace x = ns \<and> bd_Name x = n)) xs"

definition with_version :: "string \<Rightarrow> BlockDevice \<Rightarrow> BlockDevice" where
  "with_version v bd =
     bd\<lparr>bd_ObjectMeta := (bd_ObjectMeta bd)\<lparr>om_UID := ''uid'', om_ResourceVersion := v\<rparr>\<rparr>"

definition refused :: "string \<Rightarrow> go_error option" where
  "refused r = Some (StatusError r ''refused'')"

definition server_env :: "(bool \<times> BlockDevice list) env" where
  "server_env =
     \<lparr> e_host = (\<lambda>w. demo_host (fst w)), e_now = (\<lambda>w. 7), e_stamp = (\<lambda>w. ''T1''),
       e_CacheGet = (\<lambda>ns n w. BlockDeviceCache_Get (fold cache_Add (snd w) empty_cache) ns n),
       e_CacheList = (\<lambda>ns sel w. (BlockDeviceCache_List (fold cache_Add (snd w) empty_cache) ns sel, None)),
       e_Create = (\<lambda>ns bd w. if stored (snd w) ns (bd_Name bd) \<noteq> None then ((zero_block_device, refused ''AlreadyExists''), w)
         else let x = with_version ''1'' (with_deletion None bd) in ((x, None), (fst w, x # snd w))),
       e_Update = (\<lambda>ns bd w. case stored (snd w) ns (bd_Name bd) of
           None \<Rightarrow> ((zero_block_device, refused ''NotFound''), w)
         | Some old \<Rightarrow>
             if version_of bd \<noteq> [] \<and> version_of bd \<noteq> version_of old then ((zero_block_device, refused ''Conflict''), w)
             else if deletion_of old \<noteq> None \<and> om_Finalizers (bd_ObjectMeta bd) = []
             then ((old, None), (fst w, without_object ns (bd_Name bd) (snd w)))
             else let x = with_version (version_of old @ ''1'') (with_deletion (deletion_of old) bd)
                  in ((x, None), (fst w, x # snd w))),
       e_UpdateStatus = (\<lambda>ns bd w. ((zero_block_device, refused ''NotFound''), w)), e_Delete = (\<lambda>ns n w. (refused ''NotFound'', w)),
       e_List = (\<lambda>ns w. ((remdups (filter (\<lambda>x. stored (snd w) ns (bd_Name x) = Some x) (snd w)), None), w)),
       e_Get = (\<lambda>ns n w. case stored (snd w) ns n of None \<Rightarrow> ((zero_block_device, refused ''NotFound''), w)
         | Some x \<Rightarrow> ((x, None), w)),
       e_Watch = (\<lambda>ns opts w. ((None, refused ''NotFound''), w)),
       e_Patch = (\<lambda>ns n pt data subs w. ((zero_block_device, refused ''NotFound''), w)),
       e_Mkdir = (\<lambda>p perm w. (None, w)), 
       e_Mount = (\<lambda>dev mp ty fl opt w. if fst w then (Some ''device or resource busy'', w) else (None, (True, snd w))), e_Sleep = (\<lambda>d w. w),
       e_Node = demo_nodes \<rparr>"

abbreviation server_objects :: "bool \<times> BlockDevice list \<Rightarrow> objects" where
  "server_objects w \<equiv> stored (snd w)"

lemma with_version_simps [simp]:
  "bd_Spec (with_version v bd) = bd_Spec bd" "bd_Status (with_version v bd) = bd_Status bd"
  "bd_Name (with_version v bd) = bd_Name bd" "bd_Namespace (with_version v bd) = bd_Namespace bd"
  "version_of (with_version v bd) = v" "om_UID (bd_ObjectMeta (with_version v bd)) = ''uid''"
  "om_Finalizers (bd_ObjectMeta (with_version v bd)) = om_Finalizers (bd_ObjectMeta bd)"
  "deletion_of (with_version v bd) = deletion_of bd"
  "server_copy (with_version v bd) bd"
  by (simp_all add: with_version_def server_copy_def)

lemma stored_Some:
  "stored xs ns n = Some x \<Longrightarrow>
   x \<in> set xs \<and> bd_Namespace x = ns \<and> bd_Name x = n \<and> version_of x \<noteq> [] \<and> om_UID (bd_ObjectMeta x) \<noteq> []
   \<and> (deletion_of x \<noteq> None \<longrightarrow> om_Finalizers (bd_ObjectMeta x) \<noteq> [])"
  by (auto simp: stored_def find_Some_iff)

lemma stored_Cons:
  "v \<noteq> [] \<Longrightarrow> deletion_of bd = None \<or> om_Finalizers (bd_ObjectMeta bd) \<noteq> [] \<Longrightarrow>
   stored (with_version v bd # xs) = put_object (bd_Namespace bd) (bd_Name bd) (with_version v bd) (stored xs)"
  by (intro ext) (auto simp: stored_def put_object_def)

lemma stored_without: "stored (without_object ns n xs) = remove_object ns n (stored xs)"
proof (intro ext)
  fix ns' n'
  show "stored (without_object ns n xs) ns' n' = remove_object ns n (stored xs) ns' n'"
    by (induction xs) (auto simp: stored_def remove_object_def without_object_def)
qed

lemma server_env_Create:
  assumes "e_Create server_env (bd_Namespace bd) bd w = ((r, e), w')"
  shows "case e of
       None \<Rightarrow> stored (snd w) (bd_Namespace bd) (bd_Name bd) = None
         \<and> (\<exists>x. server_copy x (with_deletion None bd)
              \<and> stored (snd w') = put_object (bd_Namespace bd) (bd_Name bd) x (stored (snd w)))
     | Some _ \<Rightarrow> stored (snd w') = stored (snd w)"
proof (cases "stored (snd w) (bd_Namespace bd) (bd_Name bd)")
  case None
  let ?x = "with_version ''1'' (with_deletion None bd)"
  have "e = None" "snd w' = ?x # snd w" using None assms by (auto simp: server_env_def Let_def)
  then show ?thesis using None by (auto simp: stored_Cons intro!: exI [of _ ?x])
qed (use assms in \<open>auto simp: server_env_def refused_def\<close>)

lemma server_env_Update:
  assumes "e_Update server_env (bd_Namespace bd) bd w = ((r, e), w')"
  shows "stored (snd w) (bd_Namespace bd) (bd_Name bd) = None \<and> e = refused ''NotFound'' \<and> r = zero_block_device \<and> w' = w
    \<or> (\<exists>old. stored (snd w) (bd_Namespace bd) (bd_Name bd) = Some old
        \<and> (if version_of bd \<noteq> [] \<and> version_of bd \<noteq> version_of old
           then e = refused ''Conflict'' \<and> r = zero_block_device \<and> w' = w
           else e = None
             \<and> accepted_change server_objects old bd w w'
             \<and> (stored (snd w') (bd_Namespace bd) (bd_Name bd) \<in> {None, Some r})))"
proof (cases "stored (snd w) (bd_Namespace bd) (bd_Name bd)")
  case None
  then show ?thesis using assms by (simp add: server_env_def)
next
  case (Some old)
  let ?stale = "version_of bd \<noteq> [] \<and> version_of bd \<noteq> version_of old"
  let ?last = "deletion_of old \<noteq> None \<and> om_Finalizers (bd_ObjectMeta bd) = []"
  let ?x = "with_version (version_of old @ ''1'') (with_deletion (deletion_of old) bd)"
  have def: "e_Update server_env (bd_Namespace bd) bd w = (if ?stale then ((zero_block_device, refused ''Conflict''), w)
      else if ?last then ((old, None), (fst w, without_object (bd_Namespace bd) (bd_Name bd) (snd w)))
      else ((?x, None), (fst w, ?x # snd w)))"
    by (simp add: server_env_def Let_def Some)
  note answer = assms [unfolded def]
  consider (stale) ?stale | (last) "\<not> ?stale" ?last | (put) "\<not> ?stale" "\<not> ?last" by blast
  then show ?thesis
  proof cases
    case stale
    then show ?thesis using answer Some unfolding if_P [OF stale] by simp
  next
    case last
    have "e = None" "snd w' = without_object (bd_Namespace bd) (bd_Name bd) (snd w)"
      using answer unfolding if_not_P [OF last(1)] if_P [OF last(2)] by auto
    then have "stored (snd w') = remove_object (bd_Namespace bd) (bd_Name bd) (stored (snd w))" by (simp add: stored_without)
    then have "accepted_change server_objects old bd w w'" unfolding accepted_change_def if_P [OF last(2)] .
    moreover have "stored (snd w') (bd_Namespace bd) (bd_Name bd) = None"
      using \<open>stored (snd w') = _\<close> by (simp add: remove_object_def)
    ultimately show ?thesis using \<open>e = None\<close> Some last(1) by auto
  next
    case put
    have "e = None" "r = ?x" "snd w' = ?x # snd w"
      using answer unfolding if_not_P [OF put(1)] if_not_P [OF put(2)] by auto
    moreover have "deletion_of (with_deletion (deletion_of old) bd) = None
        \<or> om_Finalizers (bd_ObjectMeta (with_deletion (deletion_of old) bd)) \<noteq> []"
      using put(2) by auto
    ultimately have put': "stored (snd w') = put_object (bd_Namespace bd) (bd_Name bd) r (stored (snd w))"
      by (simp add: stored_Cons)
    have "server_copy r (with_deletion (deletion_of old) bd)" "version_of r \<noteq> version_of old"
      using \<open>r = ?x\<close> by simp_all
    with put' have "accepted_change server_objects old bd w w'"
      unfolding accepted_change_def if_not_P [OF put(2)] by blast
    then show ?thesis using \<open>e = None\<close> Some put(1) put' by auto
  qed
qed

lemma server_env_laws: "api_server server_env server_objects"
proof -
  have creates: "creates server_env server_objects"
    unfolding creates_def using server_env_Create by blast
  have "(case e of
       None \<Rightarrow> (\<exists>old. stored (snd w) (bd_Namespace bd) (bd_Name bd) = Some old
         \<and> (version_of bd = [] \<or> version_of bd = version_of old) \<and> accepted_change server_objects old bd w w')
     | Some err \<Rightarrow> stored (snd w') = stored (snd w) \<and> err \<noteq> ErrSkip)
     \<and> (\<forall>old. stored (snd w) (bd_Namespace bd) (bd_Name bd) = Some old \<and> version_of bd \<noteq> []
         \<and> version_of bd \<noteq> version_of old \<longrightarrow> IsConflict e)"
    if "e_Update server_env (bd_Namespace bd) bd w = ((r, e), w')" for bd w r e w'
    using server_env_Update [OF that]
  proof (elim disjE conjE exE)
    fix old
    assume "stored (snd w) (bd_Namespace bd) (bd_Name bd) = Some old"
      and "if version_of bd \<noteq> [] \<and> version_of bd \<noteq> version_of old
        then e = refused ''Conflict'' \<and> r = zero_block_device \<and> w' = w
        else e = None \<and> accepted_change server_objects old bd w w'
          \<and> stored (snd w') (bd_Namespace bd) (bd_Name bd) \<in> {None, Some r}"
    then show ?thesis
      by (cases "version_of bd \<noteq> [] \<and> version_of bd \<noteq> version_of old") (auto simp: refused_def IsConflict_def)
  qed (simp_all add: refused_def)
  then have updates: "updates server_env server_objects" unfolding updates_def by blast
  have "set bds = {x. stored (snd w) ns (bd_Name x) = Some x} \<and> distinct (map bd_Name bds)
      \<and> stored (snd w') = stored (snd w)"
    if "e_List server_env ns w = ((bds, None), w')" for ns w bds w'
  proof -
    have bds: "bds = remdups (filter (\<lambda>x. stored (snd w) ns (bd_Name x) = Some x) (snd w))" and w': "w' = w"
      using that by (auto simp: server_env_def)
    have "x \<in> set (snd w)" if "stored (snd w) ns (bd_Name x) = Some x" for x
      using stored_Some [OF that] by blast
    then have listed: "set bds = {x. stored (snd w) ns (bd_Name x) = Some x}"
      unfolding bds by auto
    have "inj_on bd_Name (set bds)"
    proof (rule inj_onI)
      fix x y :: BlockDevice
      assume "x \<in> set bds" "y \<in> set bds" and same: "bd_Name x = bd_Name y"
      then have "stored (snd w) ns (bd_Name x) = Some x" "stored (snd w) ns (bd_Name y) = Some y"
        unfolding listed mem_Collect_eq by blast+
      then show "x = y" unfolding same by simp
    qed
    then have "distinct (map bd_Name bds)"
      unfolding distinct_map by (simp add: bds)
    with listed show ?thesis by (simp add: w')
  qed
  then have lists: "lists server_env server_objects" unfolding lists_def by blast
  have "stored_ok (stored xs)" for xs
    unfolding stored_ok_def using stored_Some by blast
  moreover have "kernel_apart server_env server_objects"
    by (simp add: kernel_apart_def server_env_def)
  ultimately show ?thesis
    using creates updates lists by (simp add: api_server_def)
qed

text \<open>The concrete runs: a server that holds the disk of the small machine and nothing else.\<close>

definition server_device :: BlockDevice where
  "server_device = with_version ''1'' demo_device"

definition server_world :: "(bool \<times> BlockDevice list) world" where
  "server_world = \<lparr>ext = (False, [server_device]), calls = []\<rparr>"

definition server_end :: "(bool \<times> BlockDevice list) world" where
  "server_end = (case OnBlockDeviceChange server_env demo_controller ''ns/sda-n1'' (Some server_device) server_world of
     Ret (r, w) \<Rightarrow> w | Panic e \<Rightarrow> server_world)"

definition server_written :: BlockDevice where
  "server_written = (case last (calls server_end) of CallUpdate ns bd \<Rightarrow> bd | _ \<Rightarrow> server_device)"

lemma server_run_Ret:
  "OnBlockDeviceChange server_env demo_controller ''ns/sda-n1'' (Some server_device) server_world =
    Ret ((None, None), server_end)"
proof -
  have "case OnBlockDeviceChange server_env demo_controller ''ns/sda-n1'' (Some server_device) server_world of
      Ret (r, w) \<Rightarrow> r = (None, None) | Panic e \<Rightarrow> False"
    by code_simp
  then show ?thesis
    by (auto simp: server_end_def split: outcome.splits)
qed

lemma server_run_calls:
  "CallUpdate ''ns'' server_written \<in> set (new_calls server_world server_end)"
  by code_simp

text \<open>The registration saves the disk that the server knows and creates the partition.\<close>

theorem registration_stores_scan_witness:
  "\<exists>w' x. RegisterNodeBlockDevices server_env demo_controller server_world = Ret (None, w')
    \<and> server_objects (ext w') ''ns'' ''sda-n1'' = Some x \<and> bd_Spec x = bd_Spec demo_device
    \<and> server_objects (ext w') ''ns'' ''sda1-n1'' \<noteq> None"
proof -
  let ?run = "RegisterNodeBlockDevices server_env demo_controller server_world"
  have "case ?run of Ret (e, w) \<Rightarrow> e = None | Panic e \<Rightarrow> False"
    by code_simp
  then obtain w' where run: "?run = Ret (None, w')" by (auto split: outcome.splits)
  have names: "map bd_Name (scanned demo_controller) = [''sda-n1'', ''sda1-n1'']"
    and ns: "c_namespace demo_controller = ''ns''"
    and old: "stored (snd (ext server_world)) ''ns'' ''sda-n1'' = Some server_device"
    and spec: "bd_Spec server_device = bd_Spec demo_device"
    by code_simp+
  have "distinct (map bd_Name (scanned demo_controller))" by (simp add: names)
  note stored = registration_stores_scan [OF server_env_laws run this, unfolded ns, THEN conjunct1]
  have "''sda-n1'' \<in> bd_Name ` set (scanned demo_controller)" "''sda1-n1'' \<in> bd_Name ` set (scanned demo_controller)"
    by (simp_all add: names flip: set_map)
  then obtain a b :: BlockDevice where mem: "a \<in> set (scanned demo_controller)" "b \<in> set (scanned demo_controller)"
    and n: "bd_Name a = ''sda-n1''" "bd_Name b = ''sda1-n1''" by auto
  show ?thesis
    using run stored [rule_format, OF mem(1)] stored [rule_format, OF mem(2)] by (auto simp: n old spec)
qed


text \<open>The next two passes.\<close>

theorem later_syncs_settle_witness:
  "\<exists>e v1. SharedHandler_OnChange (block_device_kind server_env) (block_device_handlers server_env demo_controller ''h'')
      ''ns/sda-n1'' (Object (Some (with_version ''11'' server_written))) server_end = Ret (e, v1)
    \<and> length (calls v1) = Suc (length (calls server_end))"
proof -
  have valid: "snd (isValidFileSystem (fs_spec server_written) (fs_status server_written))"
    and fins: "om_Finalizers (bd_ObjectMeta server_written) = []"
    by code_simp+
  have "''wrangler.cattle.io/'' @ ''h'' \<notin> set (om_Finalizers (bd_ObjectMeta (with_version ''11'' server_written)))"
    using fins by (simp add: with_version_def)
  from later_syncs_settle [OF server_env_laws server_run_Ret server_run_calls valid _ this,
      where v = server_end]
  show ?thesis by auto
qed

end
