(* ===== verification/Netlink.thy ===== *)
theory Netlink
  imports Udev_Props
begin

text \<open>
  Where the udev monitor gets its events from: the netlink connection of
  \<open>vendor/github.com/pilebones/go-udev/netlink\<close>. \<open>uevent.go\<close> parses the messages of the kernel and
  of udevd, \<open>conn.go\<close> reads them from the socket and passes them on. A string is its bytes.
\<close>

section \<open>Actions and events\<close>

definition known_actions :: "string list" where
  "known_actions =
     [''add'', ''remove'', ''change'', ''move'', ''online'', ''offline'', ''bind'', ''unbind'']"

definition ParseKObjAction :: "string \<Rightarrow> string + string" where
  "ParseKObjAction raw =
     (if raw \<in> set known_actions then Inr raw
      else Inl (''unknow kobject action (got: '' @ raw @ '')''))"

abbreviation NUL :: string where
  "NUL \<equiv> [CHR 0x00]"

text \<open>The string of an event; \<open>entries\<close> is the environment in the order of the iteration.\<close>

definition entry_string :: "string \<times> string \<Rightarrow> string" where
  "entry_string kv = fst kv @ ''='' @ snd kv"

definition env_string :: "(string \<times> string) list \<Rightarrow> string" where
  "env_string entries = concat (map (\<lambda>kv. entry_string kv @ NUL) entries)"

definition UEvent_String :: "UEvent \<Rightarrow> (string \<times> string) list \<Rightarrow> string" where
  "UEvent_String e entries = ue_Action e @ ''@'' @ ue_KObj e @ NUL @ env_string entries"

section \<open>Parsing\<close>

fun parse_env :: "string list \<Rightarrow> (string, string) mapping \<Rightarrow> (string, string) mapping option" where
  "parse_env [] m = Some m"
| "parse_env (envs # rest) m =
     (case Split envs ''='' of
        [k, v] \<Rightarrow> parse_env rest (Mapping.update k v m)
      | _ \<Rightarrow> None)"

text \<open>
  \<open>strings.ToLower\<close> changes the ASCII letters of an ASCII string; \<open>lower\<close> is what it does to any
  other string, by the tables of Unicode.
\<close>

definition ascii_lower :: "char \<Rightarrow> char" where
  "ascii_lower c =
     (if 65 \<le> (of_char c :: nat) \<and> of_char c \<le> (90 :: nat) then char_of (of_char c + (32 :: nat)) else c)"

definition ToLower :: "(string \<Rightarrow> string) \<Rightarrow> string \<Rightarrow> string" where
  "ToLower lower s =
     (if list_all (\<lambda>c. (of_char c :: nat) < 128) s then map ascii_lower s else lower s)"

definition libudevMagic :: "32 word" where
  "libudevMagic = 0xfeedcafe"

text \<open>
  Four bytes as a number: the magic is in network byte order, the offset of the payload in the
  order of the machine, which is little endian on amd64 and arm64.
\<close>

definition uint32_big :: "string \<Rightarrow> 32 word" where
  "uint32_big bs =
     word_of_nat (of_char (bs ! 0) * 2 ^ 24 + of_char (bs ! 1) * 2 ^ 16 + of_char (bs ! 2) * 2 ^ 8 + of_char (bs ! 3))"

definition uint32_native :: "string \<Rightarrow> 32 word" where
  "uint32_native bs =
     word_of_nat (of_char (bs ! 0) + of_char (bs ! 1) * 2 ^ 8 + of_char (bs ! 2) * 2 ^ 16 + of_char (bs ! 3) * 2 ^ 24)"

definition parseUdevEvent :: "(string \<Rightarrow> string) \<Rightarrow> string \<Rightarrow> string + UEvent" where
  "parseUdevEvent lower raw =
     (let magic = uint32_big (drop 8 raw)
      in if magic \<noteq> libudevMagic then Inl ''cannot parse libudev event: magic number mismatch''
         else
           let payloadoff = uint32_native (drop 16 raw)
           in if word_of_nat (length raw) \<le> payloadoff then Inl ''cannot parse libudev event: invalid data offset''
              else
                let fields = Split (drop (unat payloadoff) raw) NUL
                in case parse_env (butlast fields) Mapping.empty of
                     None \<Rightarrow> Inl ''cannot parse libudev event: invalid env data''
                   | Some envdata \<Rightarrow>
                       (case ParseKObjAction (ToLower lower (udev_field envdata ''ACTION'')) of
                          Inl err \<Rightarrow> Inl err
                        | Inr action \<Rightarrow>
                            Inr \<lparr>ue_Action = action, ue_KObj = udev_field envdata ''DEVPATH'', ue_Env = envdata\<rparr>))"

text \<open>
  Messages that do not come from udevd have the form of the kernel. A message of the kernel
  without a single NUL makes the slice expression \<open>fields[1 : len(fields)-1]\<close> panic.
\<close>

definition ParseUEvent :: "(string \<Rightarrow> string) \<Rightarrow> string \<Rightarrow> (string + UEvent) outcome" where
  "ParseUEvent lower raw =
     (if 40 < length raw \<and> take 8 raw = ''libudev'' @ NUL then Ret (parseUdevEvent lower raw)
      else
        let fields = Split raw NUL
        in case Split (hd fields) ''@'' of
             [a, k] \<Rightarrow>
               (case ParseKObjAction a of
                  Inl err \<Rightarrow> Ret (Inl err)
                | Inr action \<Rightarrow>
                    if length fields < 2 then Panic ''slice bounds out of range [1:0]''
                    else
                      (case parse_env (butlast (tl fields)) Mapping.empty of
                         None \<Rightarrow> Ret (Inl ''Wrong uevent env'')
                       | Some env \<Rightarrow> Ret (Inr \<lparr>ue_Action = action, ue_KObj = k, ue_Env = env\<rparr>)))
           | _ \<Rightarrow> Ret (Inl ''Wrong uevent header''))"

section \<open>Reading the socket\<close>

text \<open>
  \<open>msgPeek\<close> grows its buffer by a page until the message leaves room in it, and returns the
  size; \<open>page\<close> is the page size less one, because it is positive. \<open>msgRead\<close> then reads the same
  message into that buffer.
\<close>

function msgPeek :: "nat \<Rightarrow> string \<Rightarrow> nat \<Rightarrow> nat" where
  "msgPeek page msg room = (if min (length msg) room < room then room else msgPeek page msg (room + Suc page))"
  by pat_completeness auto
termination
  by (relation "measure (\<lambda>(page, msg, room). Suc (length msg) - room)") auto

declare msgPeek.simps [simp del]

definition msgRead :: "string \<Rightarrow> nat \<Rightarrow> string" where
  "msgRead msg room = take room msg"

definition ReadMsg :: "nat \<Rightarrow> string \<Rightarrow> string" where
  "ReadMsg page msg = msgRead msg (msgPeek page msg (Suc page))"

lemma msgPeek_room: "length msg < msgPeek page msg room"
proof (induction page msg room rule: msgPeek.induct)
  case (1 page msg room)
  then show ?case by (subst msgPeek.simps) auto
qed

lemma ReadMsg_whole [simp]: "ReadMsg page msg = msg"
  using msgPeek_room [of msg page "Suc page"] by (simp add: ReadMsg_def msgRead_def)

text \<open>
  What the goroutine of the connection finds at the socket, one after the other, and what it
  sends to the monitor: it drops messages that it cannot parse or that do not match, and it
  ends at the first error of the socket, at the limit, or with a panic.
\<close>

datatype socket_read = Message string | PeekFails string | ReadFails string

datatype listener = Listening | Stopped | Crashed string

fun listen ::
    "(string \<Rightarrow> string) \<Rightarrow> nat \<Rightarrow> (UEvent \<Rightarrow> bool) option \<Rightarrow> int \<Rightarrow> int \<Rightarrow> socket_read list \<Rightarrow>
     input list \<times> listener" where
  "listen lower page matcher limit count [] = ([], Listening)"
| "listen lower page matcher limit count (PeekFails e # reads) =
     ([ParseError (''Unable to check available uevent, err: '' @ e)], Stopped)"
| "listen lower page matcher limit count (ReadFails e # reads) =
     ([ParseError (''Unable to read uevent, err: '' @ e)], Stopped)"
| "listen lower page matcher limit count (Message msg # reads) =
     (case ParseUEvent lower (ReadMsg page msg) of
        Panic e \<Rightarrow> ([], Crashed e)
      | Ret (Inl err) \<Rightarrow>
          (let (ins, l) = listen lower page matcher limit count reads
           in (ParseError (''Unable to parse uevent, err: '' @ err) # ins, l))
      | Ret (Inr uevent) \<Rightarrow>
          if (case matcher of None \<Rightarrow> False | Some matches \<Rightarrow> \<not> matches uevent)
          then listen lower page matcher limit count reads
          else if 0 < limit \<and> limit \<le> count + 1 then ([Uevent uevent], Stopped)
          else
            (let (ins, l) = listen lower page matcher limit (count + 1) reads
             in (Uevent uevent # ins, l)))"

text \<open>The connection of this program has no matcher and no limit.\<close>

abbreviation conn_inputs :: "(string \<Rightarrow> string) \<Rightarrow> nat \<Rightarrow> socket_read list \<Rightarrow> input list" where
  "conn_inputs lower page reads \<equiv> fst (listen lower page None 0 0 reads)"

abbreviation conn_state :: "(string \<Rightarrow> string) \<Rightarrow> nat \<Rightarrow> socket_read list \<Rightarrow> listener" where
  "conn_state lower page reads \<equiv> snd (listen lower page None 0 0 reads)"

section \<open>Round trip\<close>

text \<open>The entries of an environment that can be sent: no separators in keys and values.\<close>

definition plain_entry :: "string \<times> string \<Rightarrow> bool" where
  "plain_entry kv \<longleftrightarrow> CHR ''='' \<notin> set (fst kv) \<and> CHR 0x00 \<notin> set (fst kv) \<and> CHR 0x00 \<notin> set (snd kv)"

lemma env_string_simps [simp]:
  "env_string [] = []"
  "env_string (kv # entries) = entry_string kv @ NUL @ env_string entries"
  by (simp_all add: env_string_def)

lemma env_string_fields:
  "list_all plain_entry entries \<Longrightarrow>
   Split (env_string entries) NUL = map entry_string entries @ [[]]"
proof (induction entries)
  case Nil
  then show ?case by (simp add: Split_absent)
next
  case (Cons kv entries)
  then have "CHR 0x00 \<notin> set (entry_string kv)" by (simp add: plain_entry_def entry_string_def)
  from Split_free [OF this, of "[]" "env_string entries"] Cons show ?case by simp
qed

lemma Split_present: "d \<in> set s \<Longrightarrow> \<exists>a b rest. Split s [d] = a # b # rest"
  by (drule split_list_first) (metis Split_free Split_not_Nil append_Cons append_Nil neq_Nil_conv)

lemma parse_entry:
  assumes "plain_entry (k, v)"
  shows "parse_env (entry_string (k, v) # rest) m =
    (if CHR ''='' \<in> set v then None else parse_env rest (Mapping.update k v m))"
proof -
  have split: "Split (entry_string (k, v)) ''='' = k # Split v ''=''"
    using assms Split_free [of "CHR ''=''" k "[]" v] by (simp add: plain_entry_def entry_string_def)
  show ?thesis
  proof (cases "CHR ''='' \<in> set v")
    case True
    then obtain a b r where "Split v ''='' = a # b # r" using Split_present by blast
    with split True show ?thesis by simp
  qed (use split in \<open>simp add: Split_absent\<close>)
qed

lemma parse_env_entries:
  "list_all plain_entry entries \<Longrightarrow>
   parse_env (map entry_string entries) m =
     (if \<exists>v \<in> snd ` set entries. CHR ''='' \<in> set v then None
      else Some (fold (\<lambda>(k, v). Mapping.update k v) entries m))"
proof (induction entries arbitrary: m)
  case (Cons kv entries)
  obtain k v where kv: "kv = (k, v)" by (cases kv)
  then show ?case
    using Cons parse_entry [of k v] by (simp del: parse_env.simps(2))
qed simp

text \<open>A list of the entries of a map, in any order.\<close>

definition enumerates :: "(string \<times> string) list \<Rightarrow> (string, string) mapping \<Rightarrow> bool" where
  "enumerates entries env \<longleftrightarrow> distinct (map fst entries) \<and> Mapping.lookup env = map_of entries"

lemma fold_update_lookup:
  "distinct (map fst entries) \<Longrightarrow>
   Mapping.lookup (fold (\<lambda>(k, v). Mapping.update k v) entries m) = Mapping.lookup m ++ map_of entries"
proof (induction entries arbitrary: m)
  case (Cons kv entries)
  obtain k v where kv: "kv = (k, v)" by (cases kv)
  then have "map_of entries k = None" using Cons.prems by (auto simp: map_of_eq_None_iff)
  then show ?case
    using Cons kv by (intro ext) (auto simp: lookup_update' map_add_def split: option.splits)
qed simp

lemma fold_update_enumerates:
  "enumerates entries env \<Longrightarrow> fold (\<lambda>(k, v). Mapping.update k v) entries Mapping.empty = env"
  by (rule mapping_eqI) (simp add: enumerates_def fold_update_lookup map_add_def split: option.splits)

text \<open>C36: parsing inverts printing: the bytes of an event of a known action, whatever the order in
  which its environment was printed, parse to that event, if its object path and its
  environment are free of the separators.\<close>

theorem ParseUEvent_roundtrip:
  assumes "ue_Action e \<in> set known_actions"
    and "CHR 0x00 \<notin> set (ue_KObj e)" and "CHR ''@'' \<notin> set (ue_KObj e)"
    and "enumerates entries (ue_Env e)" and "list_all plain_entry entries"
    and "\<And>v. v \<in> snd ` set entries \<Longrightarrow> CHR ''='' \<notin> set v"
  shows "ParseUEvent lower (UEvent_String e entries) = Ret (Inr e)"
proof -
  have action: "CHR ''@'' \<notin> set (ue_Action e)" "CHR 0x00 \<notin> set (ue_Action e)"
    and kernel: "take 8 (UEvent_String e entries) \<noteq> ''libudev'' @ NUL"
    using assms(1) by (auto simp: known_actions_def UEvent_String_def)
  have "UEvent_String e entries = (ue_Action e @ ''@'' @ ue_KObj e) @ NUL @ env_string entries"
    by (simp add: UEvent_String_def)
  moreover have "CHR 0x00 \<notin> set (ue_Action e @ ''@'' @ ue_KObj e)"
    using action assms(2) by simp
  ultimately have fields: "Split (UEvent_String e entries) NUL =
      (ue_Action e @ ''@'' @ ue_KObj e) # map entry_string entries @ [[]]"
    using Split_free [of "CHR 0x00" "ue_Action e @ ''@'' @ ue_KObj e" "[]" "env_string entries"]
      env_string_fields [OF assms(5)] by simp
  have header: "Split (ue_Action e @ ''@'' @ ue_KObj e) ''@'' = [ue_Action e, ue_KObj e]"
    using Split_free [of "CHR ''@''" "ue_Action e" "[]" "ue_KObj e"] action assms(3) by (simp add: Split_absent)
  have env: "parse_env (map entry_string entries) Mapping.empty = Some (ue_Env e)"
    using parse_env_entries [OF assms(5)] assms(6) fold_update_enumerates [OF assms(4)] by auto
  show ?thesis
    using kernel assms(1) env
    unfolding ParseUEvent_def fields Let_def list.sel header by (simp add: ParseKObjAction_def)
qed

definition demo_uevent :: UEvent where
  "demo_uevent = \<lparr>ue_Action = ''add'', ue_KObj = ''/block/sda'',
     ue_Env = Mapping.update ''DEVNAME'' ''/dev/sda'' (Mapping.update ''ID_TYPE'' ''disk'' Mapping.empty)\<rparr>"

theorem ParseUEvent_roundtrip_witness:
  "ParseUEvent (\<lambda>s. s) (UEvent_String demo_uevent [(''ID_TYPE'', ''disk''), (''DEVNAME'', ''/dev/sda'')]) =
    Ret (Inr demo_uevent)"
proof (rule ParseUEvent_roundtrip)
  show "enumerates [(''ID_TYPE'', ''disk''), (''DEVNAME'', ''/dev/sda'')] (ue_Env demo_uevent)"
    by (auto simp: enumerates_def demo_uevent_def lookup_update' intro!: ext)
qed (auto simp: demo_uevent_def known_actions_def plain_entry_def)


section \<open>Messages of udevd\<close>

text \<open>
  The header of a message of udevd, as far as it is read: the prefix, the magic number and the
  offset of the payload.
\<close>

definition udev_header :: "string \<Rightarrow> bool" where
  "udev_header header \<longleftrightarrow>
     40 \<le> length header \<and> take 8 header = ''libudev'' @ NUL
     \<and> uint32_big (drop 8 header) = libudevMagic \<and> unat (uint32_native (drop 16 header)) = length header"

lemma header_bytes:
  assumes "k + 4 \<le> length header"
  shows "uint32_big (drop k (header @ rest)) = uint32_big (drop k header)"
    and "uint32_native (drop k (header @ rest)) = uint32_native (drop k header)"
proof -
  have "drop k (header @ rest) ! j = drop k header ! j" if "j < 4" for j
  proof -
    have "j < length header - k" using assms that by linarith
    then show ?thesis by (simp add: nth_append)
  qed
  from this [of 0] this [of 1] this [of 2] this [of 3]
  show "uint32_big (drop k (header @ rest)) = uint32_big (drop k header)"
    "uint32_native (drop k (header @ rest)) = uint32_native (drop k header)"
    by (simp_all add: uint32_big_def uint32_native_def)
qed

text \<open>C37: a message of udevd whose header is intact is an event exactly when its action, in lower
  case, is known and no value in its environment contains an equals sign; then the event has
  the whole environment. One value with an equals sign, in whatever property, and the event
  is dropped with an error.\<close>

theorem ParseUEvent_udev:
  assumes "udev_header header" and "length header + length (env_string entries) < 2 ^ 32"
    and "enumerates entries env" and "list_all plain_entry entries" and "entries \<noteq> []"
  shows "ParseUEvent lower (header @ env_string entries) =
    Ret (if \<exists>v \<in> snd ` set entries. CHR ''='' \<in> set v then Inl ''cannot parse libudev event: invalid env data''
      else case ParseKObjAction (ToLower lower (udev_field env ''ACTION'')) of
             Inl err \<Rightarrow> Inl err
           | Inr action \<Rightarrow> Inr \<lparr>ue_Action = action, ue_KObj = udev_field env ''DEVPATH'', ue_Env = env\<rparr>)"
proof -
  let ?raw = "header @ env_string entries"
  have header: "40 \<le> length header" "take 8 header = ''libudev'' @ NUL"
    "uint32_big (drop 8 header) = libudevMagic" "unat (uint32_native (drop 16 header)) = length header"
    using assms(1) unfolding udev_header_def by blast+
  have bytes: "uint32_big (drop 8 ?raw) = libudevMagic" "unat (uint32_native (drop 16 ?raw)) = length header"
    using header header_bytes(1) [of 8 header] header_bytes(2) [of 16 header] by simp_all
  have long: "0 < length (env_string entries)"
    using assms(5) by (cases entries) auto
  have "unat (word_of_nat n :: 32 word) = n" if "n < 2 ^ 32" for n
    using that by (simp add: unsigned_of_nat take_bit_nat_eq_self_iff)
  from this [of "length ?raw"] have "unat (word_of_nat (length ?raw) :: 32 word) = length ?raw"
    using assms(2) by (simp only: length_append)
  then have offset: "\<not> word_of_nat (length ?raw) \<le> uint32_native (drop 16 ?raw)"
    using bytes(2) long by (simp add: word_le_nat_alt)
  have fields: "butlast (Split (env_string entries) NUL) = map entry_string entries"
    by (simp add: env_string_fields [OF assms(4)])
  have "40 < length ?raw" "take 8 ?raw = ''libudev'' @ NUL"
    using header(1,2) long by (simp_all only: length_append take_append) simp_all
  then have "ParseUEvent lower ?raw = Ret (parseUdevEvent lower ?raw)"
    by (simp only: ParseUEvent_def) simp
  also have "parseUdevEvent lower ?raw =
    (case parse_env (map entry_string entries) Mapping.empty of
       None \<Rightarrow> Inl ''cannot parse libudev event: invalid env data''
     | Some envdata \<Rightarrow>
         (case ParseKObjAction (ToLower lower (udev_field envdata ''ACTION'')) of
            Inl err \<Rightarrow> Inl err
          | Inr action \<Rightarrow> Inr \<lparr>ue_Action = action, ue_KObj = udev_field envdata ''DEVPATH'', ue_Env = envdata\<rparr>))"
    using bytes offset by (simp add: parseUdevEvent_def Let_def fields)
  finally show ?thesis
    using parse_env_entries [OF assms(4), of Mapping.empty] fold_update_enumerates [OF assms(3)] by auto
qed

definition demo_header :: string where
  "demo_header = ''libudev'' @ NUL @ [CHR 0xFE, CHR 0xED, CHR 0xCA, CHR 0xFE] @ replicate 4 (CHR 0x00)
     @ [CHR 40, CHR 0x00, CHR 0x00, CHR 0x00] @ replicate 20 (CHR 0x00)"

definition demo_entries :: "string \<Rightarrow> (string \<times> string) list" where
  "demo_entries label = [(''ACTION'', ''add''), (''DEVNAME'', ''/dev/sda''), (''ID_FS_LABEL_ENC'', label)]"

definition demo_udev_env :: "string \<Rightarrow> (string, string) mapping" where
  "demo_udev_env label = Mapping.update ''ACTION'' ''add''
     (Mapping.update ''DEVNAME'' ''/dev/sda'' (Mapping.update ''ID_FS_LABEL_ENC'' label Mapping.empty))"

lemma demo_header_ok: "udev_header demo_header" and demo_header_length: "length demo_header = 40"
  by code_simp+

lemma demo_entries_env: "enumerates (demo_entries label) (demo_udev_env label)"
  by (auto simp: enumerates_def demo_entries_def demo_udev_env_def lookup_update' intro!: ext)

theorem ParseUEvent_udev_witness:
  "ParseUEvent (\<lambda>s. s) (demo_header @ env_string (demo_entries ''data'')) =
      Ret (Inr \<lparr>ue_Action = ''add'', ue_KObj = [], ue_Env = demo_udev_env ''data''\<rparr>)
    \<and> ParseUEvent (\<lambda>s. s) (demo_header @ env_string (demo_entries ''a=b'')) =
      Ret (Inl ''cannot parse libudev event: invalid env data'')"
proof -
  have "ParseUEvent (\<lambda>s. s) (demo_header @ env_string (demo_entries label)) =
    Ret (if \<exists>v \<in> snd ` set (demo_entries label). CHR ''='' \<in> set v then Inl ''cannot parse libudev event: invalid env data''
      else case ParseKObjAction (ToLower (\<lambda>s. s) (udev_field (demo_udev_env label) ''ACTION'')) of
             Inl err \<Rightarrow> Inl err
           | Inr action \<Rightarrow> Inr \<lparr>ue_Action = action, ue_KObj = udev_field (demo_udev_env label) ''DEVPATH'',
               ue_Env = demo_udev_env label\<rparr>)"
    if "label \<in> {''data'', ''a=b''}" for label
    by (rule ParseUEvent_udev [OF demo_header_ok _ demo_entries_env])
      (use that in \<open>auto simp: demo_entries_def demo_header_length plain_entry_def entry_string_def\<close>)
  from this [of "''data''"] this [of "''a=b''"] show ?thesis
    by (simp add: demo_entries_def demo_udev_env_def udev_field_def lookup_update' ToLower_def ascii_lower_def
        ParseKObjAction_def known_actions_def)
qed

section \<open>The listener and the monitor\<close>

lemma conn_count: "listen lower page None 0 k reads = listen lower page None 0 0 reads"
proof (induction reads arbitrary: k)
  case (Cons r reads)
  show ?case
    by (cases r) (auto simp: Cons.IH [of "k + 1"] Cons.IH [of 1] Cons.IH [of k] split: outcome.splits sum.splits)
qed simp

lemma conn_append:
  "conn_state lower page pre = Listening \<Longrightarrow>
   listen lower page None 0 0 (pre @ reads) =
     (conn_inputs lower page pre @ conn_inputs lower page reads, conn_state lower page reads)"
proof (induction pre)
  case (Cons r pre)
  then show ?case
    by (cases r) (auto simp: conn_count [of _ _ 1] case_prod_beta split: outcome.splits sum.splits)
qed simp

lemma monitor_skips_error:
  "monitor n env u (pre @ ParseError m # post) w = monitor n env u (pre @ post) w"
  by (induction n env u pre w rule: monitor.induct) (auto split: option.splits outcome.splits)

text \<open>C35: the monitor handles the events of the messages that parse and goes on after a message that
  does not; but the first error of the socket ends the listening for good: whatever arrives
  afterwards, the daemon does what it would do if nothing had arrived, and goes on waiting.\<close>

theorem listener_deaf_after_error:
  assumes "conn_state lower page pre = Listening"
    and "ParseUEvent lower msg = Ret (Inl err)" and "r \<in> {PeekFails e, ReadFails e}"
  shows "monitor n env u (conn_inputs lower page (pre @ Message msg # post)) w =
      monitor n env u (conn_inputs lower page (pre @ post)) w
    \<and> monitor n env u (conn_inputs lower page (pre @ r # post)) w = monitor n env u (conn_inputs lower page pre) w"
proof
  show "monitor n env u (conn_inputs lower page (pre @ Message msg # post)) w =
      monitor n env u (conn_inputs lower page (pre @ post)) w"
    using assms(2) by (simp add: conn_append [OF assms(1)] case_prod_beta monitor_skips_error)
  show "monitor n env u (conn_inputs lower page (pre @ r # post)) w = monitor n env u (conn_inputs lower page pre) w"
    using assms(3) monitor_skips_error [where post = "[]"] by (auto simp: conn_append [OF assms(1)])
qed

theorem listener_deaf_after_error_witness:
  "monitor 1 (demo_env []) demo_monitor (conn_inputs (\<lambda>s. s) 4095
     [PeekFails ''no buffer space available'', Message (UEvent_String demo_uevent [])]) demo_world =
   Some (Ret (Waiting, demo_world))"
proof -
  have "ParseUEvent (\<lambda>s. s) ''add'' = Ret (Inl ''Wrong uevent header'')"
    by (simp add: ParseUEvent_def Split_absent)
  from listener_deaf_after_error [of "\<lambda>s. s" 4095 "[]", OF _ this, of "PeekFails ''no buffer space available''"]
  show ?thesis by simp
qed

end
