(* ===== verification/Informer.thy ===== *)
theory Informer
  imports Generated
begin

text \<open>
  The informer caches after any history. The shared informer of client-go applies the deltas of
  a resource to its store one by one, and the store can also be replaced as a whole; this
  theory relates the store with its indices, whatever indexers were added, to a plain map
  from keys to resources that undergoes the same operations. It is about any kind of
  resource with metadata; the caches of the block devices and of the nodes are two instances.
\<close>

section \<open>The cache of a kind of resource\<close>

text \<open>\<open>meta\<close> is the metadata of a resource of the kind.\<close>

definition namespace_index :: "('o \<Rightarrow> ObjectMeta) \<Rightarrow> 'o \<Rightarrow> string list" where
  "namespace_index meta x = [om_Namespace (meta x)]"

definition ListAllByNamespace :: "('o \<Rightarrow> ObjectMeta) \<Rightarrow> 'o store \<Rightarrow> string \<Rightarrow> selector \<Rightarrow> 'o list" where
  "ListAllByNamespace meta c namespace sel =
     (let select = filter (\<lambda>m. selector_Empty sel \<or> selector_Matches sel (om_Labels (meta m)))
      in if namespace = [] then select (store_List c)
         else case store_ByIndex c NamespaceIndex namespace of
                Inl err \<Rightarrow>
                  filter (\<lambda>m. om_Namespace (meta m) = namespace \<and> selector_Matches sel (om_Labels (meta m)))
                    (store_List c)
              | Inr objs \<Rightarrow> select objs)"

text \<open>The generated cache of the nodes.\<close>

type_synonym node_store = "Node store"

definition NodeCache_Get :: "node_store \<Rightarrow> string \<Rightarrow> string \<Rightarrow> go_error + Node" where
  "NodeCache_Get c namespace name =
     (case store_Get c (namespace @ ''/'' @ name) of
        None \<Rightarrow> Inl (StatusError ''NotFound'' (''nodes.longhorn.io '' @ [CHR 0x22] @ name @ [CHR 0x22] @ '' not found''))
      | Some n \<Rightarrow> Inr n)"

definition NodeCache_List :: "node_store \<Rightarrow> string \<Rightarrow> selector \<Rightarrow> Node list" where
  "NodeCache_List = ListAllByNamespace node_ObjectMeta"

definition NodeCache_AddIndexer :: "string \<Rightarrow> (Node \<Rightarrow> string list) \<Rightarrow> node_store \<Rightarrow> node_store outcome" where
  "NodeCache_AddIndexer indexName indexer c =
     (case store_AddIndexers [(indexName, indexer)] c of
        (c', None) \<Rightarrow> Ret c'
      | (c', Some err) \<Rightarrow> Panic (Error err))"

definition NodeCache_GetByIndex :: "node_store \<Rightarrow> string \<Rightarrow> string \<Rightarrow> string + Node list" where
  "NodeCache_GetByIndex c indexName key =
     (case store_ByIndex c indexName key of Inl err \<Rightarrow> Inl err | Inr objs \<Rightarrow> Inr objs)"

text \<open>The cache of the block devices is the other instance.\<close>

lemma BlockDeviceCache_List_kind: "BlockDeviceCache_List = ListAllByNamespace bd_ObjectMeta"
  by (intro ext) (simp add: BlockDeviceCache_List_def ListAllByNamespace_def append_matching_def Let_def split: sum.splits)

lemma MetaNamespaceKeyFunc_kind: "MetaNamespaceKeyFunc = object_key bd_ObjectMeta"
  by (intro ext) (simp add: MetaNamespaceKeyFunc_def object_key_def keyFunc_def)

lemma MetaNamespaceIndexFunc_kind: "MetaNamespaceIndexFunc = namespace_index bd_ObjectMeta"
  by (intro ext) (simp add: MetaNamespaceIndexFunc_def namespace_index_def)

section \<open>Operations\<close>

text \<open>
  What the informer does to its indexer: \<open>Stored\<close> for the deltas sync, replaced, added and
  updated, which all end in \<open>Add\<close> or \<open>Update\<close>, \<open>Deleted\<close>, and the store's \<open>Replace\<close> by a whole
  list, in which the last resource with a key counts.
\<close>

datatype 'o informer_op = Stored 'o | Deleted 'o | Replaced "'o list"

definition cache_Replace :: "('o \<Rightarrow> ObjectMeta) \<Rightarrow> 'o list \<Rightarrow> 'o store \<Rightarrow> 'o store" where
  "cache_Replace meta xs c = store_Replace (foldl (\<lambda>m x. AList.update (object_key meta x) x m) [] xs) c"

fun informer_step :: "('o \<Rightarrow> ObjectMeta) \<Rightarrow> 'o informer_op \<Rightarrow> 'o store \<Rightarrow> 'o store" where
  "informer_step meta (Stored x) c = store_Add (object_key meta x) x c"
| "informer_step meta (Deleted x) c = store_Delete (object_key meta x) c"
| "informer_step meta (Replaced xs) c = cache_Replace meta xs c"

text \<open>The reference: a map from keys to resources.\<close>

fun reference_step :: "('o \<Rightarrow> ObjectMeta) \<Rightarrow> 'o informer_op \<Rightarrow> (string \<rightharpoonup> 'o) \<Rightarrow> (string \<rightharpoonup> 'o)" where
  "reference_step meta (Stored x) m = m(object_key meta x \<mapsto> x)"
| "reference_step meta (Deleted x) m = m(object_key meta x := None)"
| "reference_step meta (Replaced xs) m = foldl (\<lambda>m x. m(object_key meta x \<mapsto> x)) Map.empty xs"

section \<open>Replacing the content\<close>

lemma foldl_update_map:
  "map_of (foldl (\<lambda>m bd. AList.update (key bd) bd m) xs bds) = foldl (\<lambda>m bd. m(key bd \<mapsto> bd)) (map_of xs) bds"
  "distinct (map fst xs) \<Longrightarrow> distinct (map fst (foldl (\<lambda>m bd. AList.update (key bd) bd m) xs bds))"
  by (induction bds arbitrary: xs) (simp_all add: update_conv' distinct_update)

lemma foldl_updateIndices_frame [simp]:
  "items (foldl (\<lambda>c (key, item). updateIndices None item key c) c xs) = items c"
  "indexers (foldl (\<lambda>c (key, item). updateIndices None item key c) c xs) = indexers c"
  by (induction xs arbitrary: c) (simp_all add: case_prod_beta)

lemma foldl_updateIndices_keys:
  assumes "distinct (map fst (indexers c))" and "map_of (indexers c) name = Some f"
    and "distinct (index_keys c name v)"
  shows "distinct (index_keys (foldl (\<lambda>c (key, item). updateIndices None item key c) c xs) name v)
    \<and> set (index_keys (foldl (\<lambda>c (key, item). updateIndices None item key c) c xs) name v) =
      set (index_keys c name v) \<union> {k. \<exists>x. (k, x) \<in> set xs \<and> v \<in> set (f x)}"
  using assms
proof (induction xs arbitrary: c)
  case (Cons kx xs)
  obtain k x where kx: "kx = (k, x)" by (cases kx)
  let ?c = "updateIndices None x k c"
  have "index_keys ?c name v =
      (if v \<in> set (f x) then set_Insert k (index_keys c name v) else index_keys c name v)"
    using index_keys_update [OF Cons.prems(1,2), of None x k v] by simp
  then show ?case
    using Cons.IH [of ?c] Cons.prems by (auto simp: kx)
qed simp

lemma store_ok_Replace:
  assumes "distinct (map fst (indexers c))" and "distinct (map fst xs)"
  shows "store_ok (store_Replace xs c)"
proof -
  let ?c = "c\<lparr>items := xs, indices := []\<rparr>"
  have "index_keys ?c name v = []" for name v by (simp add: index_keys_def)
  then have "distinct (index_keys (store_Replace xs c) name v)
      \<and> set (index_keys (store_Replace xs c) name v) = {k. \<exists>x. (k, x) \<in> set xs \<and> v \<in> set (f x)}"
    if "map_of (indexers c) name = Some f" for name f v
    using foldl_updateIndices_keys [of ?c name f v xs] assms(1) that by (simp add: store_Replace_def)
  then show ?thesis
    using assms map_of_eq_Some_iff [OF assms(2)] by (simp add: store_ok_def store_Replace_def)
qed

section \<open>Equivalence\<close>

definition start_store :: "('o \<Rightarrow> ObjectMeta) \<Rightarrow> (string \<times> ('o \<Rightarrow> string list)) list \<Rightarrow> 'o store" where
  "start_store meta extra = \<lparr>items = [], indexers = (NamespaceIndex, namespace_index meta) # extra, indices = []\<rparr>"

definition agrees ::
    "('o \<Rightarrow> ObjectMeta) \<Rightarrow> (string \<times> ('o \<Rightarrow> string list)) list \<Rightarrow> 'o store \<Rightarrow> (string \<rightharpoonup> 'o) \<Rightarrow> bool" where
  "agrees meta extra c m \<longleftrightarrow>
     store_ok c \<and> map_of (items c) = m \<and> indexers c = (NamespaceIndex, namespace_index meta) # extra
     \<and> (\<forall>k x. m k = Some x \<longrightarrow> k = object_key meta x)"

lemma store_ops_frame [simp]:
  "indexers (store_Add k x c) = indexers c" "indexers (store_Delete k c) = indexers c"
  "indexers (store_Replace xs c) = indexers c" "items (store_Replace xs c) = xs"
  by (simp_all add: store_Add_def store_Delete_def store_Replace_def Let_def split: option.splits)

lemma agrees_step:
  assumes "agrees meta extra c m"
  shows "agrees meta extra (informer_step meta op c) (reference_step meta op m)"
proof (cases op)
  case (Stored x)
  have "map_of (items (store_Add (object_key meta x) x c)) = m(object_key meta x \<mapsto> x)"
    using assms store_Get_Add [of "object_key meta x" x c]
    by (simp add: agrees_def store_Get_def fun_eq_iff)
  then show ?thesis
    using assms store_ok_Add by (auto simp: Stored agrees_def split: if_splits)
next
  case (Deleted x)
  have "map_of (items (store_Delete (object_key meta x) c)) = m(object_key meta x := None)"
    using assms store_Get_Delete [of "object_key meta x" c]
    by (simp add: agrees_def store_Get_def fun_eq_iff)
  then show ?thesis
    using assms store_ok_Delete by (auto simp: Deleted agrees_def split: if_splits)
next
  case (Replaced xs)
  have keys: "foldl (\<lambda>m x. m(object_key meta x \<mapsto> x)) m0 xs k = Some x \<Longrightarrow>
      m0 k = Some x \<or> k = object_key meta x" for m0 k x
    by (induction xs arbitrary: m0) (force split: if_splits)+
  have "distinct (map fst (indexers c))"
    using assms unfolding agrees_def store_ok_def by blast
  then have "store_ok (cache_Replace meta xs c)"
    unfolding cache_Replace_def by (intro store_ok_Replace foldl_update_map(2)) simp_all
  then show ?thesis
    using assms keys [of Map.empty] by (auto simp: Replaced agrees_def cache_Replace_def foldl_update_map(1))
qed

lemma agrees_start:
  assumes "distinct (NamespaceIndex # map fst extra)"
  shows "agrees meta extra (start_store meta extra) Map.empty"
  using assms by (simp add: agrees_def start_store_def store_ok_def index_keys_def)

lemma agrees_history:
  assumes "distinct (NamespaceIndex # map fst extra)"
  shows "agrees meta extra (fold (informer_step meta) ops (start_store meta extra))
    (fold (reference_step meta) ops Map.empty)"
proof (induction ops rule: rev_induct)
  case Nil
  then show ?case using agrees_start [OF assms] by simp
next
  case (snoc op ops)
  then show ?case using agrees_step by simp
qed

text \<open>What an index has, in terms of the map.\<close>

lemma agrees_index:
  assumes "agrees meta extra c m" and "map_of (indexers c) name = Some f"
  shows "\<exists>objs. store_ByIndex c name v = Inr objs \<and> set objs = {x \<in> ran m. v \<in> set (f x)}
    \<and> distinct (map (object_key meta) objs)"
proof -
  let ?ks = "index_keys c name v" and ?obj = "\<lambda>k. the (map_of (items c) k)"
  have m: "map_of (items c) = m" and key: "\<And>k x. m k = Some x \<Longrightarrow> k = object_key meta x"
    and ks: "distinct ?ks" "set ?ks = {k. \<exists>x. m k = Some x \<and> v \<in> set (f x)}"
    using assms by (auto simp: agrees_def store_ok_def)
  have "set (map ?obj ?ks) = {x \<in> ran m. v \<in> set (f x)}"
    by (auto simp: m ks(2) ran_def image_iff) (metis option.sel)
  moreover have "map (object_key meta) (map ?obj ?ks) = ?ks"
    using key by (auto simp: m ks(2) intro!: map_idI)
  ultimately show ?thesis
    using ks(1) assms(2) by (auto simp: store_ByIndex_def)
qed

lemma agrees_list:
  assumes "agrees meta extra c m"
  shows "set (store_List c) = ran m" "distinct (map (object_key meta) (store_List c))"
proof -
  have d: "distinct (map fst (items c))" and m: "map_of (items c) = m"
    and key: "\<And>k x. m k = Some x \<Longrightarrow> k = object_key meta x"
    using assms by (auto simp: agrees_def store_ok_def)
  show "set (store_List c) = ran m"
    using ran_distinct [OF d] by (simp add: store_List_def m)
  have "map (object_key meta) (store_List c) = map fst (items c)"
    using key map_of_eq_Some_iff [OF d] by (auto simp: store_List_def m)
  then show "distinct (map (object_key meta) (store_List c))" using d by simp
qed

lemma agrees_namespace:
  assumes "agrees meta extra c m"
  shows "set (ListAllByNamespace meta c ns sel) =
      {x \<in> ran m. (ns = [] \<or> om_Namespace (meta x) = ns) \<and> selector_Matches sel (om_Labels (meta x))}"
    and "distinct (map (object_key meta) (ListAllByNamespace meta c ns sel))"
proof -
  have "map_of (indexers c) NamespaceIndex = Some (namespace_index meta)"
    using assms by (simp add: agrees_def)
  from agrees_index [OF assms this] obtain objs where
    objs: "store_ByIndex c NamespaceIndex ns = Inr objs" "set objs = {x \<in> ran m. ns \<in> set (namespace_index meta x)}"
      "distinct (map (object_key meta) objs)" by blast
  have sel: "selector_Empty sel \<or> selector_Matches sel ls \<longleftrightarrow> selector_Matches sel ls" for ls
    by (auto simp: selector_Empty_def)
  have list: "ListAllByNamespace meta c ns sel =
      filter (\<lambda>x. selector_Matches sel (om_Labels (meta x))) (if ns = [] then store_List c else objs)"
    unfolding ListAllByNamespace_def Let_def sel by (simp add: objs(1))
  show "set (ListAllByNamespace meta c ns sel) =
      {x \<in> ran m. (ns = [] \<or> om_Namespace (meta x) = ns) \<and> selector_Matches sel (om_Labels (meta x))}"
    using agrees_list(1) [OF assms] objs(2) unfolding list by (auto simp: namespace_index_def)
  show "distinct (map (object_key meta) (ListAllByNamespace meta c ns sel))"
    using agrees_list(2) [OF assms] objs(3) unfolding list by (simp add: distinct_map_filter)
qed

lemma agrees_extra:
  assumes "agrees meta extra c m" and "distinct (NamespaceIndex # map fst extra)" and "(name, f) \<in> set extra"
  shows "\<exists>objs. store_ByIndex c name v = Inr objs \<and> set objs = {x \<in> ran m. v \<in> set (f x)}
    \<and> distinct (map (object_key meta) objs)"
proof -
  have "map_of (indexers c) name = Some f"
    using assms by (auto simp: agrees_def map_of_eq_Some_iff intro: rev_image_eqI)
  then show ?thesis by (rule agrees_index [OF assms(1)])
qed

text \<open>C21: the indexed cache is equivalent to a plain map. After any history of added, updated, deleted
  and replaced resources and with any indexers, a lookup returns what the map has under the
  key, a list returns the resources of the map in the namespace (in all, if none is named)
  that match the selector, each once, and a lookup by index returns the resources of the map
  whose index values contain the key, each once.\<close>

theorem informer_equals_map:
  assumes "distinct (NamespaceIndex # map fst extra)"
    and "c = fold (informer_step bd_ObjectMeta) ops (start_store bd_ObjectMeta extra)"
    and "m = fold (reference_step bd_ObjectMeta) ops Map.empty"
  shows "cache_lookup c ns n = m (ns @ ''/'' @ n)
    \<and> set (BlockDeviceCache_List c ns sel) =
        {bd \<in> ran m. (ns = [] \<or> bd_Namespace bd = ns) \<and> selector_Matches sel (om_Labels (bd_ObjectMeta bd))}
    \<and> distinct (map MetaNamespaceKeyFunc (BlockDeviceCache_List c ns sel))
    \<and> (\<forall>(name, f) \<in> set extra. \<exists>objs. BlockDeviceCache_GetByIndex c name v = Inr objs
        \<and> set objs = {bd \<in> ran m. v \<in> set (f bd)} \<and> distinct (map MetaNamespaceKeyFunc objs))"
proof -
  have ok: "agrees bd_ObjectMeta extra c m"
    using agrees_history [OF assms(1)] assms(2,3) by simp
  have "cache_lookup c ns n = m (ns @ ''/'' @ n)"
    using ok by (simp only: cache_lookup_items agrees_def)
  moreover have "\<exists>objs. BlockDeviceCache_GetByIndex c name v = Inr objs
      \<and> set objs = {bd \<in> ran m. v \<in> set (f bd)} \<and> distinct (map MetaNamespaceKeyFunc objs)"
    if "(name, f) \<in> set extra" for name f
    using agrees_extra [OF ok assms(1) that, of v]
    by (auto simp: BlockDeviceCache_GetByIndex_def MetaNamespaceKeyFunc_kind)
  ultimately show ?thesis
    using agrees_namespace [OF ok] unfolding BlockDeviceCache_List_kind MetaNamespaceKeyFunc_kind by blast
qed

text \<open>The same for the nodes.\<close>

lemma node_informer_equals_map:
  assumes "distinct (NamespaceIndex # map fst extra)"
    and "c = fold (informer_step node_ObjectMeta) ops (start_store node_ObjectMeta extra)"
    and "m = fold (reference_step node_ObjectMeta) ops Map.empty"
  shows "(case NodeCache_Get c ns n of Inl e \<Rightarrow> IsNotFound (Some e) \<and> m (ns @ ''/'' @ n) = None
      | Inr x \<Rightarrow> m (ns @ ''/'' @ n) = Some x)"
    and "set (NodeCache_List c ns sel) =
      {x \<in> ran m. (ns = [] \<or> node_Namespace x = ns) \<and> selector_Matches sel (om_Labels (node_ObjectMeta x))}"
    and "(name, f) \<in> set extra \<Longrightarrow>
      \<exists>objs. NodeCache_GetByIndex c name v = Inr objs \<and> set objs = {x \<in> ran m. v \<in> set (f x)}"
proof -
  have ok: "agrees node_ObjectMeta extra c m"
    using agrees_history [OF assms(1)] assms(2,3) by simp
  then show "(case NodeCache_Get c ns n of Inl e \<Rightarrow> IsNotFound (Some e) \<and> m (ns @ ''/'' @ n) = None
      | Inr x \<Rightarrow> m (ns @ ''/'' @ n) = Some x)"
    by (auto simp: NodeCache_Get_def store_Get_def agrees_def split: option.splits)
  show "set (NodeCache_List c ns sel) =
      {x \<in> ran m. (ns = [] \<or> node_Namespace x = ns) \<and> selector_Matches sel (om_Labels (node_ObjectMeta x))}"
    unfolding NodeCache_List_def by (rule agrees_namespace(1) [OF ok])
  show "\<exists>objs. NodeCache_GetByIndex c name v = Inr objs \<and> set objs = {x \<in> ran m. v \<in> set (f x)}"
    if "(name, f) \<in> set extra"
    using agrees_extra [OF ok assms(1) that, of v] by (auto simp: NodeCache_GetByIndex_def)
qed

text \<open>The store that the program's controllers start with, and one with an indexer added.\<close>

lemma start_store_empty: "start_store bd_ObjectMeta [] = empty_cache"
  by (simp add: start_store_def empty_cache_def MetaNamespaceIndexFunc_kind)

lemma start_store_AddIndexer:
  "name \<noteq> NamespaceIndex \<Longrightarrow>
   BlockDeviceCache_AddIndexer name f empty_cache = Ret (start_store bd_ObjectMeta [(name, f)])"
  by (simp add: BlockDeviceCache_AddIndexer_def store_AddIndexers_def empty_cache_def start_store_def
      MetaNamespaceIndexFunc_kind)

definition demo_indexers :: "(string \<times> (BlockDevice \<Rightarrow> string list)) list" where
  "demo_indexers = [(''node'', \<lambda>bd. [spec_NodeName (bd_Spec bd)])]"

definition demo_history :: "BlockDevice informer_op list" where
  "demo_history = [Replaced [zero_block_device, demo_device], Deleted zero_block_device, Stored demo_device]"

theorem informer_equals_map_witness:
  "\<exists>objs. BlockDeviceCache_GetByIndex (fold (informer_step bd_ObjectMeta) demo_history
      (start_store bd_ObjectMeta demo_indexers)) ''node'' ''n1'' = Inr objs
    \<and> set objs = {demo_device}"
proof -
  have "distinct (NamespaceIndex # map fst demo_indexers)"
    by (simp add: demo_indexers_def NamespaceIndex_def)
  note eq = informer_equals_map [OF this refl refl, where ops = demo_history and v = "''n1''",
    THEN conjunct2, THEN conjunct2, THEN conjunct2]
  have keys: "object_key bd_ObjectMeta zero_block_device \<noteq> object_key bd_ObjectMeta demo_device"
    and node: "spec_NodeName (bd_Spec demo_device) = ''n1''"
    by code_simp+
  have "ran (fold (reference_step bd_ObjectMeta) demo_history Map.empty) = {demo_device}"
    using keys by (auto simp: demo_history_def ran_def)
  then show ?thesis
    using eq unfolding demo_indexers_def by (auto simp: node)
qed

end
