(* ===== verification/Deep_Copy.thy ===== *)
theory Deep_Copy
  imports Main
begin

text \<open>
  Deep copies on an explicit heap. A Go struct holds pointers, maps and slices, which are
  addresses here; a copy must not share any of them with the original, because the original
  may belong to the informer cache. This theory holds the contract of a copy and the ways to
  build one; theory \<open>Object_Copies\<close> has the generated copies of the program.
\<close>

section \<open>The heap\<close>

text \<open>Addresses count up: allocating appends a cell.\<close>

type_synonym 'c heap = "'c list"

definition alloc :: "'c \<Rightarrow> 'c heap \<Rightarrow> nat \<times> 'c heap" where
  "alloc c h = (length h, h @ [c])"

text \<open>The heap \<open>g\<close> comes from \<open>h\<close> by any writes to the addresses \<open>A\<close>.\<close>

definition only_writes :: "nat set \<Rightarrow> 'c heap \<Rightarrow> 'c heap \<Rightarrow> bool" where
  "only_writes A h g \<longleftrightarrow> length g = length h \<and> (\<forall>a. a \<notin> A \<longrightarrow> g ! a = h ! a)"

lemma only_writes_refl: "only_writes A h h"
  by (simp add: only_writes_def)

lemma only_writes_update: "a \<in> A \<Longrightarrow> only_writes A h g \<Longrightarrow> only_writes A h (g[a := c])"
  by (auto simp: only_writes_def) (metis nth_list_update_neq)

text \<open>
  The copy \<open>s'\<close> that turned the heap \<open>h\<close> into \<open>h'\<close> is independent of its original: no cell was changed,
  it has the same value and reaches new cells only, and writes to what the one reaches do
  not change the value of the other.
\<close>

definition independent_copy ::
    "('c heap \<Rightarrow> 's \<Rightarrow> 'v) \<Rightarrow> ('c heap \<Rightarrow> 's \<Rightarrow> nat set) \<Rightarrow> 'c heap \<Rightarrow> 's \<Rightarrow> 'c heap \<Rightarrow> 's \<Rightarrow> bool" where
  "independent_copy val refs h s h' s' \<longleftrightarrow>
     (\<exists>new. h' = h @ new) \<and> val h' s' = val h s \<and> refs h' s' \<inter> {..<length h} = {}
     \<and> (\<forall>g. only_writes (refs h' s') h' g \<longrightarrow> val g s = val h s)
     \<and> (\<forall>g. only_writes (refs h' s) h' g \<longrightarrow> val g s' = val h s)"

section \<open>The contract of a copy\<close>

text \<open>
  \<open>refs\<close> are the addresses that a value reaches. A copy only allocates, its value is that of the
  original, and what it reaches is new; a value and its addresses depend on the cells at
  these addresses only.
\<close>

locale deep_copier =
  fixes copy :: "'s \<Rightarrow> 'c heap \<Rightarrow> 's \<times> 'c heap"
    and val :: "'c heap \<Rightarrow> 's \<Rightarrow> 'v"
    and refs :: "'c heap \<Rightarrow> 's \<Rightarrow> nat set"
  assumes extends: "copy s h = (s', h') \<Longrightarrow> \<exists>new. h' = h @ new"
    and same_val: "copy s h = (s', h') \<Longrightarrow> refs h s \<subseteq> {..<length h} \<Longrightarrow> val h' s' = val h s"
    and fresh: "copy s h = (s', h') \<Longrightarrow> refs h s \<subseteq> {..<length h} \<Longrightarrow> refs h' s' \<subseteq> {length h..<length h'}"
    and val_local: "(\<And>a. a \<in> refs h s \<Longrightarrow> g ! a = h ! a) \<Longrightarrow> val g s = val h s"
    and refs_local: "(\<And>a. a \<in> refs h s \<Longrightarrow> g ! a = h ! a) \<Longrightarrow> refs g s = refs h s"
begin

lemma longer: "copy s h = (s', h') \<Longrightarrow> length h \<le> length h'"
  using extends by fastforce

lemma append_same:
  assumes "refs h s \<subseteq> {..<length h}"
  shows "val (h @ new) s = val h s" and "refs (h @ new) s = refs h s"
proof -
  have same: "(h @ new) ! a = h ! a" if "a \<in> refs h s" for a using assms that by (auto simp: nth_append)
  show "val (h @ new) s = val h s" by (rule val_local) (rule same)
  show "refs (h @ new) s = refs h s" by (rule refs_local) (rule same)
qed

lemma refs_after:
  "copy s h = (s', h') \<Longrightarrow> refs h s \<subseteq> {..<length h} \<Longrightarrow> refs h' s' \<subseteq> {..<length h'}"
  using fresh by fastforce

text \<open>Writing to what the copy holds does not change the original, nor the other way round.\<close>

lemma independent:
  assumes "copy s h = (s', h')" and "refs h s \<subseteq> {..<length h}"
  shows "independent_copy val refs h s h' s'"
proof -
  obtain new where new: "h' = h @ new" using extends [OF assms(1)] by blast
  have same: "val h' s' = val h s" by (rule same_val [OF assms])
  have disj: "refs h' s' \<inter> {..<length h} = {}" using fresh [OF assms] by auto
  have old: "refs h' s = refs h s" unfolding new by (rule append_same(2) [OF assms(2)])
  have "val g s = val h s" if "only_writes (refs h' s') h' g" for g
  proof (rule val_local)
    fix a assume "a \<in> refs h s"
    then have "a < length h" "a \<notin> refs h' s'" using assms(2) disj by auto
    then show "g ! a = h ! a" using that by (simp add: only_writes_def) (simp add: new nth_append)
  qed
  moreover have "val g s' = val h s" if "only_writes (refs h' s) h' g" for g
  proof -
    have "val g s' = val h' s'"
    proof (rule val_local)
      fix a assume "a \<in> refs h' s'"
      then have "a \<notin> refs h' s" using disj assms(2) by (auto simp: old)
      then show "g ! a = h' ! a" using that by (simp add: only_writes_def)
    qed
    then show ?thesis by (simp add: same)
  qed
  ultimately show ?thesis using new same disj by (simp add: independent_copy_def)
qed

end

section \<open>Building copies\<close>

text \<open>A value without pointers is copied by an assignment.\<close>

definition copy_plain :: "'s \<Rightarrow> 'c heap \<Rightarrow> 's \<times> 'c heap" where
  "copy_plain s h = (s, h)"

lemma deep_copier_plain: "deep_copier copy_plain (\<lambda>h s. f s) (\<lambda>h s. {})"
  by unfold_locales (auto simp: copy_plain_def)

text \<open>Two parts, one after the other.\<close>

definition copy_both ::
    "('s \<Rightarrow> 'c heap \<Rightarrow> 's \<times> 'c heap) \<Rightarrow> ('t \<Rightarrow> 'c heap \<Rightarrow> 't \<times> 'c heap) \<Rightarrow> 's \<times> 't \<Rightarrow> 'c heap \<Rightarrow>
     ('s \<times> 't) \<times> 'c heap" where
  "copy_both c1 c2 st h =
     (let (s, h) = c1 (fst st) h; (t, h) = c2 (snd st) h in ((s, t), h))"

lemma deep_copier_both:
  assumes "deep_copier c1 v1 r1" and "deep_copier c2 v2 r2"
  shows "deep_copier (copy_both c1 c2) (\<lambda>h st. (v1 h (fst st), v2 h (snd st)))
    (\<lambda>h st. r1 h (fst st) \<union> r2 h (snd st))"
proof -
  note A = assms(1) and B = assms(2)
  have parts: "\<exists>h1. c1 (fst st) h = (fst st', h1) \<and> c2 (snd st) h1 = (snd st', h')"
    if "copy_both c1 c2 st h = (st', h')" for st h st' h'
    using that by (auto simp: copy_both_def split: prod.splits)
  have ranges: "r1 h (fst st) \<subseteq> {..<length h}" "r2 h1 (snd st) \<subseteq> {..<length h1}"
      "r2 h (snd st) \<subseteq> {..<length h}" "v2 h1 (snd st) = v2 h (snd st)"
    if c: "c1 (fst st) h = (x, h1)" and r: "r1 h (fst st) \<union> r2 h (snd st) \<subseteq> {..<length h}" for st h x h1
  proof -
    obtain new where "h1 = h @ new" using deep_copier.extends [OF A c] by blast
    then show "r1 h (fst st) \<subseteq> {..<length h}" "r2 h1 (snd st) \<subseteq> {..<length h1}"
      "r2 h (snd st) \<subseteq> {..<length h}" "v2 h1 (snd st) = v2 h (snd st)"
      using r deep_copier.append_same [OF B, of h "snd st" new] by auto
  qed
  show ?thesis
  proof (unfold_locales, goal_cases)
    case (1 st h st' h')
    then show ?case
      using parts [OF 1] deep_copier.extends [OF A] deep_copier.extends [OF B] by (metis append_assoc)
  next
    case (2 st h st' h')
    obtain h1 where c: "c1 (fst st) h = (fst st', h1)" "c2 (snd st) h1 = (snd st', h')"
      using parts [OF 2(1)] by blast
    note r = ranges [OF c(1) 2(2)]
    obtain n2 where n: "h' = h1 @ n2" using deep_copier.extends [OF B c(2)] by blast
    have "v1 h' (fst st') = v1 h1 (fst st')"
      unfolding n by (rule deep_copier.append_same(1) [OF A deep_copier.refs_after [OF A c(1) r(1)]])
    then show ?case
      using deep_copier.same_val [OF A c(1) r(1)] deep_copier.same_val [OF B c(2) r(2)] r(4) by simp
  next
    case (3 st h st' h')
    obtain h1 where c: "c1 (fst st) h = (fst st', h1)" "c2 (snd st) h1 = (snd st', h')"
      using parts [OF 3(1)] by blast
    note r = ranges [OF c(1) 3(2)]
    obtain n2 where n: "h' = h1 @ n2" using deep_copier.extends [OF B c(2)] by blast
    have "r1 h' (fst st') = r1 h1 (fst st')"
      unfolding n by (rule deep_copier.append_same(2) [OF A deep_copier.refs_after [OF A c(1) r(1)]])
    moreover have "r1 h1 (fst st') \<subseteq> {length h..<length h'}"
      using deep_copier.fresh [OF A c(1) r(1)] by (fastforce simp: n)
    moreover have "r2 h' (snd st') \<subseteq> {length h..<length h'}"
      using deep_copier.fresh [OF B c(2) r(2)] deep_copier.longer [OF A c(1)] by fastforce
    ultimately show ?case by blast
  next
    case (4 h st g)
    then show ?case
      using deep_copier.val_local [OF A, of h "fst st" g] deep_copier.val_local [OF B, of h "snd st" g] by auto
  next
    case (5 h st g)
    then show ?case
      using deep_copier.refs_local [OF A, of h "fst st" g] deep_copier.refs_local [OF B, of h "snd st" g] by auto
  qed
qed

text \<open>The elements of a slice or the entries of a map, one after the other.\<close>

fun copy_list :: "('s \<Rightarrow> 'c heap \<Rightarrow> 's \<times> 'c heap) \<Rightarrow> 's list \<Rightarrow> 'c heap \<Rightarrow> 's list \<times> 'c heap" where
  "copy_list c [] h = ([], h)"
| "copy_list c (x # xs) h =
     (let (x', h) = c x h; (xs', h) = copy_list c xs h in (x' # xs', h))"

lemma deep_copier_list:
  assumes "deep_copier c v r"
  shows "deep_copier (copy_list c) (\<lambda>h. map (v h)) (\<lambda>h xs. \<Union> (r h ` set xs))"
proof -
  have "(\<exists>new. h' = h @ new)
      \<and> (\<Union> (r h ` set xs) \<subseteq> {..<length h} \<longrightarrow>
          map (v h') xs' = map (v h) xs \<and> \<Union> (r h' ` set xs') \<subseteq> {length h..<length h'})"
    if "copy_list c xs h = (xs', h')" for xs h xs' h'
    using that
  proof (induction xs arbitrary: h xs' h')
    case (Cons x xs)
    obtain x' h1 ys where c: "c x h = (x', h1)" "copy_list c xs h1 = (ys, h')" and xs': "xs' = x' # ys"
      using Cons.prems by (auto split: prod.splits)
    obtain n1 where n1: "h1 = h @ n1" using deep_copier.extends [OF assms c(1)] by blast
    note IH = Cons.IH [OF c(2)]
    obtain n2 where n2: "h' = h1 @ n2" using IH by blast
    show ?case
    proof (intro conjI impI)
      show "\<exists>new. h' = h @ new" by (simp add: n1 n2)
      assume range: "\<Union> (r h ` set (x # xs)) \<subseteq> {..<length h}"
      have x: "r h x \<subseteq> {..<length h}" using range by auto
      have old: "v h1 y = v h y" "r h1 y = r h y" if "y \<in> set xs" for y
        using deep_copier.append_same [OF assms, of h y n1] range that by (auto simp: n1)
      moreover have "r h y \<subseteq> {..<length h1}" if "y \<in> set xs" for y
        using range that by (fastforce simp: n1)
      ultimately have "\<Union> (r h1 ` set xs) \<subseteq> {..<length h1}" by (simp add: UN_least)
      then have rest: "map (v h') ys = map (v h1) xs" "\<Union> (r h' ` set ys) \<subseteq> {length h1..<length h'}"
        using IH by blast+
      note x' = deep_copier.append_same [OF assms deep_copier.refs_after [OF assms c(1) x], of n2, folded n2]
      show "map (v h') xs' = map (v h) (x # xs)"
        using x'(1) deep_copier.same_val [OF assms c(1) x] old(1) by (simp add: xs' rest(1) cong: map_cong)
      show "\<Union> (r h' ` set xs') \<subseteq> {length h..<length h'}"
      proof -
        have "r h' x' \<subseteq> {length h..<length h1}" using x'(2) deep_copier.fresh [OF assms c(1) x] by simp
        moreover have "length h \<le> length h1" "length h1 \<le> length h'" by (simp_all add: n1 n2)
        ultimately show ?thesis using rest(2) by (fastforce simp: xs')
      qed
    qed
  qed simp
  note loop = this
  show ?thesis
  proof (unfold_locales, goal_cases)
    case (1 xs h xs' h') then show ?case using loop [OF 1] by simp
  next
    case (2 xs h xs' h') then show ?case using loop [OF 2(1)] by simp
  next
    case (3 xs h xs' h') then show ?case using loop [OF 3(1)] by simp
  next
    case (4 h xs g)
    show ?case by (rule list.map_cong0, rule deep_copier.val_local [OF assms], rule 4) blast
  next
    case (5 h xs g)
    have "r g x = r h x" if "x \<in> set xs" for x
      by (rule deep_copier.refs_local [OF assms], rule 5) (use that in blast)
    then show ?case by simp
  qed
qed

text \<open>
  A non-nil pointer, map or slice: a new cell whose content is a copy. \<open>mk\<close> makes a cell of the
  content and \<open>un\<close> reads it; what points to a cell of another kind does not exist in Go.
\<close>

definition copy_ref ::
    "('s \<Rightarrow> 'c heap \<Rightarrow> 's \<times> 'c heap) \<Rightarrow> ('s \<Rightarrow> 'c) \<Rightarrow> ('c \<Rightarrow> 's option) \<Rightarrow> nat option \<Rightarrow> 'c heap \<Rightarrow>
     nat option \<times> 'c heap" where
  "copy_ref c mk un p h =
     (case p of
        None \<Rightarrow> (None, h)
      | Some a \<Rightarrow>
          (case un (h ! a) of
             None \<Rightarrow> (None, h)
           | Some s \<Rightarrow>
               (let (out, h) = c s h;
                    (a', h) = alloc (mk out) h
                in (Some a', h))))"

lemma copy_ref_Some: "un (h ! a) = Some s \<Longrightarrow> \<exists>q h'. copy_ref c mk un (Some a) h = (Some q, h')"
  by (simp add: copy_ref_def alloc_def split: prod.split)

definition deref :: "('c \<Rightarrow> 's option) \<Rightarrow> 'c heap \<Rightarrow> nat option \<Rightarrow> 's option" where
  "deref un h p = (case p of None \<Rightarrow> None | Some a \<Rightarrow> un (h ! a))"

definition ref_val :: "('c heap \<Rightarrow> 's \<Rightarrow> 'v) \<Rightarrow> ('c \<Rightarrow> 's option) \<Rightarrow> 'c heap \<Rightarrow> nat option \<Rightarrow> 'v option" where
  "ref_val v un h p = map_option (v h) (deref un h p)"

definition ref_refs :: "('c heap \<Rightarrow> 's \<Rightarrow> nat set) \<Rightarrow> ('c \<Rightarrow> 's option) \<Rightarrow> 'c heap \<Rightarrow> nat option \<Rightarrow> nat set" where
  "ref_refs r un h p = set_option p \<union> (case deref un h p of None \<Rightarrow> {} | Some s \<Rightarrow> r h s)"

lemma deep_copier_ref:
  assumes part: "deep_copier c v r" and un: "\<And>s. un (mk s) = Some s"
  shows "deep_copier (copy_ref c mk un) (ref_val v un) (ref_refs r un)"
proof -
  have cases: "(p' = None \<and> h' = h \<and> deref un h p = None)
      \<or> (\<exists>s out h1. deref un h p = Some s \<and> c s h = (out, h1) \<and> p' = Some (length h1) \<and> h' = h1 @ [mk out])"
    if "copy_ref c mk un p h = (p', h')" for p h p' h'
    using that by (auto simp: copy_ref_def deref_def alloc_def split: option.splits prod.splits)
  have local: "deref un g p = deref un h p \<and> (\<forall>s. deref un h p = Some s \<longrightarrow> v g s = v h s \<and> r g s = r h s)"
    if "\<And>a. a \<in> ref_refs r un h p \<Longrightarrow> g ! a = h ! a" for g h p
  proof -
    have "deref un g p = deref un h p" using that by (cases p) (auto simp: deref_def ref_refs_def)
    moreover have "v g s = v h s \<and> r g s = r h s" if s: "deref un h p = Some s" for s
    proof -
      have same: "g ! a = h ! a" if "a \<in> r h s" for a
        using that s \<open>\<And>a. a \<in> ref_refs r un h p \<Longrightarrow> g ! a = h ! a\<close> by (simp add: ref_refs_def)
      show ?thesis
        using deep_copier.val_local [OF part, of h s g] deep_copier.refs_local [OF part, of h s g] same by blast
    qed
    ultimately show ?thesis by blast
  qed
  have new: "v h' out = v h s" "r h' out \<subseteq> {length h..<length h'}"
    if "deref un h p = Some s" "c s h = (out, h1)" "h' = h1 @ [mk out]" "ref_refs r un h p \<subseteq> {..<length h}"
    for h p s out h1 h'
  proof -
    have s: "r h s \<subseteq> {..<length h}" using that(1,4) by (simp add: ref_refs_def)
    note out = deep_copier.append_same [OF part deep_copier.refs_after [OF part that(2) s], of "[mk out]"]
    show "v h' out = v h s" using out(1) deep_copier.same_val [OF part that(2) s] by (simp add: that(3))
    show "r h' out \<subseteq> {length h..<length h'}"
      using out(2) deep_copier.fresh [OF part that(2) s] by (fastforce simp: that(3))
  qed
  show ?thesis
  proof (unfold_locales, goal_cases)
    case (1 p h p' h')
    then show ?case using cases [OF 1] deep_copier.extends [OF part] by fastforce
  next
    case (2 p h p' h')
    from cases [OF 2(1)] show ?case
      using new(1) [OF _ _ _ 2(2)] by (auto simp: ref_val_def deref_def un)
  next
    case (3 p h p' h')
    from cases [OF 3(1)] show ?case
    proof (elim disjE exE conjE)
      fix s out h1
      assume c: "deref un h p = Some s" "c s h = (out, h1)" "p' = Some (length h1)" "h' = h1 @ [mk out]"
      then show ?thesis
        using new(2) [OF c(1,2,4) 3(2)] deep_copier.longer [OF part c(2)]
        by (auto simp: ref_refs_def deref_def un)
    qed (simp add: ref_refs_def deref_def)
  next
    case (4 h p g)
    have "deref un g p = deref un h p \<and> (\<forall>s. deref un h p = Some s \<longrightarrow> v g s = v h s \<and> r g s = r h s)"
      by (rule local) (rule 4)
    then show ?case by (cases "deref un h p") (auto simp: ref_val_def)
  next
    case (5 h p g)
    have "deref un g p = deref un h p \<and> (\<forall>s. deref un h p = Some s \<longrightarrow> v g s = v h s \<and> r g s = r h s)"
      by (rule local) (rule 5)
    then show ?case by (cases "deref un h p") (auto simp: ref_refs_def)
  qed
qed

text \<open>A struct, by its parts that hold pointers: \<open>*out = *in\<close> copies the others.\<close>

lemma deep_copier_struct:
  assumes part: "deep_copier c v r"
    and copy: "\<And>s h. c' s h = (let (x, h) = c (get s) h in (put x s, h))"
    and get: "\<And>x s. get (put x s) = x"
    and val: "\<And>h s. v' h s = mk s (v h (get s))" and plain: "\<And>x s. mk (put x s) = mk s"
    and refs: "\<And>h s. r' h s = r h (get s)"
  shows "deep_copier c' v' r'"
proof -
  have split: "\<exists>x. c (get s) h = (x, h') \<and> s' = put x s" if "c' s h = (s', h')" for s h s' h'
    using that by (auto simp: copy split: prod.splits)
  show ?thesis
  proof (unfold_locales, goal_cases)
    case (1 s h s' h')
    then show ?case using split deep_copier.extends [OF part] by blast
  next
    case (2 s h s' h')
    then show ?case using split [OF 2(1)] deep_copier.same_val [OF part] by (auto simp: val get plain refs)
  next
    case (3 s h s' h')
    obtain x where x: "c (get s) h = (x, h')" "s' = put x s" using split [OF 3(1)] by blast
    show ?case using deep_copier.fresh [OF part x(1)] 3(2) by (simp add: x(2) get refs)
  next
    case (4 h s g)
    then show ?case using deep_copier.val_local [OF part, of h "get s" g] by (simp add: val refs)
  next
    case (5 h s g)
    then show ?case using deep_copier.refs_local [OF part, of h "get s" g] by (simp add: refs)
  qed
qed

end
