(* ===== verification/Object_Copies.thy ===== *)
theory Object_Copies
  imports Handlers Deep_Copy
begin

text \<open>
  The generated deep copies of \<open>pkg/apis/longhorn.io/v1beta1/zz_generated_deepcopy.go\<close>, with those
  of the library types that a node holds (\<open>longhorn-manager/types/deepcopy.go\<close>) and of the
  metadata. The other theories treat a resource as a value and a deep copy as the identity;
  the theorems below are why they may. A map is the list of its entries in the order in
  which the copy iterates over them.
\<close>

section \<open>Structs on the heap\<close>

record FilesystemStatus_s =
  fss_IsReadOnly :: bool
  fss_Type :: string
  fss_MountPoint :: string
  fss_LastFormattedAt :: "nat option"

record DeviceStatus_s =
  dss_ParentDevice :: string
  dss_Partitioned :: bool
  dss_Capacity :: DeviceCapcity
  dss_Details :: DeviceDetails
  dss_FileSystem :: FilesystemStatus_s

record BlockDeviceStatus_s =
  bss_State :: string
  bss_Conditions :: "nat option"
  bss_DeviceStatus :: DeviceStatus_s

text \<open>
  \<open>oms_Rest\<close> stands for the remaining pointers of \<open>metav1.ObjectMeta\<close> (annotations, owner
  references, managed fields, ...), as \<open>om_Rest\<close> does for their values.
\<close>

record ObjectMeta_s =
  oms_Name :: string
  oms_Namespace :: string
  oms_UID :: string
  oms_ResourceVersion :: string
  oms_Generation :: int
  oms_DeletionTimestamp :: "nat option"
  oms_Labels :: "nat option"
  oms_Finalizers :: "nat option"
  oms_Rest :: "nat option"

record BlockDevice_s =
  bds_TypeMeta :: TypeMeta
  bds_ObjectMeta :: ObjectMeta_s
  bds_Spec :: BlockDeviceSpec
  bds_Status :: BlockDeviceStatus_s

record ListMeta_s =
  lms_SelfLink :: string
  lms_ResourceVersion :: string
  lms_Continue :: string
  lms_RemainingItemCount :: "nat option"

text \<open>A list of block devices or of nodes.\<close>

record List_s =
  ls_TypeMeta :: TypeMeta
  ls_ListMeta :: ListMeta_s
  ls_Items :: "nat option"

record DiskSpec_s =
  dsps_Path :: string
  dsps_AllowScheduling :: bool
  dsps_EvictionRequested :: bool
  dsps_StorageReserved :: "64 word"
  dsps_Tags :: "nat option"

record DiskStatus_s =
  dsts_Conditions :: "nat option"
  dsts_StorageAvailable :: "64 word"
  dsts_StorageScheduled :: "64 word"
  dsts_StorageMaximum :: "64 word"
  dsts_ScheduledReplica :: "nat option"
  dsts_DiskUUID :: string

record NodeSpec_s =
  nsps_Name :: string
  nsps_Disks :: "nat option"
  nsps_AllowScheduling :: bool
  nsps_EvictionRequested :: bool
  nsps_Tags :: "nat option"
  nsps_EngineManagerCPURequest :: int
  nsps_ReplicaManagerCPURequest :: int

record NodeStatus_s =
  nsts_Conditions :: "nat option"
  nsts_DiskStatus :: "nat option"
  nsts_Region :: string
  nsts_Zone :: string

record Node_s =
  ns_TypeMeta :: TypeMeta
  ns_ObjectMeta :: ObjectMeta_s
  ns_Spec :: NodeSpec_s
  ns_Status :: NodeStatus_s

datatype cell =
    TimeCell time
  | LabelsCell labels
  | StringsCell "string list"
  | CountCell int
  | ConditionsCell "Condition list"
  | ObjectCell BlockDevice_s
  | ObjectsCell "BlockDevice_s list"
  | DeviceListCell List_s
  | SpecCell BlockDeviceSpec
  | StatusCell BlockDeviceStatus_s
  | ConditionCell Condition
  | CapacityCell DeviceCapcity
  | DetailsCell DeviceDetails
  | DeviceStatusCell DeviceStatus_s
  | InfoCell FilesystemInfo
  | FsStatusCell FilesystemStatus_s
  | NodeCell Node_s
  | NodesCell "Node_s list"
  | NodeListCell List_s
  | DisksCell "(string \<times> DiskSpec_s) list"
  | DiskStatusesCell "(string \<times> nat option) list"
  | DiskStatusCell DiskStatus_s
  | NodeConditionsCell "(string \<times> NodeCondition) list"
  | ReplicasCell "(string \<times> 64 word) list"

text \<open>What a cell holds, if it is of the kind.\<close>

fun time_in :: "cell \<Rightarrow> time option" where
  "time_in (TimeCell x) = Some x" | "time_in _ = None"

fun labels_in :: "cell \<Rightarrow> labels option" where
  "labels_in (LabelsCell x) = Some x" | "labels_in _ = None"

fun strings_in :: "cell \<Rightarrow> (string list) option" where
  "strings_in (StringsCell x) = Some x" | "strings_in _ = None"

fun count_in :: "cell \<Rightarrow> int option" where
  "count_in (CountCell x) = Some x" | "count_in _ = None"

fun conditions_in :: "cell \<Rightarrow> (Condition list) option" where
  "conditions_in (ConditionsCell x) = Some x" | "conditions_in _ = None"

fun object_in :: "cell \<Rightarrow> BlockDevice_s option" where
  "object_in (ObjectCell x) = Some x" | "object_in _ = None"

fun objects_in :: "cell \<Rightarrow> (BlockDevice_s list) option" where
  "objects_in (ObjectsCell x) = Some x" | "objects_in _ = None"

fun device_list_in :: "cell \<Rightarrow> List_s option" where
  "device_list_in (DeviceListCell x) = Some x" | "device_list_in _ = None"

fun spec_in :: "cell \<Rightarrow> BlockDeviceSpec option" where
  "spec_in (SpecCell x) = Some x" | "spec_in _ = None"

fun status_in :: "cell \<Rightarrow> BlockDeviceStatus_s option" where
  "status_in (StatusCell x) = Some x" | "status_in _ = None"

fun condition_in :: "cell \<Rightarrow> Condition option" where
  "condition_in (ConditionCell x) = Some x" | "condition_in _ = None"

fun capacity_in :: "cell \<Rightarrow> DeviceCapcity option" where
  "capacity_in (CapacityCell x) = Some x" | "capacity_in _ = None"

fun details_in :: "cell \<Rightarrow> DeviceDetails option" where
  "details_in (DetailsCell x) = Some x" | "details_in _ = None"

fun device_status_in :: "cell \<Rightarrow> DeviceStatus_s option" where
  "device_status_in (DeviceStatusCell x) = Some x" | "device_status_in _ = None"

fun info_in :: "cell \<Rightarrow> FilesystemInfo option" where
  "info_in (InfoCell x) = Some x" | "info_in _ = None"

fun fs_status_in :: "cell \<Rightarrow> FilesystemStatus_s option" where
  "fs_status_in (FsStatusCell x) = Some x" | "fs_status_in _ = None"

fun node_in :: "cell \<Rightarrow> Node_s option" where
  "node_in (NodeCell x) = Some x" | "node_in _ = None"

fun nodes_in :: "cell \<Rightarrow> (Node_s list) option" where
  "nodes_in (NodesCell x) = Some x" | "nodes_in _ = None"

fun node_list_in :: "cell \<Rightarrow> List_s option" where
  "node_list_in (NodeListCell x) = Some x" | "node_list_in _ = None"

fun disks_in :: "cell \<Rightarrow> ((string \<times> DiskSpec_s) list) option" where
  "disks_in (DisksCell x) = Some x" | "disks_in _ = None"

fun disk_statuses_in :: "cell \<Rightarrow> ((string \<times> nat option) list) option" where
  "disk_statuses_in (DiskStatusesCell x) = Some x" | "disk_statuses_in _ = None"

fun disk_status_in :: "cell \<Rightarrow> DiskStatus_s option" where
  "disk_status_in (DiskStatusCell x) = Some x" | "disk_status_in _ = None"

fun node_conditions_in :: "cell \<Rightarrow> ((string \<times> NodeCondition) list) option" where
  "node_conditions_in (NodeConditionsCell x) = Some x" | "node_conditions_in _ = None"

fun replicas_in :: "cell \<Rightarrow> ((string \<times> 64 word) list) option" where
  "replicas_in (ReplicasCell x) = Some x" | "replicas_in _ = None"

section \<open>The copies of plain structs\<close>

text \<open>
  A struct without pointers is copied by \<open>*out = *in\<close>; \<open>DeepCopy\<close> of a pointer is nil for nil, else
  a new object filled by \<open>DeepCopyInto\<close>.
\<close>

definition BlockDeviceSpec_DeepCopyInto :: "BlockDeviceSpec \<Rightarrow> cell heap \<Rightarrow> BlockDeviceSpec \<times> cell heap" where
  "BlockDeviceSpec_DeepCopyInto = copy_plain"

definition BlockDeviceSpec_DeepCopy :: "nat option \<Rightarrow> cell heap \<Rightarrow> nat option \<times> cell heap" where
  "BlockDeviceSpec_DeepCopy = copy_ref BlockDeviceSpec_DeepCopyInto SpecCell spec_in"

definition Condition_DeepCopyInto :: "Condition \<Rightarrow> cell heap \<Rightarrow> Condition \<times> cell heap" where
  "Condition_DeepCopyInto = copy_plain"

definition Condition_DeepCopy :: "nat option \<Rightarrow> cell heap \<Rightarrow> nat option \<times> cell heap" where
  "Condition_DeepCopy = copy_ref Condition_DeepCopyInto ConditionCell condition_in"

definition DeviceCapcity_DeepCopyInto :: "DeviceCapcity \<Rightarrow> cell heap \<Rightarrow> DeviceCapcity \<times> cell heap" where
  "DeviceCapcity_DeepCopyInto = copy_plain"

definition DeviceCapcity_DeepCopy :: "nat option \<Rightarrow> cell heap \<Rightarrow> nat option \<times> cell heap" where
  "DeviceCapcity_DeepCopy = copy_ref DeviceCapcity_DeepCopyInto CapacityCell capacity_in"

definition DeviceDetails_DeepCopyInto :: "DeviceDetails \<Rightarrow> cell heap \<Rightarrow> DeviceDetails \<times> cell heap" where
  "DeviceDetails_DeepCopyInto = copy_plain"

definition DeviceDetails_DeepCopy :: "nat option \<Rightarrow> cell heap \<Rightarrow> nat option \<times> cell heap" where
  "DeviceDetails_DeepCopy = copy_ref DeviceDetails_DeepCopyInto DetailsCell details_in"

definition FilesystemInfo_DeepCopyInto :: "FilesystemInfo \<Rightarrow> cell heap \<Rightarrow> FilesystemInfo \<times> cell heap" where
  "FilesystemInfo_DeepCopyInto = copy_plain"

definition FilesystemInfo_DeepCopy :: "nat option \<Rightarrow> cell heap \<Rightarrow> nat option \<times> cell heap" where
  "FilesystemInfo_DeepCopy = copy_ref FilesystemInfo_DeepCopyInto InfoCell info_in"

section \<open>The copies of a block device\<close>

definition FilesystemStatus_DeepCopyInto ::
    "FilesystemStatus_s \<Rightarrow> cell heap \<Rightarrow> FilesystemStatus_s \<times> cell heap" where
  "FilesystemStatus_DeepCopyInto s h =
     (let (t, h) = copy_ref copy_plain TimeCell time_in (fss_LastFormattedAt s) h
      in (s\<lparr>fss_LastFormattedAt := t\<rparr>, h))"

definition FilesystemStatus_DeepCopy :: "nat option \<Rightarrow> cell heap \<Rightarrow> nat option \<times> cell heap" where
  "FilesystemStatus_DeepCopy = copy_ref FilesystemStatus_DeepCopyInto FsStatusCell fs_status_in"

definition DeviceStatus_DeepCopyInto :: "DeviceStatus_s \<Rightarrow> cell heap \<Rightarrow> DeviceStatus_s \<times> cell heap" where
  "DeviceStatus_DeepCopyInto s h =
     (let (f, h) = FilesystemStatus_DeepCopyInto (dss_FileSystem s) h in (s\<lparr>dss_FileSystem := f\<rparr>, h))"

definition DeviceStatus_DeepCopy :: "nat option \<Rightarrow> cell heap \<Rightarrow> nat option \<times> cell heap" where
  "DeviceStatus_DeepCopy = copy_ref DeviceStatus_DeepCopyInto DeviceStatusCell device_status_in"

definition BlockDeviceStatus_DeepCopyInto ::
    "BlockDeviceStatus_s \<Rightarrow> cell heap \<Rightarrow> BlockDeviceStatus_s \<times> cell heap" where
  "BlockDeviceStatus_DeepCopyInto s h =
     (let (cs, h) = copy_ref copy_plain ConditionsCell conditions_in (bss_Conditions s) h;
          (d, h) = DeviceStatus_DeepCopyInto (bss_DeviceStatus s) h
      in (s\<lparr>bss_Conditions := cs, bss_DeviceStatus := d\<rparr>, h))"

definition BlockDeviceStatus_DeepCopy :: "nat option \<Rightarrow> cell heap \<Rightarrow> nat option \<times> cell heap" where
  "BlockDeviceStatus_DeepCopy = copy_ref BlockDeviceStatus_DeepCopyInto StatusCell status_in"

definition ObjectMeta_DeepCopyInto :: "ObjectMeta_s \<Rightarrow> cell heap \<Rightarrow> ObjectMeta_s \<times> cell heap" where
  "ObjectMeta_DeepCopyInto s h =
     (let (t, h) = copy_ref copy_plain TimeCell time_in (oms_DeletionTimestamp s) h;
          (ls, h) = copy_ref copy_plain LabelsCell labels_in (oms_Labels s) h;
          (fs, h) = copy_ref copy_plain StringsCell strings_in (oms_Finalizers s) h;
          (rest, h) = copy_ref copy_plain StringsCell strings_in (oms_Rest s) h
      in (s\<lparr>oms_DeletionTimestamp := t, oms_Labels := ls, oms_Finalizers := fs, oms_Rest := rest\<rparr>, h))"

definition BlockDevice_DeepCopyInto :: "BlockDevice_s \<Rightarrow> cell heap \<Rightarrow> BlockDevice_s \<times> cell heap" where
  "BlockDevice_DeepCopyInto s h =
     (let (m, h) = ObjectMeta_DeepCopyInto (bds_ObjectMeta s) h;
          (st, h) = BlockDeviceStatus_DeepCopyInto (bds_Status s) h
      in (s\<lparr>bds_ObjectMeta := m, bds_Status := st\<rparr>, h))"

definition BlockDevice_DeepCopy :: "nat option \<Rightarrow> cell heap \<Rightarrow> nat option \<times> cell heap" where
  "BlockDevice_DeepCopy = copy_ref BlockDevice_DeepCopyInto ObjectCell object_in"

text \<open>
  The copy as a \<open>runtime.Object\<close>: of a nil pointer it is the nil interface, not an interface that
  holds a nil pointer.
\<close>

definition DeepCopyObject :: "nat option \<times> cell heap \<Rightarrow> nat runtime_object \<times> cell heap" where
  "DeepCopyObject copied =
     (case copied of
        (Some a, h) \<Rightarrow> (Object (Some a), h)
      | (None, h) \<Rightarrow> (NilObject, h))"

definition BlockDevice_DeepCopyObject :: "nat option \<Rightarrow> cell heap \<Rightarrow> nat runtime_object \<times> cell heap" where
  "BlockDevice_DeepCopyObject p h = DeepCopyObject (BlockDevice_DeepCopy p h)"

definition ListMeta_DeepCopyInto :: "ListMeta_s \<Rightarrow> cell heap \<Rightarrow> ListMeta_s \<times> cell heap" where
  "ListMeta_DeepCopyInto s h =
     (let (n, h) = copy_ref copy_plain CountCell count_in (lms_RemainingItemCount s) h
      in (s\<lparr>lms_RemainingItemCount := n\<rparr>, h))"

definition BlockDeviceList_DeepCopyInto :: "List_s \<Rightarrow> cell heap \<Rightarrow> List_s \<times> cell heap" where
  "BlockDeviceList_DeepCopyInto s h =
     (let (m, h) = ListMeta_DeepCopyInto (ls_ListMeta s) h;
          (xs, h) = copy_ref (copy_list BlockDevice_DeepCopyInto) ObjectsCell objects_in (ls_Items s) h
      in (s\<lparr>ls_ListMeta := m, ls_Items := xs\<rparr>, h))"

definition BlockDeviceList_DeepCopy :: "nat option \<Rightarrow> cell heap \<Rightarrow> nat option \<times> cell heap" where
  "BlockDeviceList_DeepCopy = copy_ref BlockDeviceList_DeepCopyInto DeviceListCell device_list_in"

definition BlockDeviceList_DeepCopyObject :: "nat option \<Rightarrow> cell heap \<Rightarrow> nat runtime_object \<times> cell heap" where
  "BlockDeviceList_DeepCopyObject p h = DeepCopyObject (BlockDeviceList_DeepCopy p h)"

section \<open>The copies of a node\<close>

text \<open>
  The copy of the status of a node calls a method on every disk status of a map of pointers,
  which panics for a nil pointer; so the copies of a node have an outcome.
\<close>

fun try_copy_list ::
    "('s \<Rightarrow> cell heap \<Rightarrow> ('s \<times> cell heap) outcome) \<Rightarrow> 's list \<Rightarrow> cell heap \<Rightarrow> ('s list \<times> cell heap) outcome" where
  "try_copy_list c [] h = Ret ([], h)"
| "try_copy_list c (x # xs) h =
     bind_outcome (c x h) (\<lambda>(x', h).
       bind_outcome (try_copy_list c xs h) (\<lambda>(xs', h). Ret (x' # xs', h)))"

definition try_copy_ref ::
    "('s \<Rightarrow> cell heap \<Rightarrow> ('s \<times> cell heap) outcome) \<Rightarrow> ('s \<Rightarrow> cell) \<Rightarrow> (cell \<Rightarrow> 's option) \<Rightarrow> nat option \<Rightarrow> cell heap \<Rightarrow>
     (nat option \<times> cell heap) outcome" where
  "try_copy_ref c mk un p h =
     (case deref un h p of
        None \<Rightarrow> Ret (None, h)
      | Some s \<Rightarrow> bind_outcome (c s h) (\<lambda>(out, h). let (a', h) = alloc (mk out) h in Ret (Some a', h)))"

definition DiskSpec_copy :: "DiskSpec_s \<Rightarrow> cell heap \<Rightarrow> DiskSpec_s \<times> cell heap" where
  "DiskSpec_copy s h =
     (let (ts, h) = copy_ref copy_plain StringsCell strings_in (dsps_Tags s) h in (s\<lparr>dsps_Tags := ts\<rparr>, h))"

definition NodeSpec_DeepCopyInto :: "NodeSpec_s \<Rightarrow> cell heap \<Rightarrow> NodeSpec_s \<times> cell heap" where
  "NodeSpec_DeepCopyInto s h =
     (let (ds, h) = copy_ref (copy_list (copy_both copy_plain DiskSpec_copy)) DisksCell disks_in (nsps_Disks s) h;
          (ts, h) = copy_ref copy_plain StringsCell strings_in (nsps_Tags s) h
      in (s\<lparr>nsps_Disks := ds, nsps_Tags := ts\<rparr>, h))"

definition DiskStatus_DeepCopyInto :: "DiskStatus_s \<Rightarrow> cell heap \<Rightarrow> DiskStatus_s \<times> cell heap" where
  "DiskStatus_DeepCopyInto s h =
     (let (cs, h) = copy_ref copy_plain NodeConditionsCell node_conditions_in (dsts_Conditions s) h;
          (rs, h) = copy_ref copy_plain ReplicasCell replicas_in (dsts_ScheduledReplica s) h
      in (s\<lparr>dsts_Conditions := cs, dsts_ScheduledReplica := rs\<rparr>, h))"

abbreviation disk_status_copy :: "nat option \<Rightarrow> cell heap \<Rightarrow> nat option \<times> cell heap" where
  "disk_status_copy \<equiv> copy_ref DiskStatus_DeepCopyInto DiskStatusCell disk_status_in"

definition disk_status_entry ::
    "string \<times> nat option \<Rightarrow> cell heap \<Rightarrow> ((string \<times> nat option) \<times> cell heap) outcome" where
  "disk_status_entry e h =
     (case e of
        (key, None) \<Rightarrow> Panic nil_pointer
      | (key, Some a) \<Rightarrow> (let (p, h) = disk_status_copy (Some a) h in Ret ((key, p), h)))"

definition NodeStatus_DeepCopyInto :: "NodeStatus_s \<Rightarrow> cell heap \<Rightarrow> (NodeStatus_s \<times> cell heap) outcome" where
  "NodeStatus_DeepCopyInto s h =
     bind_outcome (try_copy_ref (try_copy_list disk_status_entry) DiskStatusesCell disk_statuses_in (nsts_DiskStatus s) h)
       (\<lambda>(ds, h). let (cs, h) = copy_ref copy_plain NodeConditionsCell node_conditions_in (nsts_Conditions s) h
                  in Ret (s\<lparr>nsts_DiskStatus := ds, nsts_Conditions := cs\<rparr>, h))"

definition Node_DeepCopyInto :: "Node_s \<Rightarrow> cell heap \<Rightarrow> (Node_s \<times> cell heap) outcome" where
  "Node_DeepCopyInto s h =
     (let (m, h) = ObjectMeta_DeepCopyInto (ns_ObjectMeta s) h;
          (sp, h) = NodeSpec_DeepCopyInto (ns_Spec s) h
      in bind_outcome (NodeStatus_DeepCopyInto (ns_Status s) h) (\<lambda>(st, h).
           Ret (s\<lparr>ns_ObjectMeta := m, ns_Spec := sp, ns_Status := st\<rparr>, h)))"

definition Node_DeepCopy :: "nat option \<Rightarrow> cell heap \<Rightarrow> (nat option \<times> cell heap) outcome" where
  "Node_DeepCopy = try_copy_ref Node_DeepCopyInto NodeCell node_in"

definition Node_DeepCopyObject :: "nat option \<Rightarrow> cell heap \<Rightarrow> (nat runtime_object \<times> cell heap) outcome" where
  "Node_DeepCopyObject p h = bind_outcome (Node_DeepCopy p h) (\<lambda>copied. Ret (DeepCopyObject copied))"

definition NodeList_DeepCopyInto :: "List_s \<Rightarrow> cell heap \<Rightarrow> (List_s \<times> cell heap) outcome" where
  "NodeList_DeepCopyInto s h =
     (let (m, h) = ListMeta_DeepCopyInto (ls_ListMeta s) h
      in bind_outcome (try_copy_ref (try_copy_list Node_DeepCopyInto) NodesCell nodes_in (ls_Items s) h)
           (\<lambda>(xs, h). Ret (s\<lparr>ls_ListMeta := m, ls_Items := xs\<rparr>, h)))"

definition NodeList_DeepCopy :: "nat option \<Rightarrow> cell heap \<Rightarrow> (nat option \<times> cell heap) outcome" where
  "NodeList_DeepCopy = try_copy_ref NodeList_DeepCopyInto NodeListCell node_list_in"

definition NodeList_DeepCopyObject :: "nat option \<Rightarrow> cell heap \<Rightarrow> (nat runtime_object \<times> cell heap) outcome" where
  "NodeList_DeepCopyObject p h = bind_outcome (NodeList_DeepCopy p h) (\<lambda>copied. Ret (DeepCopyObject copied))"

section \<open>The values of structs and what they reach\<close>

abbreviation held :: "(cell \<Rightarrow> 's option) \<Rightarrow> cell heap \<Rightarrow> nat option \<Rightarrow> 's option" where
  "held un \<equiv> ref_val (\<lambda>h x. x) un"

abbreviation held_refs :: "(cell \<Rightarrow> 's option) \<Rightarrow> cell heap \<Rightarrow> nat option \<Rightarrow> nat set" where
  "held_refs un \<equiv> ref_refs (\<lambda>h x. {}) un"

lemma held_copier:
  "(\<And>s. un (mk s) = Some s) \<Longrightarrow> deep_copier (copy_ref copy_plain mk un) (held un) (held_refs un)"
  by (rule deep_copier_ref [OF deep_copier_plain])

text \<open>A nil slice is an empty list.\<close>

definition or_nil :: "'a list option \<Rightarrow> 'a list" where
  "or_nil xs = (case xs of None \<Rightarrow> [] | Some ys \<Rightarrow> ys)"

definition fs_value :: "cell heap \<Rightarrow> FilesystemStatus_s \<Rightarrow> FilesystemStatus" where
  "fs_value h s =
     \<lparr> fst_IsReadOnly = fss_IsReadOnly s, fst_Type = fss_Type s, fst_MountPoint = fss_MountPoint s,
       fst_LastFormattedAt = held time_in h (fss_LastFormattedAt s) \<rparr>"

definition fs_refs :: "cell heap \<Rightarrow> FilesystemStatus_s \<Rightarrow> nat set" where
  "fs_refs h s = held_refs time_in h (fss_LastFormattedAt s)"

definition ds_value :: "cell heap \<Rightarrow> DeviceStatus_s \<Rightarrow> DeviceStatus" where
  "ds_value h s =
     \<lparr> ds_ParentDevice = dss_ParentDevice s, ds_Partitioned = dss_Partitioned s,
       ds_Capacity = dss_Capacity s, ds_Details = dss_Details s, ds_FileSystem = fs_value h (dss_FileSystem s) \<rparr>"

definition ds_refs :: "cell heap \<Rightarrow> DeviceStatus_s \<Rightarrow> nat set" where
  "ds_refs h s = fs_refs h (dss_FileSystem s)"

definition bs_value :: "cell heap \<Rightarrow> BlockDeviceStatus_s \<Rightarrow> BlockDeviceStatus" where
  "bs_value h s =
     \<lparr> bs_State = bss_State s, bs_Conditions = or_nil (held conditions_in h (bss_Conditions s)),
       bs_DeviceStatus = ds_value h (bss_DeviceStatus s) \<rparr>"

definition bs_refs :: "cell heap \<Rightarrow> BlockDeviceStatus_s \<Rightarrow> nat set" where
  "bs_refs h s = held_refs conditions_in h (bss_Conditions s) \<union> ds_refs h (bss_DeviceStatus s)"

definition om_value :: "cell heap \<Rightarrow> ObjectMeta_s \<Rightarrow> ObjectMeta" where
  "om_value h s =
     \<lparr> om_Name = oms_Name s, om_Namespace = oms_Namespace s, om_UID = oms_UID s,
       om_ResourceVersion = oms_ResourceVersion s, om_Generation = oms_Generation s,
       om_DeletionTimestamp = held time_in h (oms_DeletionTimestamp s),
       om_Labels = held labels_in h (oms_Labels s),
       om_Finalizers = or_nil (held strings_in h (oms_Finalizers s)),
       om_Rest = or_nil (held strings_in h (oms_Rest s)) \<rparr>"

definition om_refs :: "cell heap \<Rightarrow> ObjectMeta_s \<Rightarrow> nat set" where
  "om_refs h s = held_refs time_in h (oms_DeletionTimestamp s) \<union> (held_refs labels_in h (oms_Labels s)
     \<union> (held_refs strings_in h (oms_Finalizers s) \<union> held_refs strings_in h (oms_Rest s)))"

definition bd_value :: "cell heap \<Rightarrow> BlockDevice_s \<Rightarrow> BlockDevice" where
  "bd_value h s =
     \<lparr> bd_TypeMeta = bds_TypeMeta s, bd_ObjectMeta = om_value h (bds_ObjectMeta s),
       bd_Spec = bds_Spec s, bd_Status = bs_value h (bds_Status s) \<rparr>"

definition bd_refs :: "cell heap \<Rightarrow> BlockDevice_s \<Rightarrow> nat set" where
  "bd_refs h s = om_refs h (bds_ObjectMeta s) \<union> bs_refs h (bds_Status s)"

definition lm_value :: "cell heap \<Rightarrow> ListMeta_s \<Rightarrow> ListMeta" where
  "lm_value h s =
     \<lparr> lm_SelfLink = lms_SelfLink s, lm_ResourceVersion = lms_ResourceVersion s, lm_Continue = lms_Continue s,
       lm_RemainingItemCount = held count_in h (lms_RemainingItemCount s) \<rparr>"

definition lm_refs :: "cell heap \<Rightarrow> ListMeta_s \<Rightarrow> nat set" where
  "lm_refs h s = held_refs count_in h (lms_RemainingItemCount s)"

definition bdl_value :: "cell heap \<Rightarrow> List_s \<Rightarrow> BlockDeviceList" where
  "bdl_value h s =
     \<lparr> bdl_TypeMeta = ls_TypeMeta s, bdl_ListMeta = lm_value h (ls_ListMeta s),
       bdl_Items = or_nil (ref_val (\<lambda>h. map (bd_value h)) objects_in h (ls_Items s)) \<rparr>"

definition bdl_refs :: "cell heap \<Rightarrow> List_s \<Rightarrow> nat set" where
  "bdl_refs h s = lm_refs h (ls_ListMeta s) \<union> ref_refs (\<lambda>h xs. \<Union> (bd_refs h ` set xs)) objects_in h (ls_Items s)"

section \<open>The generated copies keep the contract\<close>

interpretation fsc: deep_copier FilesystemStatus_DeepCopyInto fs_value fs_refs
  by (rule deep_copier_struct [OF held_copier [of time_in TimeCell],
        where get = fss_LastFormattedAt and put = "\<lambda>x s. s\<lparr>fss_LastFormattedAt := x\<rparr>"
        and mk = "\<lambda>s t. \<lparr>fst_IsReadOnly = fss_IsReadOnly s, fst_Type = fss_Type s,
          fst_MountPoint = fss_MountPoint s, fst_LastFormattedAt = t\<rparr>"])
    (simp_all add: FilesystemStatus_DeepCopyInto_def fs_value_def fs_refs_def)

interpretation dsc: deep_copier DeviceStatus_DeepCopyInto ds_value ds_refs
  by (rule deep_copier_struct [OF fsc.deep_copier_axioms,
        where get = dss_FileSystem and put = "\<lambda>x s. s\<lparr>dss_FileSystem := x\<rparr>"
        and mk = "\<lambda>s f. \<lparr>ds_ParentDevice = dss_ParentDevice s, ds_Partitioned = dss_Partitioned s,
          ds_Capacity = dss_Capacity s, ds_Details = dss_Details s, ds_FileSystem = f\<rparr>"])
    (simp_all add: DeviceStatus_DeepCopyInto_def ds_value_def ds_refs_def)

interpretation bsc: deep_copier BlockDeviceStatus_DeepCopyInto bs_value bs_refs
  by (rule deep_copier_struct [OF deep_copier_both [OF held_copier [of conditions_in ConditionsCell] dsc.deep_copier_axioms],
        where get = "\<lambda>s. (bss_Conditions s, bss_DeviceStatus s)"
        and put = "\<lambda>x s. s\<lparr>bss_Conditions := fst x, bss_DeviceStatus := snd x\<rparr>"
        and mk = "\<lambda>s x. \<lparr>bs_State = bss_State s, bs_Conditions = or_nil (fst x), bs_DeviceStatus = snd x\<rparr>"])
    (simp_all add: BlockDeviceStatus_DeepCopyInto_def bs_value_def bs_refs_def copy_both_def split: prod.splits)

interpretation omc: deep_copier ObjectMeta_DeepCopyInto om_value om_refs
  by (rule deep_copier_struct [OF deep_copier_both [OF held_copier [of time_in TimeCell]
          deep_copier_both [OF held_copier [of labels_in LabelsCell]
            deep_copier_both [OF held_copier [of strings_in StringsCell] held_copier [of strings_in StringsCell]]]],
        where get = "\<lambda>s. (oms_DeletionTimestamp s, oms_Labels s, oms_Finalizers s, oms_Rest s)"
        and put = "\<lambda>x s. s\<lparr>oms_DeletionTimestamp := fst x, oms_Labels := fst (snd x),
          oms_Finalizers := fst (snd (snd x)), oms_Rest := snd (snd (snd x))\<rparr>"
        and mk = "\<lambda>s x. \<lparr> om_Name = oms_Name s, om_Namespace = oms_Namespace s, om_UID = oms_UID s,
          om_ResourceVersion = oms_ResourceVersion s, om_Generation = oms_Generation s,
          om_DeletionTimestamp = fst x, om_Labels = fst (snd x),
          om_Finalizers = or_nil (fst (snd (snd x))), om_Rest = or_nil (snd (snd (snd x))) \<rparr>"])
    (simp_all add: ObjectMeta_DeepCopyInto_def om_value_def om_refs_def copy_both_def split: prod.splits)

interpretation bdc: deep_copier BlockDevice_DeepCopyInto bd_value bd_refs
  by (rule deep_copier_struct [OF deep_copier_both [OF omc.deep_copier_axioms bsc.deep_copier_axioms],
        where get = "\<lambda>s. (bds_ObjectMeta s, bds_Status s)"
        and put = "\<lambda>x s. s\<lparr>bds_ObjectMeta := fst x, bds_Status := snd x\<rparr>"
        and mk = "\<lambda>s x. \<lparr>bd_TypeMeta = bds_TypeMeta s, bd_ObjectMeta = fst x, bd_Spec = bds_Spec s, bd_Status = snd x\<rparr>"])
    (simp_all add: BlockDevice_DeepCopyInto_def bd_value_def bd_refs_def copy_both_def split: prod.splits)

interpretation bdpc: deep_copier BlockDevice_DeepCopy "ref_val bd_value object_in" "ref_refs bd_refs object_in"
  unfolding BlockDevice_DeepCopy_def by (rule deep_copier_ref [OF bdc.deep_copier_axioms]) simp

interpretation lmc: deep_copier ListMeta_DeepCopyInto lm_value lm_refs
  by (rule deep_copier_struct [OF held_copier [of count_in CountCell],
        where get = lms_RemainingItemCount and put = "\<lambda>x s. s\<lparr>lms_RemainingItemCount := x\<rparr>"
        and mk = "\<lambda>s n. \<lparr>lm_SelfLink = lms_SelfLink s, lm_ResourceVersion = lms_ResourceVersion s,
          lm_Continue = lms_Continue s, lm_RemainingItemCount = n\<rparr>"])
    (simp_all add: ListMeta_DeepCopyInto_def lm_value_def lm_refs_def)

interpretation bdlc: deep_copier BlockDeviceList_DeepCopyInto bdl_value bdl_refs
  by (rule deep_copier_struct [OF deep_copier_both [OF lmc.deep_copier_axioms
          deep_copier_ref [OF deep_copier_list [OF bdc.deep_copier_axioms], of objects_in ObjectsCell]],
        where get = "\<lambda>s. (ls_ListMeta s, ls_Items s)"
        and put = "\<lambda>x s. s\<lparr>ls_ListMeta := fst x, ls_Items := snd x\<rparr>"
        and mk = "\<lambda>s x. \<lparr>bdl_TypeMeta = ls_TypeMeta s, bdl_ListMeta = fst x, bdl_Items = or_nil (snd x)\<rparr>"])
    (simp_all add: BlockDeviceList_DeepCopyInto_def bdl_value_def bdl_refs_def copy_both_def split: prod.splits)

interpretation bdlpc: deep_copier BlockDeviceList_DeepCopy "ref_val bdl_value device_list_in" "ref_refs bdl_refs device_list_in"
  unfolding BlockDeviceList_DeepCopy_def by (rule deep_copier_ref [OF bdlc.deep_copier_axioms]) simp

text \<open>Nil is copied to nil, as an object too.\<close>

lemma BlockDevice_DeepCopyObject_nil: "BlockDevice_DeepCopyObject None h = (NilObject, h)"
  by (simp add: BlockDevice_DeepCopyObject_def DeepCopyObject_def BlockDevice_DeepCopy_def copy_ref_def)

lemma BlockDevice_DeepCopyObject_copy:
  assumes "object_in (h ! p) = Some s" and "ref_refs bd_refs object_in h (Some p) \<subseteq> {..<length h}"
  shows "\<exists>q h'. BlockDevice_DeepCopyObject (Some p) h = (Object (Some q), h')
    \<and> independent_copy (ref_val bd_value object_in) (ref_refs bd_refs object_in) h (Some p) h' (Some q)"
proof -
  obtain q h' where c: "BlockDevice_DeepCopy (Some p) h = (Some q, h')"
    using copy_ref_Some assms(1) unfolding BlockDevice_DeepCopy_def by metis
  show ?thesis
    using bdpc.independent [OF c assms(2)] c by (simp add: BlockDevice_DeepCopyObject_def DeepCopyObject_def)
qed

lemma BlockDeviceList_DeepCopy_independent:
  assumes "device_list_in (h ! p) = Some s" and "ref_refs bdl_refs device_list_in h (Some p) \<subseteq> {..<length h}"
  shows "\<exists>q h'. BlockDeviceList_DeepCopyObject (Some p) h = (Object (Some q), h')
    \<and> independent_copy (ref_val bdl_value device_list_in) (ref_refs bdl_refs device_list_in) h (Some p) h' (Some q)"
proof -
  obtain q h' where c: "BlockDeviceList_DeepCopy (Some p) h = (Some q, h')"
    using copy_ref_Some assms(1) unfolding BlockDeviceList_DeepCopy_def by metis
  show ?thesis
    using bdlpc.independent [OF c assms(2)] c by (simp add: BlockDeviceList_DeepCopyObject_def DeepCopyObject_def)
qed

section \<open>The copies of a node as total functions\<close>

text \<open>
  Without nil pointers among the disk statuses the copies of a node do not panic, and they
  are copies in the sense of the contract.
\<close>

lemma try_copy_list_total:
  assumes "\<And>x s h h'. c x h = (s, h') \<Longrightarrow> \<exists>new. h' = h @ new"
    and "\<And>x new. x \<in> set xs \<Longrightarrow> tc x (h @ new) = Ret (c x (h @ new))"
  shows "try_copy_list tc xs h = Ret (copy_list c xs h)"
  using assms(2)
proof (induction xs arbitrary: h)
  case (Cons x xs)
  obtain s h1 where c: "c x h = (s, h1)" by fastforce
  obtain new where new: "h1 = h @ new" using assms(1) [OF c] by blast
  have "tc x h = Ret (s, h1)" using Cons.prems [of x "[]"] c by simp
  moreover have "try_copy_list tc xs h1 = Ret (copy_list c xs h1)"
    by (rule Cons.IH) (use Cons.prems in \<open>simp add: new\<close>)
  ultimately show ?case using c by (simp add: case_prod_beta)
qed simp

lemma try_copy_ref_total:
  assumes "\<And>s. deref un h p = Some s \<Longrightarrow> tc s h = Ret (c s h)"
  shows "try_copy_ref tc mk un p h = Ret (copy_ref c mk un p h)"
  using assms by (cases p) (auto simp: try_copy_ref_def copy_ref_def deref_def split: option.split prod.split)

definition NodeStatus_copy :: "NodeStatus_s \<Rightarrow> cell heap \<Rightarrow> NodeStatus_s \<times> cell heap" where
  "NodeStatus_copy s h =
     (let (ds, h) = copy_ref (copy_list (copy_both copy_plain disk_status_copy)) DiskStatusesCell disk_statuses_in
            (nsts_DiskStatus s) h;
          (cs, h) = copy_ref copy_plain NodeConditionsCell node_conditions_in (nsts_Conditions s) h
      in (s\<lparr>nsts_DiskStatus := ds, nsts_Conditions := cs\<rparr>, h))"

definition Node_copy :: "Node_s \<Rightarrow> cell heap \<Rightarrow> Node_s \<times> cell heap" where
  "Node_copy s h =
     (let (m, h) = ObjectMeta_DeepCopyInto (ns_ObjectMeta s) h;
          (sp, h) = NodeSpec_DeepCopyInto (ns_Spec s) h;
          (st, h) = NodeStatus_copy (ns_Status s) h
      in (s\<lparr>ns_ObjectMeta := m, ns_Spec := sp, ns_Status := st\<rparr>, h))"

definition NodeList_copy :: "List_s \<Rightarrow> cell heap \<Rightarrow> List_s \<times> cell heap" where
  "NodeList_copy s h =
     (let (m, h) = ListMeta_DeepCopyInto (ls_ListMeta s) h;
          (xs, h) = copy_ref (copy_list Node_copy) NodesCell nodes_in (ls_Items s) h
      in (s\<lparr>ls_ListMeta := m, ls_Items := xs\<rparr>, h))"

text \<open>Their values.\<close>

definition dsp_value :: "cell heap \<Rightarrow> DiskSpec_s \<Rightarrow> DiskSpec" where
  "dsp_value h s =
     \<lparr> dsp_Path = dsps_Path s, dsp_AllowScheduling = dsps_AllowScheduling s,
       dsp_EvictionRequested = dsps_EvictionRequested s, dsp_StorageReserved = dsps_StorageReserved s,
       dsp_Tags = or_nil (held strings_in h (dsps_Tags s)) \<rparr>"

abbreviation dsp_refs :: "cell heap \<Rightarrow> DiskSpec_s \<Rightarrow> nat set" where
  "dsp_refs h s \<equiv> held_refs strings_in h (dsps_Tags s)"

definition nsp_value :: "cell heap \<Rightarrow> NodeSpec_s \<Rightarrow> NodeSpec" where
  "nsp_value h s =
     \<lparr> nsp_Name = nsps_Name s,
       nsp_Disks = map_option Mapping.of_alist
         (ref_val (\<lambda>h. map (\<lambda>e. (fst e, dsp_value h (snd e)))) disks_in h (nsps_Disks s)),
       nsp_AllowScheduling = nsps_AllowScheduling s, nsp_EvictionRequested = nsps_EvictionRequested s,
       nsp_Tags = or_nil (held strings_in h (nsps_Tags s)),
       nsp_EngineManagerCPURequest = nsps_EngineManagerCPURequest s,
       nsp_ReplicaManagerCPURequest = nsps_ReplicaManagerCPURequest s \<rparr>"

definition nsp_refs :: "cell heap \<Rightarrow> NodeSpec_s \<Rightarrow> nat set" where
  "nsp_refs h s =
     ref_refs (\<lambda>h xs. \<Union> ((\<lambda>e. {} \<union> dsp_refs h (snd e)) ` set xs)) disks_in h (nsps_Disks s)
     \<union> held_refs strings_in h (nsps_Tags s)"

definition dst_value :: "cell heap \<Rightarrow> DiskStatus_s \<Rightarrow> DiskStatus" where
  "dst_value h s =
     \<lparr> dst_Conditions = map_option Mapping.of_alist (held node_conditions_in h (dsts_Conditions s)),
       dst_StorageAvailable = dsts_StorageAvailable s, dst_StorageScheduled = dsts_StorageScheduled s,
       dst_StorageMaximum = dsts_StorageMaximum s,
       dst_ScheduledReplica = map_option Mapping.of_alist (held replicas_in h (dsts_ScheduledReplica s)),
       dst_DiskUUID = dsts_DiskUUID s \<rparr>"

definition dst_refs :: "cell heap \<Rightarrow> DiskStatus_s \<Rightarrow> nat set" where
  "dst_refs h s = held_refs node_conditions_in h (dsts_Conditions s) \<union> held_refs replicas_in h (dsts_ScheduledReplica s)"

definition nst_value :: "cell heap \<Rightarrow> NodeStatus_s \<Rightarrow> NodeStatus" where
  "nst_value h s =
     \<lparr> nst_Conditions = map_option Mapping.of_alist (held node_conditions_in h (nsts_Conditions s)),
       nst_DiskStatus = map_option Mapping.of_alist
         (ref_val (\<lambda>h. map (\<lambda>e. (fst e, ref_val dst_value disk_status_in h (snd e)))) disk_statuses_in h
           (nsts_DiskStatus s)),
       nst_Region = nsts_Region s, nst_Zone = nsts_Zone s \<rparr>"

definition nst_refs :: "cell heap \<Rightarrow> NodeStatus_s \<Rightarrow> nat set" where
  "nst_refs h s =
     ref_refs (\<lambda>h xs. \<Union> ((\<lambda>e. {} \<union> ref_refs dst_refs disk_status_in h (snd e)) ` set xs)) disk_statuses_in h
       (nsts_DiskStatus s)
     \<union> held_refs node_conditions_in h (nsts_Conditions s)"

definition node_value :: "cell heap \<Rightarrow> Node_s \<Rightarrow> Node" where
  "node_value h s =
     \<lparr> node_TypeMeta = ns_TypeMeta s, node_ObjectMeta = om_value h (ns_ObjectMeta s),
       node_Spec = nsp_value h (ns_Spec s), node_Status = nst_value h (ns_Status s) \<rparr>"

definition node_refs :: "cell heap \<Rightarrow> Node_s \<Rightarrow> nat set" where
  "node_refs h s = om_refs h (ns_ObjectMeta s) \<union> (nsp_refs h (ns_Spec s) \<union> nst_refs h (ns_Status s))"

definition nl_value :: "cell heap \<Rightarrow> List_s \<Rightarrow> NodeList" where
  "nl_value h s =
     \<lparr> nl_TypeMeta = ls_TypeMeta s, nl_ListMeta = lm_value h (ls_ListMeta s),
       nl_Items = or_nil (ref_val (\<lambda>h. map (node_value h)) nodes_in h (ls_Items s)) \<rparr>"

definition nl_refs :: "cell heap \<Rightarrow> List_s \<Rightarrow> nat set" where
  "nl_refs h s = lm_refs h (ls_ListMeta s) \<union> ref_refs (\<lambda>h xs. \<Union> (node_refs h ` set xs)) nodes_in h (ls_Items s)"

interpretation dspc: deep_copier DiskSpec_copy dsp_value dsp_refs
  by (rule deep_copier_struct [OF held_copier [of strings_in StringsCell],
        where get = dsps_Tags and put = "\<lambda>x s. s\<lparr>dsps_Tags := x\<rparr>"
        and mk = "\<lambda>s t. \<lparr>dsp_Path = dsps_Path s, dsp_AllowScheduling = dsps_AllowScheduling s,
          dsp_EvictionRequested = dsps_EvictionRequested s, dsp_StorageReserved = dsps_StorageReserved s,
          dsp_Tags = or_nil t\<rparr>"])
    (simp_all add: DiskSpec_copy_def dsp_value_def)

interpretation nspc: deep_copier NodeSpec_DeepCopyInto nsp_value nsp_refs
  by (rule deep_copier_struct [OF deep_copier_both [OF
          deep_copier_ref [OF deep_copier_list [OF deep_copier_both [OF
            deep_copier_plain [where f = "\<lambda>k. k"] dspc.deep_copier_axioms]], of disks_in DisksCell]
          held_copier [of strings_in StringsCell]],
        where get = "\<lambda>s. (nsps_Disks s, nsps_Tags s)"
        and put = "\<lambda>x s. s\<lparr>nsps_Disks := fst x, nsps_Tags := snd x\<rparr>"
        and mk = "\<lambda>s x. \<lparr>nsp_Name = nsps_Name s, nsp_Disks = map_option Mapping.of_alist (fst x),
          nsp_AllowScheduling = nsps_AllowScheduling s, nsp_EvictionRequested = nsps_EvictionRequested s,
          nsp_Tags = or_nil (snd x), nsp_EngineManagerCPURequest = nsps_EngineManagerCPURequest s,
          nsp_ReplicaManagerCPURequest = nsps_ReplicaManagerCPURequest s\<rparr>"])
    (simp_all add: NodeSpec_DeepCopyInto_def nsp_value_def nsp_refs_def copy_both_def split: prod.splits)

interpretation dstc: deep_copier DiskStatus_DeepCopyInto dst_value dst_refs
  by (rule deep_copier_struct [OF deep_copier_both [OF held_copier [of node_conditions_in NodeConditionsCell]
          held_copier [of replicas_in ReplicasCell]],
        where get = "\<lambda>s. (dsts_Conditions s, dsts_ScheduledReplica s)"
        and put = "\<lambda>x s. s\<lparr>dsts_Conditions := fst x, dsts_ScheduledReplica := snd x\<rparr>"
        and mk = "\<lambda>s x. \<lparr>dst_Conditions = map_option Mapping.of_alist (fst x),
          dst_StorageAvailable = dsts_StorageAvailable s, dst_StorageScheduled = dsts_StorageScheduled s,
          dst_StorageMaximum = dsts_StorageMaximum s,
          dst_ScheduledReplica = map_option Mapping.of_alist (snd x), dst_DiskUUID = dsts_DiskUUID s\<rparr>"])
    (simp_all add: DiskStatus_DeepCopyInto_def dst_value_def dst_refs_def copy_both_def split: prod.splits)

interpretation nstc: deep_copier NodeStatus_copy nst_value nst_refs
  by (rule deep_copier_struct [OF deep_copier_both [OF
          deep_copier_ref [OF deep_copier_list [OF deep_copier_both [OF deep_copier_plain [where f = "\<lambda>k. k"]
            deep_copier_ref [OF dstc.deep_copier_axioms, of disk_status_in DiskStatusCell]]],
            of disk_statuses_in DiskStatusesCell]
          held_copier [of node_conditions_in NodeConditionsCell]],
        where get = "\<lambda>s. (nsts_DiskStatus s, nsts_Conditions s)"
        and put = "\<lambda>x s. s\<lparr>nsts_DiskStatus := fst x, nsts_Conditions := snd x\<rparr>"
        and mk = "\<lambda>s x. \<lparr>nst_Conditions = map_option Mapping.of_alist (snd x),
          nst_DiskStatus = map_option Mapping.of_alist (fst x), nst_Region = nsts_Region s, nst_Zone = nsts_Zone s\<rparr>"])
    (simp_all add: NodeStatus_copy_def nst_value_def nst_refs_def copy_both_def split: prod.splits)

interpretation nodec: deep_copier Node_copy node_value node_refs
  by (rule deep_copier_struct [OF deep_copier_both [OF omc.deep_copier_axioms
          deep_copier_both [OF nspc.deep_copier_axioms nstc.deep_copier_axioms]],
        where get = "\<lambda>s. (ns_ObjectMeta s, ns_Spec s, ns_Status s)"
        and put = "\<lambda>x s. s\<lparr>ns_ObjectMeta := fst x, ns_Spec := fst (snd x), ns_Status := snd (snd x)\<rparr>"
        and mk = "\<lambda>s x. \<lparr>node_TypeMeta = ns_TypeMeta s, node_ObjectMeta = fst x, node_Spec = fst (snd x),
          node_Status = snd (snd x)\<rparr>"])
    (simp_all add: Node_copy_def node_value_def node_refs_def copy_both_def split: prod.splits)

interpretation nlc: deep_copier NodeList_copy nl_value nl_refs
  by (rule deep_copier_struct [OF deep_copier_both [OF lmc.deep_copier_axioms
          deep_copier_ref [OF deep_copier_list [OF nodec.deep_copier_axioms], of nodes_in NodesCell]],
        where get = "\<lambda>s. (ls_ListMeta s, ls_Items s)"
        and put = "\<lambda>x s. s\<lparr>ls_ListMeta := fst x, ls_Items := snd x\<rparr>"
        and mk = "\<lambda>s x. \<lparr>nl_TypeMeta = ls_TypeMeta s, nl_ListMeta = fst x, nl_Items = or_nil (snd x)\<rparr>"])
    (simp_all add: NodeList_copy_def nl_value_def nl_refs_def copy_both_def split: prod.splits)

section \<open>Copying a node panics exactly for a nil disk status\<close>

definition no_nil_disks :: "cell heap \<Rightarrow> Node_s \<Rightarrow> bool" where
  "no_nil_disks h s \<longleftrightarrow>
     (case deref disk_statuses_in h (nsts_DiskStatus (ns_Status s)) of
        None \<Rightarrow> True
      | Some es \<Rightarrow> None \<notin> snd ` set es)"

lemma disk_status_entry_total:
  "snd e \<noteq> None \<Longrightarrow> disk_status_entry e h = Ret (copy_both copy_plain disk_status_copy e h)"
  by (cases e) (auto simp: disk_status_entry_def copy_both_def copy_plain_def case_prod_beta)

lemma disk_status_loop_total:
  assumes "None \<notin> snd ` set es"
  shows "try_copy_list disk_status_entry es h = Ret (copy_list (copy_both copy_plain disk_status_copy) es h)"
proof (rule try_copy_list_total)
  show "\<exists>new. h' = h @ new" if "copy_both copy_plain disk_status_copy e h = (s, h')" for e s h h'
    using deep_copier.extends [OF deep_copier_both [OF deep_copier_plain
        deep_copier_ref [OF dstc.deep_copier_axioms, of disk_status_in DiskStatusCell]] that] by simp
  show "disk_status_entry e (h @ new) = Ret (copy_both copy_plain disk_status_copy e (h @ new))" if "e \<in> set es" for e new
    using assms that by (intro disk_status_entry_total) (metis image_eqI)
qed

lemma disk_status_loop_panics:
  "None \<in> snd ` set es \<Longrightarrow> try_copy_list disk_status_entry es h = Panic nil_pointer"
proof (induction es arbitrary: h)
  case (Cons e es)
  show ?case
  proof (cases "snd e")
    case None
    then show ?thesis by (cases e) (simp add: disk_status_entry_def)
  next
    case (Some a)
    then have "None \<in> snd ` set es" using Cons.prems by auto
    then show ?thesis using Cons.IH Some by (simp add: disk_status_entry_total case_prod_beta)
  qed
qed simp

lemma NodeStatus_DeepCopyInto_cases:
  "NodeStatus_DeepCopyInto (ns_Status s) h =
     (if no_nil_disks h s then Ret (NodeStatus_copy (ns_Status s) h) else Panic nil_pointer)"
proof (cases "no_nil_disks h s")
  case True
  then have "try_copy_ref (try_copy_list disk_status_entry) DiskStatusesCell disk_statuses_in (nsts_DiskStatus (ns_Status s)) h =
      Ret (copy_ref (copy_list (copy_both copy_plain disk_status_copy)) DiskStatusesCell disk_statuses_in (nsts_DiskStatus (ns_Status s)) h)"
    by (intro try_copy_ref_total disk_status_loop_total) (auto simp: no_nil_disks_def)
  with True show ?thesis by (simp add: NodeStatus_DeepCopyInto_def NodeStatus_copy_def case_prod_beta)
next
  case False
  then show ?thesis
    by (auto simp: no_nil_disks_def NodeStatus_DeepCopyInto_def try_copy_ref_def disk_status_loop_panics split: option.splits)
qed

lemma no_nil_append:
  "node_refs h s \<subseteq> {..<length h} \<Longrightarrow> no_nil_disks (h @ new) s = no_nil_disks h s"
  by (cases "nsts_DiskStatus (ns_Status s)")
    (simp_all add: no_nil_disks_def deref_def node_refs_def nst_refs_def ref_refs_def nth_append)

lemma Node_DeepCopyInto_cases:
  assumes "node_refs h s \<subseteq> {..<length h}"
  shows "Node_DeepCopyInto s h = (if no_nil_disks h s then Ret (Node_copy s h) else Panic nil_pointer)"
proof -
  obtain m h1 where m: "ObjectMeta_DeepCopyInto (ns_ObjectMeta s) h = (m, h1)" by fastforce
  obtain sp h2 where sp: "NodeSpec_DeepCopyInto (ns_Spec s) h1 = (sp, h2)" by fastforce
  obtain new where "h2 = h @ new" using omc.extends [OF m] nspc.extends [OF sp] by auto
  then have "no_nil_disks h2 s = no_nil_disks h s" using no_nil_append [OF assms] by simp
  then show ?thesis
    by (simp add: Node_DeepCopyInto_def Node_copy_def m sp NodeStatus_DeepCopyInto_cases case_prod_beta)
qed

text \<open>The contract for a pointer to a node and for a list of nodes.\<close>

lemma Node_DeepCopy_independent:
  assumes "node_in (h ! p) = Some s" and "ref_refs node_refs node_in h (Some p) \<subseteq> {..<length h}"
    and "no_nil_disks h s"
  shows "\<exists>q h'. Node_DeepCopyObject (Some p) h = Ret (Object (Some q), h')
    \<and> independent_copy (ref_val node_value node_in) (ref_refs node_refs node_in) h (Some p) h' (Some q)"
proof -
  have "node_refs h s \<subseteq> {..<length h}" using assms(1,2) by (simp add: ref_refs_def deref_def)
  then have total: "Node_DeepCopy (Some p) h = Ret (copy_ref Node_copy NodeCell node_in (Some p) h)"
    unfolding Node_DeepCopy_def using assms(1,3)
    by (intro try_copy_ref_total) (simp add: deref_def Node_DeepCopyInto_cases)
  obtain q h' where c: "copy_ref Node_copy NodeCell node_in (Some p) h = (Some q, h')"
    using copy_ref_Some [of node_in h p, OF assms(1)] by blast
  show ?thesis
    using deep_copier.independent [OF deep_copier_ref [OF nodec.deep_copier_axioms] c assms(2)] total c
    by (simp add: Node_DeepCopyObject_def DeepCopyObject_def)
qed

lemma Node_DeepCopy_nil_disk:
  assumes "node_in (h ! p) = Some s" and "ref_refs node_refs node_in h (Some p) \<subseteq> {..<length h}"
    and "\<not> no_nil_disks h s"
  shows "Node_DeepCopyObject (Some p) h = Panic nil_pointer"
proof -
  have "node_refs h s \<subseteq> {..<length h}" using assms(1,2) by (simp add: ref_refs_def deref_def)
  then show ?thesis
    using assms(1,3)
    by (simp add: Node_DeepCopyObject_def Node_DeepCopy_def try_copy_ref_def deref_def Node_DeepCopyInto_cases)
qed

lemma NodeList_DeepCopyInto_total:
  assumes "nl_refs h s \<subseteq> {..<length h}"
    and "\<And>xs. deref nodes_in h (ls_Items s) = Some xs \<Longrightarrow> list_all (no_nil_disks h) xs"
  shows "NodeList_DeepCopyInto s h = Ret (NodeList_copy s h)"
proof -
  obtain m h1 where m: "ListMeta_DeepCopyInto (ls_ListMeta s) h = (m, h1)" by fastforce
  obtain new where new: "h1 = h @ new" using lmc.extends [OF m] by blast
  have items: "deref nodes_in h1 (ls_Items s) = deref nodes_in h (ls_Items s)"
    using assms(1) by (cases "ls_Items s") (simp_all add: deref_def new nl_refs_def ref_refs_def nth_append)
  have "try_copy_list Node_DeepCopyInto xs h1 = Ret (copy_list Node_copy xs h1)"
    if xs: "deref nodes_in h (ls_Items s) = Some xs" for xs
  proof (rule try_copy_list_total)
    show "\<exists>new. h' = h @ new" if "Node_copy n h = (n', h')" for n n' h h' using nodec.extends [OF that] .
    show "Node_DeepCopyInto n (h1 @ more) = Ret (Node_copy n (h1 @ more))" if "n \<in> set xs" for n more
    proof -
      have refs: "node_refs h n \<subseteq> {..<length h}"
        using assms(1) xs that by (auto simp: nl_refs_def ref_refs_def)
      note after = nodec.append_same(2) [OF refs, of "new @ more"]
      have "node_refs (h1 @ more) n \<subseteq> {..<length (h1 @ more)}" using after refs by (auto simp: new)
      moreover have "no_nil_disks (h1 @ more) n"
        using no_nil_append [OF refs, of "new @ more"] assms(2) [OF xs] that by (simp add: new list_all_iff)
      ultimately show ?thesis by (simp add: Node_DeepCopyInto_cases)
    qed
  qed
  then have "try_copy_ref (try_copy_list Node_DeepCopyInto) NodesCell nodes_in (ls_Items s) h1 =
      Ret (copy_ref (copy_list Node_copy) NodesCell nodes_in (ls_Items s) h1)"
    by (intro try_copy_ref_total) (simp add: items)
  then show ?thesis by (simp add: NodeList_DeepCopyInto_def NodeList_copy_def m case_prod_beta)
qed

section \<open>Copies of block devices\<close>

text \<open>What a pointer to a block device reaches, and its value.\<close>

definition reach :: "cell heap \<Rightarrow> nat \<Rightarrow> nat set" where
  "reach h p = ref_refs bd_refs object_in h (Some p)"

definition value_at :: "cell heap \<Rightarrow> nat \<Rightarrow> BlockDevice option" where
  "value_at h p = ref_val bd_value object_in h (Some p)"

text \<open>C40: a deep copy of a resource is a new object of the same value, and what it reaches is
  disjoint from everything that existed: no cell of the heap is changed, no writes to what the
  copy reaches change the original, and no writes to what the original reaches change the copy.\<close>

theorem BlockDevice_DeepCopy_independent:
  assumes "object_in (h ! p) = Some s" and "reach h p \<subseteq> {..<length h}"
  shows "\<exists>q h' new. BlockDevice_DeepCopy (Some p) h = (Some q, h') \<and> h' = h @ new
    \<and> value_at h' q = value_at h p \<and> reach h' q \<inter> {..<length h} = {}
    \<and> (\<forall>g. only_writes (reach h' q) h' g \<longrightarrow> value_at g p = value_at h p)
    \<and> (\<forall>g. only_writes (reach h' p) h' g \<longrightarrow> value_at g q = value_at h p)"
proof -
  obtain q h' where c: "BlockDevice_DeepCopy (Some p) h = (Some q, h')"
    using copy_ref_Some assms(1) unfolding BlockDevice_DeepCopy_def by metis
  then show ?thesis
    using bdpc.independent [OF c] assms(2) unfolding independent_copy_def reach_def value_at_def by blast
qed

definition demo_struct :: BlockDevice_s where
  "demo_struct =
     \<lparr> bds_TypeMeta = \<lparr>tm_Kind = ''BlockDevice'', tm_APIVersion = ''v1''\<rparr>,
       bds_ObjectMeta = \<lparr> oms_Name = ''sda'', oms_Namespace = ''ns'', oms_UID = [], oms_ResourceVersion = [],
         oms_Generation = 0, oms_DeletionTimestamp = None, oms_Labels = Some 0, oms_Finalizers = None,
         oms_Rest = None \<rparr>,
       bds_Spec = \<lparr> spec_NodeName = ''n1'', spec_DevPath = ''/dev/sda'', spec_FileSystem = \<lparr>fi_MountPoint = [], fi_ForceFormatted = False\<rparr> \<rparr>,
       bds_Status = \<lparr> bss_State = ''Active'', bss_Conditions = Some 1,
         bss_DeviceStatus = \<lparr> dss_ParentDevice = [], dss_Partitioned = False,
           dss_Capacity = \<lparr>dc_SizeBytes = 0, dc_PhysicalBlockSizeBytes = 512\<rparr>,
           dss_Details = \<lparr> dd_DeviceType = ''disk'', dd_DriveType = ''SSD'', dd_PartUUID = [], dd_UUID = [], dd_PtUUID = [],
             dd_IsRemovable = False, dd_StorageController = ''SCSI'', dd_BusPath = [], dd_Model = [], dd_Vendor = [],
             dd_SerialNumber = [], dd_NUMANodeID = 0, dd_WWN = [], dd_Label = [] \<rparr>,
           dss_FileSystem = \<lparr> fss_IsReadOnly = False, fss_Type = [], fss_MountPoint = [], fss_LastFormattedAt = Some 2 \<rparr> \<rparr> \<rparr> \<rparr>"

definition demo_heap :: "cell heap" where
  "demo_heap = [LabelsCell (Mapping.of_alist [(''k'', ''v'')]), ConditionsCell [], TimeCell 5, ObjectCell demo_struct]"

text \<open>The labels and the conditions of the copy are written, and the original keeps its own.\<close>

theorem BlockDevice_DeepCopy_independent_witness:
  "\<exists>q h'. BlockDevice_DeepCopy (Some 3) demo_heap = (Some q, h') \<and> h' ! 4 = LabelsCell (Mapping.of_alist [(''k'', ''v'')])
    \<and> value_at (h'[4 := LabelsCell Mapping.empty, 5 := ConditionsCell []]) 3 = value_at demo_heap 3
    \<and> value_at (h'[0 := LabelsCell Mapping.empty]) q = value_at demo_heap 3"
proof -
  have run: "BlockDevice_DeepCopy (Some 3) demo_heap = (Some 7, demo_heap @
      [LabelsCell (Mapping.of_alist [(''k'', ''v'')]), ConditionsCell [], TimeCell 5,
       ObjectCell (demo_struct\<lparr>bds_ObjectMeta := (bds_ObjectMeta demo_struct)\<lparr>oms_Labels := Some 4\<rparr>,
         bds_Status := (bds_Status demo_struct)\<lparr>bss_Conditions := Some 5, bss_DeviceStatus :=
           (bss_DeviceStatus (bds_Status demo_struct))\<lparr>dss_FileSystem :=
             (dss_FileSystem (bss_DeviceStatus (bds_Status demo_struct)))\<lparr>fss_LastFormattedAt := Some 6\<rparr>\<rparr>\<rparr>\<rparr>)])"
    (is "_ = (Some 7, ?h)")
    by (simp add: BlockDevice_DeepCopy_def BlockDevice_DeepCopyInto_def ObjectMeta_DeepCopyInto_def
        BlockDeviceStatus_DeepCopyInto_def DeviceStatus_DeepCopyInto_def FilesystemStatus_DeepCopyInto_def
        copy_ref_def copy_plain_def alloc_def demo_heap_def demo_struct_def)
  have obj: "object_in (demo_heap ! 3) = Some demo_struct" by (simp add: demo_heap_def)
  note refs = reach_def bd_refs_def om_refs_def bs_refs_def ds_refs_def fs_refs_def ref_refs_def deref_def
  have range: "reach demo_heap 3 \<subseteq> {..<length demo_heap}"
    by (simp add: refs demo_heap_def) (simp add: demo_struct_def)
  have reached: "4 \<in> reach ?h 7" "5 \<in> reach ?h 7" "0 \<in> reach ?h 3"
    by (simp_all add: refs demo_heap_def) (simp_all add: demo_struct_def)
  have "only_writes (reach ?h 7) ?h (?h[4 := LabelsCell Mapping.empty, 5 := ConditionsCell []])"
    and "only_writes (reach ?h 3) ?h (?h[0 := LabelsCell Mapping.empty])"
    using reached by (blast intro: only_writes_update only_writes_refl)+
  moreover obtain q h' where c: "BlockDevice_DeepCopy (Some 3) demo_heap = (Some q, h')"
    and "\<forall>g. only_writes (reach h' q) h' g \<longrightarrow> value_at g 3 = value_at demo_heap 3"
    and "\<forall>g. only_writes (reach h' 3) h' g \<longrightarrow> value_at g q = value_at demo_heap 3"
    using BlockDevice_DeepCopy_independent [OF obj range] by blast
  moreover have "q = 7" "h' = ?h" using c run by simp_all
  moreover have "?h ! 4 = LabelsCell (Mapping.of_alist [(''k'', ''v'')])" by (simp add: demo_heap_def)
  ultimately show ?thesis by blast
qed

end
