(* ===== verification/Handler_Runs.thy ===== *)
theory Handler_Runs
  imports Api_Server
begin

text \<open>
  What one run of the two handlers of the block devices does to the resource that a server
  stores, depending on whether it is run on that resource, on an old version of it, or on none.
\<close>

section \<open>The answers of the server\<close>

text \<open>
  The server answers an accepted update with what it has stored, if the resource has not gone away
  with the update. With an error the client returns the empty resource that it made for the answer.
\<close>

definition updates_answer :: "'w env \<Rightarrow> ('w \<Rightarrow> objects) \<Rightarrow> bool" where
  "updates_answer env objs \<longleftrightarrow>
     (\<forall>bd w r e w'. e_Update env (bd_Namespace bd) bd w = ((r, e), w') \<longrightarrow>
        (if e = None then objs w' (bd_Namespace bd) (bd_Name bd) \<in> {None, Some r} else om_UID (bd_ObjectMeta r) = []))"

lemma Update_answer:
  assumes "updates_answer env objs" and "Update env bd w = ((r, e), w')"
  shows "if e = None then objs (ext w') (bd_Namespace bd) (bd_Name bd) \<in> {None, Some r} else om_UID (bd_ObjectMeta r) = []"
proof -
  have "e_Update env (bd_Namespace bd) bd (ext w) = ((r, e), ext w')"
    using assms(2) by (auto simp: Update_def after_call_def prod_eq_iff)
  with assms(1) show ?thesis unfolding updates_answer_def by blast
qed

text \<open>
  The server accepts an update that carries the stored version of a resource that is not being
  deleted, that is valid for the schema of the resource, and that changes nothing but the status
  and adds no more than the finalizer of the handlers. Of any other update nothing is assumed.
\<close>

definition with_guard :: "string \<Rightarrow> BlockDevice \<Rightarrow> BlockDevice" where
  "with_guard name bd = bd\<lparr>bd_ObjectMeta := (bd_ObjectMeta bd)
     \<lparr>om_Finalizers := om_Finalizers (bd_ObjectMeta bd) @ [''wrangler.cattle.io/'' @ name]\<rparr>\<rparr>"

definition accepts :: "'w env \<Rightarrow> ('w \<Rightarrow> objects) \<Rightarrow> string \<Rightarrow> bool" where
  "accepts env objs name \<longleftrightarrow>
     (\<forall>bd w r e w' old. e_Update env (bd_Namespace bd) bd w = ((r, e), w') \<and>
        objs w (bd_Namespace bd) (bd_Name bd) = Some old \<and> deletion_of old = None \<and> valid_device bd
        \<and> bd_Spec bd = bd_Spec old \<and> bd_ObjectMeta bd \<in> {bd_ObjectMeta old, bd_ObjectMeta (with_guard name old)} \<longrightarrow>
        e = None)"

text \<open>
  The device is not mounted, as the handler itself finds it out; and it can be mounted where the
  user wants it, so that the scan then shows it there.
\<close>

definition unmounted :: "'w env \<Rightarrow> Controller \<Rightarrow> BlockDevice \<Rightarrow> 'w world \<Rightarrow> bool" where
  "unmounted env c bd w \<longleftrightarrow>
     (\<exists>disk. GetDiskByName (host_now env w) (c_BlockInfo c) (spec_DevPath (bd_Spec bd)) = Ret disk
        \<and> fsi_MountPoint (disk_FileSystemInfo disk) = [])"

definition mountable :: "'w env \<Rightarrow> Controller \<Rightarrow> BlockDevice \<Rightarrow> 'w world \<Rightarrow> bool" where
  "mountable env c bd w \<longleftrightarrow>
     (\<forall>err w1. mountDevice env (spec_DevPath (bd_Spec bd)) (fi_MountPoint (fs_spec bd)) w = (err, w1) \<longrightarrow>
        err = None
        \<and> (\<forall>disk st. GetDiskByName (host_now env w1) (c_BlockInfo c) (spec_DevPath (bd_Spec bd)) = Ret disk \<longrightarrow>
             snd (isValidFileSystem (fs_spec bd)
               (st\<lparr> fst_Type := fsi_FsType (disk_FileSystemInfo disk),
                    fst_MountPoint := fsi_MountPoint (disk_FileSystemInfo disk) \<rparr>))))"

section \<open>A run that leaves the resource as it is\<close>

text \<open>The status says whether the file system that was asked for is there.\<close>

definition truthful :: "BlockDevice \<Rightarrow> bool" where
  "truthful bd \<longleftrightarrow> (wants_mount bd \<longrightarrow> shows_mounted bd)"

lemma shows_mounted_copy: "server_copy bd obj \<Longrightarrow> shows_mounted obj \<Longrightarrow> shows_mounted bd"
  by (simp add: server_copy_def shows_mounted_def fs_valid_def HasCond_def GetStatus_def GetReason_def
      read_cond_def conditions_def)

lemma finish_change_cases:
  assumes "finish_change env bd u w = ((v, e), w1)"
  obtains (same) now where "set_mounted now u = bd" "e = None" "v = None" "w1 = w"
    | (wrote) now r where "Update env (set_mounted now u) w = ((r, e), w1)" "e = None \<longrightarrow> v = None" "e \<noteq> None \<longrightarrow> v = Some bd"
proof (cases "set_mounted (e_stamp env (ext w)) u = bd")
  case True
  then show ?thesis using assms by (intro same) (simp_all add: finish_change_def Let_def)
next
  case False
  obtain r err w2 where up: "Update env (set_mounted (e_stamp env (ext w)) u) w = ((r, err), w2)" by (metis prod.exhaust)
  have "e = err \<and> v = (if err = None then None else Some bd) \<and> w1 = w2"
    using assms False up by (cases err) (auto simp: finish_change_def Let_def)
  then show ?thesis using up by (intro wrote [of _ r]) auto
qed

lemma set_mounted_error: "fs_error (set_mounted now bd) = fs_error bd"
  by (simp add: fs_error_def frame_simps)

lemma change_outcome:
  assumes "api_server env objs" and wants: "wants_mount bd"
    and run: "OnBlockDeviceChange env c key (Some bd) w = Ret ((v, e), w1)"
  obtains (silent) "shows_mounted bd" "GetMessage DeviceMounted bd = fs_error bd" "v = None" "e = None"
        "objs (ext w1) = objs (ext w)" "mountable env c bd w \<Longrightarrow> fs_valid bd"
    | (wrote) obj r w0 where "change_written bd obj" "objs (ext w0) = objs (ext w)" "Update env obj w0 = ((r, e), w1)"
        "v \<in> {None, Some bd, Some r}" "fs_valid bd \<or> mountable env c bd w \<Longrightarrow> fs_valid obj \<and> v \<in> {None, Some bd}"
proof (cases "fs_valid bd")
  case True
  then have "finish_change env bd bd w = ((v, e), w1)"
    using run OnBlockDeviceChange_valid [OF wants True, of env c key w] by simp
  then show ?thesis
  proof (cases rule: finish_change_cases)
    case (same now)
    then show ?thesis using set_mounted_shows [of now bd] True by (intro silent) simp_all
  next
    case (wrote now r)
    then show ?thesis
      by (intro that(2) [OF change_written_intros(2) [OF True] refl wrote(1)]) (auto simp: fs_valid_def frame_simps True [unfolded fs_valid_def])
  qed
next
  case False
  obtain err w0 where m: "mountDevice env (spec_DevPath (bd_Spec bd)) (fi_MountPoint (fs_spec bd)) w = (err, w0)"
    by fastforce
  note same = server_mountDevice [OF assms(1) m]
  show ?thesis
  proof (cases err)
    case None
    obtain disk where disk: "GetDiskByName (host_now env w0) (c_BlockInfo c) (spec_DevPath (bd_Spec bd)) = Ret disk"
      and run': "finish_change env bd (with_mount (disk_FileSystemInfo disk) (format_stamp (e_now env (ext w)) bd)) w0
        = ((v, e), w1)"
      using run m None by (auto simp: OnBlockDeviceChange_mount [OF wants False] bind_outcome_Ret_iff)
    have valid: "fs_valid (set_mounted now (with_mount (disk_FileSystemInfo disk) (format_stamp (e_now env (ext w)) bd)))"
      if "mountable env c bd w" for now
      using that m disk by (simp add: mountable_def fs_valid_def frame_simps)
    from run' show ?thesis
    proof (cases rule: finish_change_cases)
      case (same now)
      then show ?thesis
        using set_mounted_shows [of now "with_mount (disk_FileSystemInfo disk) (format_stamp (e_now env (ext w)) bd)"]
          set_mounted_error [of now "with_mount (disk_FileSystemInfo disk) (format_stamp (e_now env (ext w)) bd)"]
          valid [of now] \<open>objs (ext w0) = objs (ext w)\<close>
        by (intro silent) simp_all
    next
      case (wrote now r)
      show ?thesis
        by (rule that(2) [OF change_written_intros(3) [OF False] same wrote(1)]) (use wrote(2,3) valid False in auto)
    qed
  next
    case (Some err')
    obtain r where r: "Update env (mount_failed (e_stamp env (ext w0)) bd err' (format_stamp (e_now env (ext w)) bd)) w0
        = ((r, e), w1)" "v = Some r"
      using run m Some by (auto simp: OnBlockDeviceChange_mount [OF wants False] split: prod.splits)
    show ?thesis
      by (rule that(2) [OF change_written_intros(1) [OF False] same r(1)]) (use r(2) m Some False in \<open>auto simp: mountable_def\<close>)
  qed
qed

text \<open>What the second handler does after the first one wrote: it cannot bring the old version back.\<close>

lemma finalizer_moves_on:
  assumes server: "api_server env objs" and old: "version_of bd \<noteq> []" "bd_Namespace bd = ns" "bd_Name bd = n"
    and live: "om_DeletionTimestamp (bd_ObjectMeta bd) = None"
    and now: "objs (ext w) ns n = Some x" "server_copy x obj" "version_of x \<noteq> version_of bd"
    and obj: "bd_ObjectMeta obj = bd_ObjectMeta bd"
    and run: "block_device_remover env c name key (Object (Some y)) w = Ret ((v, e), w')" and y: "y = bd \<or> y = x"
  shows "e \<noteq> None \<and> e \<noteq> Some ErrSkip \<or> objs (ext w') ns n \<noteq> Some bd"
proof -
  let ?fin = "om_Finalizers (bd_ObjectMeta bd)" and ?key = "constructFinalizerKey name"
  let ?new = "SetFinalizers (block_device_kind env) (?fin @ [?key]) y"
  have y_same: "om_Finalizers (bd_ObjectMeta y) = ?fin" "om_DeletionTimestamp (bd_ObjectMeta y) = None"
      "bd_Namespace y = ns" "bd_Name y = n"
    using y now(2) obj live old(2,3) by (auto simp: server_copy_def)
  show ?thesis
  proof (cases "?key \<in> set ?fin")
    case True
    then have "w' = w"
      using run y_same by (simp add: block_device_remover_def NewRemoveHandler_def addFinalizer_def hasFinalizer_def)
    then show ?thesis using now(1,3) by auto
  next
    case False
    obtain r err w2 where u: "Update env ?new w = ((r, err), w2)" by (metis prod.exhaust)
    have res: "e = err" "w' = w2"
      using run y_same u False
      by (simp_all add: block_device_remover_def NewRemoveHandler_def addFinalizer_def hasFinalizer_def Updater_def)
    have place: "bd_Namespace ?new = ns" "bd_Name ?new = n" using y_same by (simp_all add: SetFinalizers_def)
    show ?thesis
    proof (cases err)
      case None
      moreover have new: "om_Finalizers (bd_ObjectMeta ?new) = ?fin @ [?key]" by (simp add: SetFinalizers_def)
      ultimately obtain z t where "server_copy z (with_deletion t ?new)" "objs (ext w2) = put_object ns n z (objs (ext w))"
        using server_Update(1) [OF server u None] by (auto simp: place)
      moreover have "om_Finalizers (bd_ObjectMeta (with_deletion t ?new)) \<noteq> ?fin" by (simp add: new)
      ultimately show ?thesis using res by (auto simp: server_copy_def)
    next
      case (Some x)
      then show ?thesis using server_Update(2) [OF server u] res by simp
    qed
  qed
qed

lemma ToErr_None: "ToErr errs = None \<longleftrightarrow> errs = []"
  by (auto simp: ToErr_def split: list.splits prod.splits)

text \<open>The resource that the first handler passes on to the second.\<close>

definition passed_on :: "BlockDevice \<Rightarrow> BlockDevice option \<Rightarrow> BlockDevice" where
  "passed_on bd v = (case v of Some r \<Rightarrow> if om_UID (bd_ObjectMeta r) \<noteq> [] then r else bd | None \<Rightarrow> bd)"

lemma sync_parts:
  assumes sync: "SharedHandler_OnChange (block_device_kind env) (block_device_handlers env c name) key (Object (Some bd)) w
      = Ret (err, w')"
  obtains v e1 w1 r e where "OnBlockDeviceChange env c key (Some bd) w = Ret ((v, e1), w1)"
    "block_device_remover env c name key (Object (Some (passed_on bd v))) w1 = Ret ((r, e), w')"
    "err = None \<Longrightarrow> (e1 = None \<or> e1 = Some ErrSkip) \<and> (e = None \<or> e = Some ErrSkip)"
proof -
  obtain v e1 w1 where run: "OnBlockDeviceChange env c key (Some bd) w = Ret ((v, e1), w1)"
    using sync by (auto simp: SharedHandler_OnChange_def block_device_handlers_entries
        FromBlockDeviceHandlerToHandler_def FromHandlerToHandler_def bind_outcome_Ret_iff)
  have first: "FromBlockDeviceHandlerToHandler (OnBlockDeviceChange env c) key (Object (Some bd)) w =
      Ret ((case v of None \<Rightarrow> NilObject | Some x \<Rightarrow> Object (Some x), e1), w1)"
    by (simp add: FromBlockDeviceHandlerToHandler_def FromHandlerToHandler_def run)
  have obj: "(case (case v of None \<Rightarrow> NilObject | Some x \<Rightarrow> Object (Some x)) of
      Object (Some x) \<Rightarrow> if om_UID (bd_ObjectMeta x) \<noteq> [] then case v of None \<Rightarrow> NilObject | Some x \<Rightarrow> Object (Some x)
        else Object (Some bd)
    | _ \<Rightarrow> Object (Some bd)) = Object (Some (passed_on bd v))"
    by (cases v) (auto simp: passed_on_def)
  have entry: "ok_Meta (block_device_kind env) = bd_ObjectMeta" by (simp add: block_device_kind_def)
  show ?thesis
  proof (cases "block_device_remover env c name key (Object (Some (passed_on bd v))) w1")
    case (Ret res)
    obtain r e w2 where res: "res = ((r, e), w2)" by (metis prod.exhaust)
    have "ToErr ((case e1 of Some x \<Rightarrow> if x \<noteq> ErrSkip then [(name, x)] else [] | None \<Rightarrow> [])
        @ (case e of Some x \<Rightarrow> if x \<noteq> ErrSkip then [(name, x)] else [] | None \<Rightarrow> [])) = err \<and> w2 = w'"
      using sync obj Ret first
      by (cases v) (auto simp: SharedHandler_OnChange_def block_device_handlers_entries entry res Let_def
          split: option.splits if_splits)
    then show ?thesis
      using that [OF run, of r e] Ret res by (auto simp: ToErr_None split: option.splits if_splits)
  next
    case (Panic msg)
    then show ?thesis
      using sync obj first
      by (cases v) (auto simp: SharedHandler_OnChange_def block_device_handlers_entries entry Let_def split: if_splits)
  qed
qed


text \<open>
  A synchronisation that reports no error and after which the server still has the resource that
  it was run on.
\<close>

lemma quiet_sync_truthful:
  assumes server: "api_server env objs" "updates_answer env objs"
    and before: "objs (ext w) ns n = Some bd" and after: "objs (ext w') ns n = Some bd"
    and sync: "SharedHandler_OnChange (block_device_kind env) (block_device_handlers env c name) key (Object (Some bd)) w
      = Ret (None, w')"
  shows "truthful bd"
  unfolding truthful_def
proof
  assume wants: "wants_mount bd"
  note stored = server_stored [OF server(1) before]
  obtain v e1 w1 r' e where run: "OnBlockDeviceChange env c key (Some bd) w = Ret ((v, e1), w1)"
    and rest: "block_device_remover env c name key (Object (Some (passed_on bd v))) w1 = Ret ((r', e), w')"
    and quiet: "(e1 = None \<or> e1 = Some ErrSkip) \<and> (e = None \<or> e = Some ErrSkip)"
    using sync_parts [OF sync] by metis
  from server(1) wants run show "shows_mounted bd"
  proof (cases rule: change_outcome)
    case (wrote obj r w0)
    note obj = change_written_rest [OF wrote(1)]
    have place: "bd_Namespace obj = ns" "bd_Name obj = n" using obj(2) stored(1,2) by simp_all
    have "e1 = None" using quiet server_Update(2) [OF server(1) wrote(3)] by auto
    then have answer: "objs (ext w1) ns n \<in> {None, Some r}" using Update_answer [OF server(2) wrote(3)] place by simp
    show ?thesis
    proof (rule ccontr)
      assume "\<not> shows_mounted bd"
      obtain x where x: "server_copy x obj" "server_copy bd obj \<or> version_of x \<noteq> version_of bd"
        "objs (ext w1) ns n = Some x"
        using server_Update_live [OF server(1) wrote(3) [unfolded \<open>e1 = None\<close>], of bd] wrote(2) before wants obj(2) stored(1,2)
        by (auto simp: place wants_mount_def)
      then have version: "version_of x \<noteq> version_of bd"
        using shows_mounted_copy change_written_shows [OF wrote(1)] \<open>\<not> shows_mounted bd\<close> by blast
      have "passed_on bd v = bd \<or> passed_on bd v = x"
        using wrote(4) answer x(3) by (auto simp: passed_on_def)
      from finalizer_moves_on [OF server(1) stored(3,1,2) _ x(3,1) version obj(2) rest this] quiet after wants
      show False by (auto simp: wants_mount_def)
    qed
  qed
qed

section \<open>A run that moves the resource on\<close>

text \<open>Where the resource of a device that can be mounted ends: mounted as asked for, and guarded.\<close>

definition good :: "BlockDevice \<Rightarrow> bool" where
  "good bd \<longleftrightarrow> fs_valid bd \<and> shows_mounted bd \<and> GetMessage DeviceMounted bd = []"

definition guarded :: "string \<Rightarrow> BlockDevice \<Rightarrow> bool" where
  "guarded name bd \<longleftrightarrow> ''wrangler.cattle.io/'' @ name \<in> set (om_Finalizers (bd_ObjectMeta bd))"

definition steps_left :: "string \<Rightarrow> BlockDevice \<Rightarrow> nat" where
  "steps_left name bd = (if good bd then 0 else 1) + (if guarded name bd then 0 else 1)"

lemma good_copy: "server_copy x obj \<Longrightarrow> good obj \<Longrightarrow> good x"
  using shows_mounted_copy [of x obj] same_status_same_conditions(4) [of x obj]
  by (auto simp: good_def server_copy_def fs_valid_def)

lemma good_written: "change_written bd obj \<Longrightarrow> fs_valid obj \<Longrightarrow> good obj"
  by (simp add: good_def change_written_shows change_written_message)

lemma good_change:
  assumes "good bd" and "wants_mount bd"
  shows "OnBlockDeviceChange env c key (Some bd) w = Ret ((None, None), w)"
proof -
  have "fst_MountPoint (fs_status bd) \<noteq> []"
    using assms valid_mount_point by (auto simp: good_def fs_valid_def wants_mount_def)
  then have "set_mounted now bd = bd" for now
    using assms by (intro set_mounted_idle) (simp_all add: good_def)
  then show ?thesis using assms by (simp add: OnBlockDeviceChange_valid good_def finish_change_def)
qed

lemma remover_live:
  assumes "om_DeletionTimestamp (bd_ObjectMeta bd) = None"
  shows "guarded name bd \<Longrightarrow> block_device_remover env c name key (Object (Some bd)) w = Ret ((Object (Some bd), None), w)"
    and "\<not> guarded name bd \<Longrightarrow> block_device_remover env c name key (Object (Some bd)) w =
      (case Update env (with_guard name bd) w of ((r, e), w') \<Rightarrow> Ret ((Object (Some r), e), w'))"
  using assms
  by (simp_all add: block_device_remover_def NewRemoveHandler_def addFinalizer_def hasFinalizer_def guarded_def
      constructFinalizerKey_def Updater_def with_guard_def SetFinalizers_def split: prod.split)

lemma end_sync:
  assumes "good bd" and "wants_mount bd" and "guarded name bd"
  shows "SharedHandler_OnChange (block_device_kind env) (block_device_handlers env c name) key (Object (Some bd)) w =
    Ret (None, w)"
  using handlers_run [OF good_change [OF assms(1,2)], where name = name] assms(2,3)
  by (simp add: remover_live(1) wants_mount_def)

lemma nil_sync:
  "SharedHandler_OnChange (block_device_kind env) (block_device_handlers env c name) key NilObject w = Ret (None, w)"
  by (simp add: SharedHandler_OnChange_def block_device_handlers_entries FromBlockDeviceHandlerToHandler_def
      FromHandlerToHandler_def OnBlockDeviceChange_def block_device_remover_def NewRemoveHandler_def ToErr_def)

text \<open>Run on an old version, the handlers change nothing.\<close>

lemma stale_Update:
  assumes "api_server env objs" and "Update env obj w = ((r, e), w')"
    and "objs (ext w) (bd_Namespace obj) (bd_Name obj) = Some y"
    and "version_of obj \<noteq> []" and "version_of obj \<noteq> version_of y"
  shows "e \<noteq> None" and "objs (ext w') = objs (ext w)"
proof -
  show "e \<noteq> None" using server_Update(3) [OF assms(1,2)] assms(3-5) by (cases e) (auto simp: IsConflict_def)
  then show "objs (ext w') = objs (ext w)" using server_Update(2) [OF assms(1,2)] by simp
qed

lemma stale_sync:
  assumes server: "api_server env objs" "updates_answer env objs"
    and now: "objs (ext w) (bd_Namespace bd) (bd_Name bd) = Some y"
    and old: "version_of bd \<noteq> []" "version_of bd \<noteq> version_of y"
    and live: "om_DeletionTimestamp (bd_ObjectMeta bd) = None"
    and sync: "SharedHandler_OnChange (block_device_kind env) (block_device_handlers env c name) key (Object (Some bd)) w
      = Ret (err, w')"
  shows "objs (ext w') = objs (ext w)"
proof -
  obtain v e1 w1 r e where run: "OnBlockDeviceChange env c key (Some bd) w = Ret ((v, e1), w1)"
    and rest: "block_device_remover env c name key (Object (Some (passed_on bd v))) w1 = Ret ((r, e), w')"
    using sync_parts [OF sync] by metis
  have first: "objs (ext w1) = objs (ext w) \<and> passed_on bd v = bd"
  proof (cases "wants_mount bd")
    case True
    from server(1) True run show ?thesis
    proof (cases rule: change_outcome)
      case (wrote obj r w0)
      note obj = change_written_rest(2) [OF wrote(1)]
      have "e1 \<noteq> None" "objs (ext w1) = objs (ext w0)"
        using stale_Update [OF server(1) wrote(3), of y] now old by (simp_all add: wrote(2) obj)
      then show ?thesis using wrote(2,4) Update_answer [OF server(2) wrote(3)] by (auto simp: passed_on_def)
    qed (simp add: passed_on_def)
  next
    case False
    then show ?thesis using run OnBlockDeviceChange_idle [OF False, of env c key w] by (auto simp: passed_on_def)
  qed
  show ?thesis
  proof (cases "guarded name bd")
    case True
    then show ?thesis using rest first remover_live(1) [OF live True, of env c key w1] by simp
  next
    case False
    then obtain r' where "Update env (with_guard name bd) w1 = ((r', e), w')"
      using rest first remover_live(2) [OF live False, of env c key w1] by (auto split: prod.splits)
    from stale_Update(2) [OF server(1) this, of y] show ?thesis
      using now old first by (simp add: with_guard_def)
  qed
qed

text \<open>Run on what the server stores, they move it on until it is as it should be.\<close>

lemma valid_copy: "server_copy x obj \<Longrightarrow> valid_device obj \<Longrightarrow> valid_device x"
  by (simp add: server_copy_def valid_device_def)

lemma accepted_Update:
  assumes "api_server env objs" and "accepts env objs name" and "Update env obj w = ((r, e), w')"
    and old: "objs (ext w) (bd_Namespace obj) (bd_Name obj) = Some old" "deletion_of old = None"
    and obj: "valid_device obj" "bd_Spec obj = bd_Spec old"
      "bd_ObjectMeta obj \<in> {bd_ObjectMeta old, bd_ObjectMeta (with_guard name old)}"
  obtains x where "e = None" "server_copy x obj" "server_copy old obj \<or> version_of x \<noteq> version_of old"
    "objs (ext w') (bd_Namespace obj) (bd_Name obj) = Some x" "valid_device x"
proof -
  have "e_Update env (bd_Namespace obj) obj (ext w) = ((r, e), ext w')"
    using assms(3) by (auto simp: Update_def after_call_def prod_eq_iff)
  then have "e = None" using assms(2) old obj unfolding accepts_def by blast
  moreover have "deletion_of obj = None" using obj(3) old(2) by (auto simp: with_guard_def)
  ultimately show ?thesis
    using server_Update_live [OF assms(1) assms(3) [unfolded \<open>e = None\<close>] old] valid_copy [OF _ obj(1)] that by fastforce
qed

lemma guard_Update:
  assumes "api_server env objs" and "accepts env objs name"
    and "Update env (with_guard name bd) w = ((r, e), w')"
    and now: "objs (ext w) (bd_Namespace bd) (bd_Name bd) = Some bd" and live: "deletion_of bd = None"
    and valid: "valid_device bd"
  obtains x where "objs (ext w') (bd_Namespace bd) (bd_Name bd) = Some x" "bd_Spec x = bd_Spec bd"
    "deletion_of x = None" "guarded name x" "good bd \<Longrightarrow> good x" "valid_device x"
proof -
  let ?obj = "with_guard name bd"
  have obj: "bd_Namespace ?obj = bd_Namespace bd" "bd_Name ?obj = bd_Name bd"
    "bd_Spec ?obj = bd_Spec bd" "bd_Status ?obj = bd_Status bd" "guarded name ?obj" "deletion_of ?obj = None"
    "valid_device ?obj"
    using live valid by (simp_all add: with_guard_def guarded_def valid_device_def)
  have "good bd \<Longrightarrow> good ?obj"
    using same_status_same_conditions [OF obj(4)] obj(3,4) by (simp add: good_def shows_mounted_def fs_valid_def)
  moreover obtain x where "server_copy x ?obj" "objs (ext w') (bd_Namespace bd) (bd_Name bd) = Some x" "valid_device x"
    by (rule accepted_Update [OF assms(1-3) _ live obj(7,3)]) (use now obj(1,2) in auto)
  ultimately show ?thesis
    using that [of x] good_copy [of x ?obj] obj by (auto simp: server_copy_def guarded_def)
qed

lemma current_sync:
  assumes server: "api_server env objs" "accepts env objs name"
    and now: "objs (ext w) (bd_Namespace bd) (bd_Name bd) = Some bd"
    and wants: "wants_mount bd" and valid: "valid_device bd" and can: "fs_valid bd \<or> mountable env c bd w"
    and sync: "SharedHandler_OnChange (block_device_kind env) (block_device_handlers env c name) key (Object (Some bd)) w
      = Ret (err, w')"
  obtains x where "objs (ext w') (bd_Namespace bd) (bd_Name bd) = Some x" "bd_Spec x = bd_Spec bd" "wants_mount x"
    "good x" "valid_device x"
    "steps_left name x < steps_left name bd \<or> steps_left name bd = 0 \<and> x = bd \<and> err = None"
proof (cases "good bd")
  case True
  note live = wants [unfolded wants_mount_def, THEN conjunct1]
  show ?thesis
  proof (cases "guarded name bd")
    case guarded: True
    then show ?thesis
      using that [of bd] now wants valid sync end_sync [OF True wants guarded, of env c key w] True
      by (simp add: steps_left_def)
  next
    case False
    obtain v e1 w1 r e where "OnBlockDeviceChange env c key (Some bd) w = Ret ((v, e1), w1)"
      "block_device_remover env c name key (Object (Some (passed_on bd v))) w1 = Ret ((r, e), w')"
      using sync_parts [OF sync] by metis
    then obtain r e where u: "Update env (with_guard name bd) w = ((r, e), w')"
      using good_change [OF True wants, of env c key w] remover_live(2) [OF live False, of env c key w]
      by (auto simp: passed_on_def split: prod.splits)
    obtain x where x: "objs (ext w') (bd_Namespace bd) (bd_Name bd) = Some x" "bd_Spec x = bd_Spec bd"
      "deletion_of x = None" "guarded name x" "good x" "valid_device x"
      using guard_Update [OF server u now live valid] True by metis
    show ?thesis
      by (rule that [OF x(1,2)]) (use x wants True False in \<open>simp_all add: wants_mount_def steps_left_def\<close>)
  qed
next
  case False
  note live = wants [unfolded wants_mount_def, THEN conjunct1]
  obtain v e1 w1 r e where run: "OnBlockDeviceChange env c key (Some bd) w = Ret ((v, e1), w1)"
    and rest: "block_device_remover env c name key (Object (Some (passed_on bd v))) w1 = Ret ((r, e), w')"
    using sync_parts [OF sync] by metis
  from server(1) wants run show ?thesis
  proof (cases rule: change_outcome)
    case silent
    then show ?thesis using False can isValidFileSystem_err(1) [of "fs_spec bd" "fs_status bd"]
      by (auto simp: good_def fs_error_def fs_valid_def)
  next
    case (wrote obj r1 w0)
    note obj = change_written_rest [OF wrote(1)]
    have "good obj" using wrote(5) [OF can] good_written [OF wrote(1)] by simp
    have passed: "passed_on bd v = bd" using wrote(5) [OF can] by (auto simp: passed_on_def)
    obtain x where x: "server_copy x obj" "server_copy bd obj \<or> version_of x \<noteq> version_of bd"
      "objs (ext w1) (bd_Namespace bd) (bd_Name bd) = Some x" "valid_device x"
      by (rule accepted_Update [OF server wrote(3) _ live])
        (use now wrote(2) obj(2,3) change_written_valid [OF wrote(1) valid] in auto)
    have version: "version_of x \<noteq> version_of bd" "good x"
      using x(1,2) good_copy [OF _ \<open>good obj\<close>] False by blast+
    have same: "objs (ext w') = objs (ext w1)"
    proof (cases "guarded name bd")
      case True
      then show ?thesis using rest passed remover_live(1) [OF live True, of env c key w1] by simp
    next
      case False
      then obtain r' where "Update env (with_guard name bd) w1 = ((r', e), w')"
        using rest passed remover_live(2) [OF live False, of env c key w1] by (auto split: prod.splits)
      from stale_Update(2) [OF server(1) this, of x] show ?thesis
        using x(3) version(1) server_stored(3) [OF server(1) now] by (simp add: with_guard_def)
    qed
    show ?thesis
    proof (rule that [of x])
      show "objs (ext w') (bd_Namespace bd) (bd_Name bd) = Some x" using x(3) same by simp
      show "bd_Spec x = bd_Spec bd" "wants_mount x" using x(1) obj wants by (simp_all add: server_copy_def wants_mount_def)
      show "good x" "valid_device x" using version(2) x(4) by simp_all
      have "guarded name x = guarded name bd" using x(1) obj by (simp add: server_copy_def guarded_def)
      then show "steps_left name x < steps_left name bd \<or> steps_left name bd = 0 \<and> x = bd \<and> err = None"
        using version(2) False by (simp add: steps_left_def)
    qed
  qed
qed

text \<open>A run that has nothing to mount does not try to.\<close>

lemma no_mount_sync:
  assumes live: "deletion_of bd = None" and idle: "\<not> wants_mount bd \<or> fs_valid bd"
    and server: "api_server env objs"
    and sync: "SharedHandler_OnChange (block_device_kind env) (block_device_handlers env c name) key (Object (Some bd)) w
      = Ret (err, w')"
  shows "CallMount dev mp ty fl opt \<notin> set (new_calls w w')"
proof -
  obtain v e1 w1 r e where run: "OnBlockDeviceChange env c key (Some bd) w = Ret ((v, e1), w1)"
    and rest: "block_device_remover env c name key (Object (Some (passed_on bd v))) w1 = Ret ((r, e), w')"
    using sync_parts [OF sync] by metis
  obtain upd where upd: "calls w1 = calls w @ upd" "upd = [] \<or> (\<exists>obj. upd = [CallUpdate (bd_Namespace bd) obj])"
    using change_calls [OF run] idle by fastforce
  have passed: "passed_on bd v = bd"
  proof (cases "wants_mount bd")
    case True
    from server True run show ?thesis
    proof (cases rule: change_outcome)
      case (wrote obj r w0)
      then show ?thesis using idle True by (auto simp: passed_on_def)
    qed (simp add: passed_on_def)
  next
    case False
    then show ?thesis using run OnBlockDeviceChange_idle [OF False, of env c key w] by (auto simp: passed_on_def)
  qed
  have "calls w' = calls w1 \<or> (\<exists>ns obj. calls w' = calls w1 @ [CallUpdate ns obj])"
  proof (cases "guarded name bd")
    case True
    then show ?thesis using rest passed remover_live(1) [OF live True, of env c key w1] by simp
  next
    case False
    then obtain r' where "Update env (with_guard name bd) w1 = ((r', e), w')"
      using rest passed remover_live(2) [OF live False, of env c key w1] by (auto split: prod.splits)
    then show ?thesis using client_calls(2) by blast
  qed
  then show ?thesis using upd by (auto simp: new_calls_def)
qed

end
