(* ===== verification/Delta_FIFO.thy ===== *)
theory Delta_FIFO
  imports Informer
begin

text \<open>
  The queue between the watch of the API server and the store of an informer
  (\<open>vendor/k8s.io/client-go/tools/cache/delta_fifo.go\<close>): it keeps, for every key with news, the
  list of what happened to the resource since it was last popped, and hands the keys out in
  the order in which they got news. The shared informer makes it with its own store as the
  known objects and with deltas of type \<open>Replaced\<close> for a new list. Every operation holds the
  lock of the queue, and a pop holds it until the deltas are applied to the store.
\<close>

section \<open>Deltas\<close>

text \<open>
  A deletion that was only found missing in a new list is a \<open>DeletedFinalStateUnknown\<close> with the
  key and the last known object; deltas of the other types always carry a resource.
\<close>

datatype 'o deleted_object = FinalState 'o | DeletedFinalStateUnknown string "'o option"

datatype 'o Delta =
    DeltaAdded 'o
  | DeltaUpdated 'o
  | DeltaReplaced 'o
  | DeltaSync 'o
  | DeltaDeleted "'o deleted_object"

text \<open>\<open>KeyOf\<close>, with \<open>MetaNamespaceKeyFunc\<close> as the key function.\<close>

fun deleted_key :: "('o \<Rightarrow> ObjectMeta) \<Rightarrow> 'o deleted_object \<Rightarrow> string" where
  "deleted_key meta (FinalState x) = object_key meta x"
| "deleted_key meta (DeletedFinalStateUnknown k obj) = k"

fun KeyOf :: "('o \<Rightarrow> ObjectMeta) \<Rightarrow> 'o Delta \<Rightarrow> string" where
  "KeyOf meta (DeltaAdded x) = object_key meta x"
| "KeyOf meta (DeltaUpdated x) = object_key meta x"
| "KeyOf meta (DeltaReplaced x) = object_key meta x"
| "KeyOf meta (DeltaSync x) = object_key meta x"
| "KeyOf meta (DeltaDeleted d) = deleted_key meta d"

text \<open>The newer delta \<open>a\<close> after \<open>b\<close>: of two deletions the one that knows the object is kept.\<close>

fun isDeletionDup :: "'o Delta \<Rightarrow> 'o Delta \<Rightarrow> 'o Delta option" where
  "isDeletionDup (DeltaDeleted a) (DeltaDeleted (DeletedFinalStateUnknown k obj)) = Some (DeltaDeleted a)"
| "isDeletionDup (DeltaDeleted a) (DeltaDeleted (FinalState x)) = Some (DeltaDeleted (FinalState x))"
| "isDeletionDup a b = None"

definition isDup :: "'o Delta \<Rightarrow> 'o Delta \<Rightarrow> 'o Delta option" where
  "isDup a b = isDeletionDup a b"

definition dedupDeltas :: "'o Delta list \<Rightarrow> 'o Delta list" where
  "dedupDeltas deltas =
     (let n = length deltas
      in if n < 2 then deltas
         else case isDup (deltas ! (n - 1)) (deltas ! (n - 2)) of
                Some out \<Rightarrow> take (n - 2) deltas @ [out]
              | None \<Rightarrow> deltas)"

section \<open>The queue\<close>

record 'o DeltaFIFO =
  df_items :: "string \<rightharpoonup> 'o Delta list"
  df_queue :: "string list"
  df_populated :: bool
  df_initialPopulationCount :: int
  df_closed :: bool

definition NewDeltaFIFO :: "'o DeltaFIFO" where
  "NewDeltaFIFO =
     \<lparr>df_items = Map.empty, df_queue = [], df_populated = False, df_initialPopulationCount = 0, df_closed = False\<rparr>"

definition HasSynced :: "'o DeltaFIFO \<Rightarrow> bool" where
  "HasSynced f \<longleftrightarrow> df_populated f \<and> df_initialPopulationCount f = 0"

definition queueActionLocked ::
    "('o \<Rightarrow> ObjectMeta) \<Rightarrow> 'o Delta \<Rightarrow> 'o DeltaFIFO \<Rightarrow> string option \<times> 'o DeltaFIFO" where
  "queueActionLocked meta d f =
     (let key = KeyOf meta d;
          oldDeltas = (case df_items f key of None \<Rightarrow> [] | Some ds \<Rightarrow> ds);
          newDeltas = dedupDeltas (oldDeltas @ [d])
      in if newDeltas \<noteq> [] then
           (None, f\<lparr> df_queue := (if df_items f key = None then df_queue f @ [key] else df_queue f),
                     df_items := (df_items f)(key \<mapsto> newDeltas) \<rparr>)
         else if df_items f key = None then (None, f)
         else (Some (''Impossible dedupDeltas for id='' @ key), f\<lparr>df_items := (df_items f)(key \<mapsto> newDeltas)\<rparr>))"

definition fifo_Add :: "('o \<Rightarrow> ObjectMeta) \<Rightarrow> 'o \<Rightarrow> 'o DeltaFIFO \<Rightarrow> string option \<times> 'o DeltaFIFO" where
  "fifo_Add meta x f = queueActionLocked meta (DeltaAdded x) (f\<lparr>df_populated := True\<rparr>)"

definition fifo_Update :: "('o \<Rightarrow> ObjectMeta) \<Rightarrow> 'o \<Rightarrow> 'o DeltaFIFO \<Rightarrow> string option \<times> 'o DeltaFIFO" where
  "fifo_Update meta x f = queueActionLocked meta (DeltaUpdated x) (f\<lparr>df_populated := True\<rparr>)"

text \<open>\<open>known\<close> is the store of the informer; a lookup in it does not fail.\<close>

definition fifo_Delete ::
    "('o \<Rightarrow> ObjectMeta) \<Rightarrow> 'o store \<Rightarrow> 'o \<Rightarrow> 'o DeltaFIFO \<Rightarrow> string option \<times> 'o DeltaFIFO" where
  "fifo_Delete meta known x f =
     (let key = object_key meta x; f = f\<lparr>df_populated := True\<rparr>
      in if store_Get known key = None \<and> df_items f key = None then (None, f)
         else queueActionLocked meta (DeltaDeleted (FinalState x)) f)"

fun queue_loop ::
    "('o \<Rightarrow> ObjectMeta) \<Rightarrow> string \<Rightarrow> 'o Delta list \<Rightarrow> 'o DeltaFIFO \<Rightarrow> string option \<times> 'o DeltaFIFO" where
  "queue_loop meta prefix [] f = (None, f)"
| "queue_loop meta prefix (d # ds) f =
     (case queueActionLocked meta d f of
        (Some err, f) \<Rightarrow> (Some (prefix @ err), f)
      | (None, f) \<Rightarrow> queue_loop meta prefix ds f)"

definition fifo_Replace ::
    "('o \<Rightarrow> ObjectMeta) \<Rightarrow> 'o store \<Rightarrow> 'o list \<Rightarrow> 'o DeltaFIFO \<Rightarrow> string option \<times> 'o DeltaFIFO" where
  "fifo_Replace meta known xs f =
     (let keys = map (object_key meta) xs
      in case queue_loop meta ''couldn't enqueue object: '' (map DeltaReplaced xs) f of
           (Some err, f) \<Rightarrow> (Some err, f)
         | (None, f) \<Rightarrow>
             let missing = filter (\<lambda>k. k \<notin> set keys) (map fst (items known));
                 deletions = map (\<lambda>k. DeltaDeleted (DeletedFinalStateUnknown k (store_Get known k))) missing
             in case queue_loop meta [] deletions f of
                  (Some err, f) \<Rightarrow> (Some err, f)
                | (None, f) \<Rightarrow>
                    (None,
                     if df_populated f then f
                     else f\<lparr> df_populated := True,
                             df_initialPopulationCount := int (card (set keys) + length missing) \<rparr>))"

fun resync_loop ::
    "('o \<Rightarrow> ObjectMeta) \<Rightarrow> 'o store \<Rightarrow> string list \<Rightarrow> 'o DeltaFIFO \<Rightarrow> string option \<times> 'o DeltaFIFO" where
  "resync_loop meta known [] f = (None, f)"
| "resync_loop meta known (k # ks) f =
     (case store_Get known k of
        None \<Rightarrow> resync_loop meta known ks f
      | Some obj \<Rightarrow>
          if (case df_items f (object_key meta obj) of None \<Rightarrow> False | Some ds \<Rightarrow> ds \<noteq> [])
          then resync_loop meta known ks f
          else case queueActionLocked meta (DeltaSync obj) f of
                 (Some err, f) \<Rightarrow> (Some (''couldn't queue object: '' @ err), f)
               | (None, f) \<Rightarrow> resync_loop meta known ks f)"

definition fifo_Resync ::
    "('o \<Rightarrow> ObjectMeta) \<Rightarrow> 'o store \<Rightarrow> 'o DeltaFIFO \<Rightarrow> string option \<times> 'o DeltaFIFO" where
  "fifo_Resync meta known f = resync_loop meta known (map fst (items known)) f"

text \<open>
  \<open>Pop\<close> waits for a key, unless the queue is closed. A key without deltas would be skipped. What
  it returns is processed while it still holds the lock.
\<close>

datatype 'o pop_result = Popped string "'o Delta list" | PopClosed | PopWaits

fun pop_loop :: "string list \<Rightarrow> 'o DeltaFIFO \<Rightarrow> 'o pop_result \<times> 'o DeltaFIFO" where
  "pop_loop [] f = (if df_closed f then PopClosed else PopWaits, f\<lparr>df_queue := []\<rparr>)"
| "pop_loop (key # rest) f =
     (let f = f\<lparr> df_queue := rest,
                 df_initialPopulationCount :=
                   (if df_initialPopulationCount f > 0 then df_initialPopulationCount f - 1
                    else df_initialPopulationCount f) \<rparr>
      in case df_items f key of
           None \<Rightarrow> pop_loop rest f
         | Some ds \<Rightarrow> (Popped key ds, f\<lparr>df_items := (df_items f)(key := None)\<rparr>))"

definition fifo_Pop :: "'o DeltaFIFO \<Rightarrow> 'o pop_result \<times> 'o DeltaFIFO" where
  "fifo_Pop f = pop_loop (df_queue f) f"

section \<open>What the operations do\<close>

lemma dedupDeltas_cases:
  obtains (all) "dedupDeltas (ds @ [d]) = ds @ [d]"
    | (merged) ds' a b out where "ds = ds' @ [DeltaDeleted b]" "d = DeltaDeleted a"
        "dedupDeltas (ds @ [d]) = ds' @ [DeltaDeleted out]" "out = a \<or> out = b"
proof (cases ds rule: rev_cases)
  case Nil
  then show ?thesis using all by (simp add: dedupDeltas_def)
next
  case (snoc ds' b)
  have eq: "dedupDeltas (ds @ [d]) = (case isDup d b of Some out \<Rightarrow> ds' @ [out] | None \<Rightarrow> ds @ [d])"
    by (auto simp: snoc dedupDeltas_def Let_def nth_append numeral_2_eq_2 split: option.split)
  show ?thesis
    by (cases "(d, b)" rule: isDeletionDup.cases)
      (use eq snoc all merged in \<open>auto simp: isDup_def\<close>)
qed

fun is_sync :: "'o Delta \<Rightarrow> bool" where
  "is_sync (DeltaSync x) = True"
| "is_sync d = False"

text \<open>What the store has under the key of a delta after it.\<close>

fun delta_effect :: "'o Delta \<Rightarrow> 'o option" where
  "delta_effect (DeltaAdded x) = Some x"
| "delta_effect (DeltaUpdated x) = Some x"
| "delta_effect (DeltaReplaced x) = Some x"
| "delta_effect (DeltaSync x) = Some x"
| "delta_effect (DeltaDeleted d) = None"

lemma dedupDeltas_facts:
  "dedupDeltas (ds @ [d]) \<noteq> []"
  "delta_effect (last (dedupDeltas (ds @ [d]))) = delta_effect d"
  "set (dedupDeltas (ds @ [d])) \<subseteq> insert d (set ds)"
  "ds \<noteq> [] \<Longrightarrow> set (tl (dedupDeltas (ds @ [d]))) \<subseteq> insert d (set (tl ds))"
  "ds \<noteq> [] \<Longrightarrow> is_sync (hd (dedupDeltas (ds @ [d]))) \<Longrightarrow> hd (dedupDeltas (ds @ [d])) = hd ds"
  by (cases rule: dedupDeltas_cases [of ds d]; auto simp: hd_append tl_append split: list.splits)+

definition pending :: "'o DeltaFIFO \<Rightarrow> string \<Rightarrow> 'o Delta list" where
  "pending f k = (case df_items f k of None \<Rightarrow> [] | Some ds \<Rightarrow> ds)"

definition queued :: "('o \<Rightarrow> ObjectMeta) \<Rightarrow> 'o Delta \<Rightarrow> 'o DeltaFIFO \<Rightarrow> 'o DeltaFIFO" where
  "queued meta d f =
     (let k = KeyOf meta d
      in f\<lparr> df_queue := (if df_items f k = None then df_queue f @ [k] else df_queue f),
            df_items := (df_items f)(k \<mapsto> dedupDeltas (pending f k @ [d])) \<rparr>)"

lemma queueActionLocked_eq: "queueActionLocked meta d f = (None, queued meta d f)"
  by (simp add: queueActionLocked_def queued_def pending_def Let_def dedupDeltas_facts(1))

lemma queue_loop_eq: "queue_loop meta prefix ds f = (None, fold (queued meta) ds f)"
  by (induction ds arbitrary: f) (simp_all add: queueActionLocked_eq)

lemma pending_queued:
  "pending (queued meta d f) =
     (pending f)(KeyOf meta d := dedupDeltas (pending f (KeyOf meta d) @ [d]))"
  by (auto simp: queued_def pending_def Let_def)

lemma queued_frame [simp]:
  "df_populated (queued meta d f) = df_populated f"
  "df_initialPopulationCount (queued meta d f) = df_initialPopulationCount f"
  "df_closed (queued meta d f) = df_closed f"
  by (simp_all add: queued_def Let_def)

lemma fold_queued_frame [simp]:
  "df_populated (fold (queued meta) ds f) = df_populated f"
  "df_initialPopulationCount (fold (queued meta) ds f) = df_initialPopulationCount f"
  "df_closed (fold (queued meta) ds f) = df_closed f"
  by (induction ds arbitrary: f) simp_all

section \<open>The invariant\<close>

text \<open>The queue holds, each once, the keys that have deltas, and every delta is under its key.\<close>

definition fifo_ok :: "('o \<Rightarrow> ObjectMeta) \<Rightarrow> 'o DeltaFIFO \<Rightarrow> bool" where
  "fifo_ok meta f \<longleftrightarrow>
     distinct (df_queue f) \<and> set (df_queue f) = dom (df_items f)
     \<and> (\<forall>k ds. df_items f k = Some ds \<longrightarrow> ds \<noteq> [] \<and> (\<forall>d \<in> set ds. KeyOf meta d = k))"

lemma pending_key: "fifo_ok meta f \<Longrightarrow> d \<in> set (pending f k) \<Longrightarrow> KeyOf meta d = k"
  by (cases "df_items f k") (simp_all add: fifo_ok_def pending_def)

lemma NewDeltaFIFO_ok: "fifo_ok meta NewDeltaFIFO"
  by (simp add: fifo_ok_def NewDeltaFIFO_def)

lemma queued_ok:
  assumes "fifo_ok meta f"
  shows "fifo_ok meta (queued meta d f)"
proof -
  let ?k = "KeyOf meta d" and ?f = "queued meta d f"
  have "\<forall>d' \<in> set (pending f ?k). KeyOf meta d' = ?k"
    using pending_key [OF assms] by blast
  then have "\<forall>d' \<in> set (dedupDeltas (pending f ?k @ [d])). KeyOf meta d' = ?k"
    using dedupDeltas_facts(3) [of "pending f ?k" d] by auto
  moreover have "distinct (df_queue ?f)" "set (df_queue ?f) = insert ?k (dom (df_items f))"
    using assms by (auto simp: queued_def fifo_ok_def Let_def)
  ultimately show ?thesis
    using assms dedupDeltas_facts(1) by (auto simp: fifo_ok_def queued_def Let_def split: if_splits)
qed

lemma fold_queued_ok: "fifo_ok meta f \<Longrightarrow> fifo_ok meta (fold (queued meta) ds f)"
  by (induction ds arbitrary: f) (simp_all add: queued_ok)

lemma fifo_ok_cong [simp]:
  "fifo_ok meta (f\<lparr>df_populated := b\<rparr>) = fifo_ok meta f"
  "fifo_ok meta (f\<lparr>df_initialPopulationCount := n\<rparr>) = fifo_ok meta f"
  "pending (f\<lparr>df_populated := b\<rparr>) = pending f"
  "pending (f\<lparr>df_initialPopulationCount := n\<rparr>) = pending f"
  by (simp_all add: fifo_ok_def pending_def fun_eq_iff)

lemma pending_iff: "fifo_ok meta f \<Longrightarrow> pending f k \<noteq> [] \<longleftrightarrow> k \<in> set (df_queue f)"
  by (auto simp: fifo_ok_def pending_def split: option.splits)

lemma fifo_Pop_ok:
  assumes "fifo_ok meta f" and "df_queue f = k # ks"
  shows "\<exists>f'. fifo_Pop f = (Popped k (pending f k), f') \<and> fifo_ok meta f' \<and> df_queue f' = ks
    \<and> pending f' = (pending f)(k := [])"
proof -
  have dom: "dom (df_items f) = set (k # ks)" "distinct (k # ks)"
    using assms by (simp_all add: fifo_ok_def)
  then have "k \<in> dom (df_items f)" by simp
  then obtain ds where ds: "df_items f k = Some ds" by blast
  have ks: "k \<notin> set ks" "set ks = dom (df_items f) - {k}" "distinct ks"
    using dom by auto
  let ?f' = "snd (fifo_Pop f)"
  have pop: "fifo_Pop f = (Popped k ds, ?f')" "df_queue ?f' = ks" "df_items ?f' = (df_items f)(k := None)"
    by (simp_all add: fifo_Pop_def assms(2) Let_def ds)
  have "fifo_ok meta ?f'"
    using assms(1) ks by (auto simp: fifo_ok_def pop(2,3))
  moreover have "pending ?f' = (pending f)(k := [])" "pending f k = ds"
    by (auto simp: pending_def pop(3) ds)
  ultimately show ?thesis using pop(1,2) by auto
qed

section \<open>What the reflector reports\<close>

text \<open>
  The reflector of the informer passes on what it hears from the API server: the events of a
  watch, and a new list when it starts and after a watch was lost. A resync is its own doing.
  The map of the resources that the server has reported is the reference.
\<close>

datatype 'o report =
    WatchAdded 'o
  | WatchModified 'o
  | WatchDeleted 'o
  | Relist "'o list"
  | Resync

fun report_fifo :: "('o \<Rightarrow> ObjectMeta) \<Rightarrow> 'o store \<Rightarrow> 'o report \<Rightarrow> 'o DeltaFIFO \<Rightarrow> 'o DeltaFIFO" where
  "report_fifo meta known (WatchAdded x) f = snd (fifo_Add meta x f)"
| "report_fifo meta known (WatchModified x) f = snd (fifo_Update meta x f)"
| "report_fifo meta known (WatchDeleted x) f = snd (fifo_Delete meta known x f)"
| "report_fifo meta known (Relist xs) f = snd (fifo_Replace meta known xs f)"
| "report_fifo meta known Resync f = snd (fifo_Resync meta known f)"

fun reported_map :: "('o \<Rightarrow> ObjectMeta) \<Rightarrow> 'o report \<Rightarrow> (string \<rightharpoonup> 'o) \<Rightarrow> (string \<rightharpoonup> 'o)" where
  "reported_map meta (WatchAdded x) m = reference_step meta (Stored x) m"
| "reported_map meta (WatchModified x) m = reference_step meta (Stored x) m"
| "reported_map meta (WatchDeleted x) m = reference_step meta (Deleted x) m"
| "reported_map meta (Relist xs) m = reference_step meta (Replaced xs) m"
| "reported_map meta Resync m = m"

text \<open>A list of the API server has every resource once.\<close>

fun report_ok :: "('o \<Rightarrow> ObjectMeta) \<Rightarrow> 'o report \<Rightarrow> bool" where
  "report_ok meta (Relist xs) \<longleftrightarrow> distinct (map (object_key meta) xs)"
| "report_ok meta r \<longleftrightarrow> True"

fun report_objects :: "'o report \<Rightarrow> 'o set" where
  "report_objects (WatchAdded x) = {x}"
| "report_objects (WatchModified x) = {x}"
| "report_objects (WatchDeleted x) = {x}"
| "report_objects (Relist xs) = set xs"
| "report_objects Resync = {}"

text \<open>The store of an informer has every object once, under its key.\<close>

definition store_keys :: "('o \<Rightarrow> ObjectMeta) \<Rightarrow> 'o store \<Rightarrow> bool" where
  "store_keys meta c \<longleftrightarrow>
     distinct (map fst (items c)) \<and> (\<forall>k x. store_Get c k = Some x \<longrightarrow> object_key meta x = k)"

text \<open>The deltas that a report puts into the queue.\<close>

fun report_deltas :: "('o \<Rightarrow> ObjectMeta) \<Rightarrow> 'o store \<Rightarrow> 'o DeltaFIFO \<Rightarrow> 'o report \<Rightarrow> 'o Delta list" where
  "report_deltas meta known f (WatchAdded x) = [DeltaAdded x]"
| "report_deltas meta known f (WatchModified x) = [DeltaUpdated x]"
| "report_deltas meta known f (WatchDeleted x) =
     (if store_Get known (object_key meta x) = None \<and> df_items f (object_key meta x) = None then []
      else [DeltaDeleted (FinalState x)])"
| "report_deltas meta known f (Relist xs) =
     map DeltaReplaced xs
     @ map (\<lambda>k. DeltaDeleted (DeletedFinalStateUnknown k (store_Get known k)))
         (filter (\<lambda>k. k \<notin> object_key meta ` set xs) (map fst (items known)))"
| "report_deltas meta known f Resync =
     map (\<lambda>k. DeltaSync (the (store_Get known k))) (filter (\<lambda>k. pending f k = []) (map fst (items known)))"

lemma queued_populated: "queued meta d (f\<lparr>df_populated := b\<rparr>) = (queued meta d f)\<lparr>df_populated := b\<rparr>"
  by (simp add: queued_def Let_def pending_def)

lemma store_Get_items: "k \<in> set (map fst (items c)) \<longleftrightarrow> store_Get c k \<noteq> None"
  by (simp add: store_Get_def map_of_eq_None_iff image_iff)

lemma resync_loop_eq:
  assumes "\<And>k x. store_Get known k = Some x \<Longrightarrow> object_key meta x = k"
    and "distinct ks" and "\<And>k. k \<in> set ks \<Longrightarrow> store_Get known k \<noteq> None"
  shows "resync_loop meta known ks f =
    (None, fold (queued meta) (map (\<lambda>k. DeltaSync (the (store_Get known k))) (filter (\<lambda>k. pending f k = []) ks)) f)"
  using assms(2,3)
proof (induction ks arbitrary: f)
  case (Cons k ks)
  obtain x where x: "store_Get known k = Some x" "object_key meta x = k"
    using Cons.prems(2) [of k] assms(1) by auto
  let ?f = "queued meta (DeltaSync x) f"
  have "filter (\<lambda>k. pending ?f k = []) ks = filter (\<lambda>k. pending f k = []) ks"
    using Cons.prems(1) x(2) by (intro filter_cong) (auto simp: pending_queued)
  moreover have "(case df_items f k of None \<Rightarrow> False | Some ds \<Rightarrow> ds \<noteq> []) \<longleftrightarrow> pending f k \<noteq> []"
    by (simp add: pending_def split: option.splits)
  ultimately show ?case
    using Cons.IH [of ?f] Cons.IH [of f] Cons.prems x by (auto simp: queueActionLocked_eq)
qed simp

lemma report_fifo_eq:
  assumes "store_keys meta known"
  obtains b n where "report_fifo meta known r f =
    (fold (queued meta) (report_deltas meta known f r) f)\<lparr>df_populated := b, df_initialPopulationCount := n\<rparr>"
proof -
  have sync: "fifo_Resync meta known f = (None, fold (queued meta) (report_deltas meta known f Resync) f)"
    unfolding fifo_Resync_def report_deltas.simps
    by (rule resync_loop_eq) (use assms store_Get_items in \<open>auto simp: store_keys_def\<close>)
  have replace: "\<exists>b n. snd (fifo_Replace meta known xs f) =
      (fold (queued meta) (report_deltas meta known f (Relist xs)) f)\<lparr>df_populated := b, df_initialPopulationCount := n\<rparr>" for xs
  proof -
    let ?f = "fold (queued meta) (report_deltas meta known f (Relist xs)) f"
    let ?n = "int (card (object_key meta ` set xs)
      + length (filter (\<lambda>k. k \<notin> object_key meta ` set xs) (map fst (items known))))"
    have "snd (fifo_Replace meta known xs f) =
        (if df_populated f then ?f else ?f\<lparr>df_populated := True, df_initialPopulationCount := ?n\<rparr>)"
      by (simp add: fifo_Replace_def queue_loop_eq Let_def)
    moreover have "?f = ?f\<lparr>df_populated := df_populated ?f, df_initialPopulationCount := df_initialPopulationCount ?f\<rparr>"
      by simp
    ultimately show ?thesis by metis
  qed
  have same: "g = g\<lparr>df_populated := df_populated g, df_initialPopulationCount := df_initialPopulationCount g\<rparr>"
    for g :: "'a DeltaFIFO" by simp
  have count: "\<exists>b n. g\<lparr>df_populated := True\<rparr> = g\<lparr>df_populated := b, df_initialPopulationCount := n\<rparr>"
    for g :: "'a DeltaFIFO"
    using same [of "g\<lparr>df_populated := True\<rparr>"] by (intro exI [of _ True] exI [of _ "df_initialPopulationCount g"]) simp
  have "\<exists>b n. report_fifo meta known r f =
    (fold (queued meta) (report_deltas meta known f r) f)\<lparr>df_populated := b, df_initialPopulationCount := n\<rparr>"
  proof (cases r)
    case (Relist xs)
    then show ?thesis using replace [of xs] by simp
  next
    case Resync
    then show ?thesis using sync same by (metis report_fifo.simps(5) snd_conv)
  next
    case (WatchDeleted x)
    then show ?thesis
      by (auto simp: fifo_Delete_def queueActionLocked_eq queued_populated Let_def intro: count)
  next
    case (WatchAdded x)
    then show ?thesis
      by (auto simp: fifo_Add_def queueActionLocked_eq queued_populated intro: count)
  next
    case (WatchModified x)
    then show ?thesis
      by (auto simp: fifo_Update_def queueActionLocked_eq queued_populated intro: count)
  qed
  then show ?thesis using that by blast
qed

lemma report_fifo_facts:
  assumes "store_keys meta known"
  shows "pending (report_fifo meta known r f) = pending (fold (queued meta) (report_deltas meta known f r) f)"
    and "df_queue (report_fifo meta known r f) = df_queue (fold (queued meta) (report_deltas meta known f r) f)"
    and "fifo_ok meta f \<Longrightarrow> fifo_ok meta (report_fifo meta known r f)"
  by (rule report_fifo_eq [OF assms, of r f]; simp add: fold_queued_ok)+

text \<open>Every report has at most one delta for a key.\<close>

lemma report_deltas_distinct:
  assumes "store_keys meta known" and "report_ok meta r"
  shows "distinct (map (KeyOf meta) (report_deltas meta known f r))"
proof (cases r)
  case Resync
  have "map (KeyOf meta) (report_deltas meta known f Resync) = filter (\<lambda>k. pending f k = []) (map fst (items known))"
    using assms(1) store_Get_items [of _ known] by (auto simp: store_keys_def intro!: map_idI)
  then show ?thesis using assms(1) by (simp add: Resync store_keys_def)
qed (use assms in \<open>auto simp: store_keys_def comp_def\<close>)

lemma pending_fold_queued:
  assumes "distinct (map (KeyOf meta) ds)"
  shows "pending (fold (queued meta) ds f) k =
    (case find (\<lambda>d. KeyOf meta d = k) ds of
       None \<Rightarrow> pending f k
     | Some d \<Rightarrow> dedupDeltas (pending f k @ [d]))"
  using assms
proof (induction ds arbitrary: f)
  case (Cons d ds)
  have "find (\<lambda>d'. KeyOf meta d' = KeyOf meta d) ds = None"
    using Cons.prems by (auto simp: find_None_iff) (metis image_eqI)
  then show ?case using Cons by (auto simp: pending_queued split: option.splits)
qed simp

lemma queued_queue:
  "df_queue (queued meta d f) = df_queue f @ (if df_items f (KeyOf meta d) = None then [KeyOf meta d] else [])"
  by (simp add: queued_def Let_def)

lemma fold_queued_queue: "\<exists>new. df_queue (fold (queued meta) ds f) = df_queue f @ new"
proof (induction ds arbitrary: f)
  case (Cons d ds)
  then show ?case by (metis append_assoc fold_simps(2) queued_queue)
qed simp

end
