(* ===== verification/Ring_Buffer.thy ===== *)
theory Ring_Buffer
  imports Prelude
begin

text \<open>
  The growing ring buffer (\<open>vendor/k8s.io/utils/buffer/ring_growing.go\<close>) in which the listener of an
  informer keeps the notifications that its handler has not seen. The lemmas show that it
  represents a queue: reading takes the oldest element, writing adds a newest one, also
  when the buffer grows, and no access is out of range.
\<close>

section \<open>The buffer\<close>

record 'a RingGrowing =
  rg_data :: "'a option list"
  rg_n :: nat
  rg_beg :: nat
  rg_readable :: nat

definition NewRingGrowing :: "nat \<Rightarrow> 'a RingGrowing" where
  "NewRingGrowing initialSize =
     \<lparr>rg_data = replicate initialSize None, rg_n = initialSize, rg_beg = 0, rg_readable = 0\<rparr>"

definition ReadOne :: "'a RingGrowing \<Rightarrow> 'a option \<times> 'a RingGrowing" where
  "ReadOne r =
     (if rg_readable r = 0 then (None, r)
      else
        (rg_data r ! rg_beg r,
         r\<lparr> rg_readable := rg_readable r - 1, rg_data := (rg_data r)[rg_beg r := None],
            rg_beg := if rg_beg r = rg_n r - 1 then 0 else Suc (rg_beg r) \<rparr>))"

text \<open>Go's \<open>copy\<close> writes as many elements as both slices have.\<close>

definition copy_at :: "nat \<Rightarrow> 'a list \<Rightarrow> 'a list \<Rightarrow> 'a list" where
  "copy_at k dst src = take k dst @ take (length dst - k) src @ drop (k + length src) dst"

definition ring_grow :: "'a RingGrowing \<Rightarrow> 'a RingGrowing" where
  "ring_grow r =
     (let newN = rg_n r * 2; newData = replicate newN None; to = rg_beg r + rg_readable r
      in r\<lparr> rg_beg := 0, rg_n := newN,
            rg_data :=
              (if to \<le> rg_n r then copy_at 0 newData (drop (rg_beg r) (take to (rg_data r)))
               else let copied = min newN (length (rg_data r) - rg_beg r)
                    in copy_at copied (copy_at 0 newData (drop (rg_beg r) (rg_data r)))
                         (take (to mod rg_n r) (rg_data r))) \<rparr>)"

definition WriteOne :: "'a \<Rightarrow> 'a RingGrowing \<Rightarrow> 'a RingGrowing outcome" where
  "WriteOne x r =
     (let r = (if rg_readable r = rg_n r then ring_grow r else r)
      in if rg_n r = 0 then Panic ''runtime error: integer divide by zero''
         else Ret (r\<lparr> rg_data := (rg_data r)[(rg_readable r + rg_beg r) mod rg_n r := Some x],
                      rg_readable := Suc (rg_readable r) \<rparr>))"

section \<open>The queue it represents\<close>

definition ring_items :: "'a RingGrowing \<Rightarrow> 'a list" where
  "ring_items r = map (\<lambda>i. the (rg_data r ! ((rg_beg r + i) mod rg_n r))) [0..<rg_readable r]"

definition ring_ok :: "'a RingGrowing \<Rightarrow> bool" where
  "ring_ok r \<longleftrightarrow>
     0 < rg_n r \<and> length (rg_data r) = rg_n r \<and> rg_beg r < rg_n r \<and> rg_readable r \<le> rg_n r
     \<and> (\<forall>i<rg_readable r. rg_data r ! ((rg_beg r + i) mod rg_n r) \<noteq> None)"

lemma NewRingGrowing_ok: "0 < k \<Longrightarrow> ring_ok (NewRingGrowing k)" "ring_items (NewRingGrowing k) = []"
  by (simp_all add: ring_ok_def ring_items_def NewRingGrowing_def)

lemma next_index: "b < n \<Longrightarrow> (if b = n - 1 then 0 else Suc b) = Suc b mod (n::nat)"
  by (auto simp: mod_Suc)

lemma shifted_index:
  assumes "i < (n::nat)" and "i \<noteq> 0"
  shows "(b + i) mod n \<noteq> b mod n"
proof
  assume "(b + i) mod n = b mod n"
  then have "n dvd b + i - b" by (intro mod_eq_dvd_iff_nat [THEN iffD1]) simp_all
  then show False using assms by (auto dest: dvd_imp_le)
qed

lemma ReadOne_ok:
  assumes "ring_ok r"
  shows "ring_ok (snd (ReadOne r))"
    and "fst (ReadOne r) = (case ring_items r of [] \<Rightarrow> None | x # xs \<Rightarrow> Some x)"
    and "ring_items (snd (ReadOne r)) = tl (ring_items r)"
proof -
  let ?n = "rg_n r" and ?b = "rg_beg r" and ?m = "rg_readable r" and ?r = "snd (ReadOne r)"
  have ok: "0 < ?n" "length (rg_data r) = ?n" "?b < ?n" "?m \<le> ?n"
    "\<And>i. i < ?m \<Longrightarrow> rg_data r ! ((?b + i) mod ?n) \<noteq> None"
    using assms by (auto simp: ring_ok_def)
  have rest: "rg_data ?r ! ((rg_beg ?r + i) mod ?n) = rg_data r ! ((?b + Suc i) mod ?n)"
    if "i < ?m - 1" for i
  proof -
    have "(Suc ?b mod ?n + i) mod ?n = (?b + Suc i) mod ?n" by (simp add: mod_add_left_eq)
    moreover have "(?b + Suc i) mod ?n \<noteq> ?b"
      using shifted_index [of "Suc i" ?n ?b] that ok(3,4) by simp
    moreover have "rg_beg ?r = Suc ?b mod ?n"
      using that next_index [OF ok(3)] by (auto simp: ReadOne_def)
    ultimately show ?thesis
      using that ok(2,3) by (simp add: ReadOne_def)
  qed
  have fields: "rg_readable ?r = ?m - 1" "rg_n ?r = ?n" "rg_beg ?r < ?n" "length (rg_data ?r) = ?n"
    using ok(1,2,3) by (auto simp: ReadOne_def)
  show "ring_ok ?r"
    unfolding ring_ok_def fields
  proof (intro conjI allI impI)
    fix i assume "i < ?m - 1"
    then show "rg_data ?r ! ((rg_beg ?r + i) mod ?n) \<noteq> None"
      using rest [of i] ok(5) [of "Suc i"] by simp
  qed (use ok(1,4) fields(3) in simp_all)
  have upt: "[0..<?m] = 0 # map Suc [0..<?m - 1]" if "?m \<noteq> 0"
    using that by (simp add: map_Suc_upt upt_conv_Cons)
  show "fst (ReadOne r) = (case ring_items r of [] \<Rightarrow> None | x # xs \<Rightarrow> Some x)"
    using ok(3) ok(5) [of 0] by (auto simp: ReadOne_def ring_items_def upt)
  show "ring_items ?r = tl (ring_items r)"
  proof (cases "?m = 0")
    case False
    then show ?thesis
      using rest fields by (simp add: ring_items_def upt comp_def)
  qed (simp add: ring_items_def ReadOne_def)
qed

text \<open>Growing moves the elements to the front of a buffer of twice the size.\<close>

lemma ring_grow_data:
  assumes "ring_ok r" and "rg_readable r = rg_n r"
  shows "rg_data (ring_grow r) = rotate (rg_beg r) (rg_data r) @ replicate (rg_n r) None"
proof -
  have ok: "length (rg_data r) = rg_n r" "rg_beg r < rg_n r"
    using assms(1) by (auto simp: ring_ok_def)
  then show ?thesis
    using assms(2) by (auto simp: ring_grow_def copy_at_def Let_def rotate_drop_take min_def mult_2_right)
qed

lemma ring_grow_ok:
  assumes "ring_ok r" and "rg_readable r = rg_n r"
  shows "ring_ok (ring_grow r)" "ring_items (ring_grow r) = ring_items r"
    and "rg_readable (ring_grow r) < rg_n (ring_grow r)"
proof -
  have ok: "0 < rg_n r" "length (rg_data r) = rg_n r" "rg_beg r < rg_n r"
    "\<And>i. i < rg_n r \<Longrightarrow> rg_data r ! ((rg_beg r + i) mod rg_n r) \<noteq> None"
    using assms by (auto simp: ring_ok_def)
  have fields: "rg_n (ring_grow r) = 2 * rg_n r" "rg_beg (ring_grow r) = 0" "rg_readable (ring_grow r) = rg_n r"
    using assms(2) by (simp_all add: ring_grow_def Let_def)
  have same: "rg_data (ring_grow r) ! i = rg_data r ! ((rg_beg r + i) mod rg_n r)" if "i < rg_n r" for i
    using that ok(2) by (simp add: ring_grow_data [OF assms] nth_append nth_rotate)
  show "ring_ok (ring_grow r)"
    using ok same fields ring_grow_data [OF assms] by (auto simp: ring_ok_def)
  show "ring_items (ring_grow r) = ring_items r"
    using same by (simp add: ring_items_def fields assms(2))
  show "rg_readable (ring_grow r) < rg_n (ring_grow r)"
    using ok(1) by (simp add: fields)
qed

lemma write_ok:
  assumes "ring_ok r" and "rg_readable r < rg_n r"
    and "r' = r\<lparr> rg_data := (rg_data r)[(rg_readable r + rg_beg r) mod rg_n r := Some x],
      rg_readable := Suc (rg_readable r) \<rparr>"
  shows "ring_ok r'" "ring_items r' = ring_items r @ [x]"
proof -
  let ?n = "rg_n r" and ?b = "rg_beg r" and ?m = "rg_readable r"
  have ok: "0 < ?n" "length (rg_data r) = ?n" "?b < ?n"
    "\<And>i. i < ?m \<Longrightarrow> rg_data r ! ((?b + i) mod ?n) \<noteq> None"
    using assms by (auto simp: ring_ok_def)
  have other: "(?m + ?b) mod ?n \<noteq> (?b + i) mod ?n" if "i < ?m" for i
    using shifted_index [of "?m - i" ?n "?b + i"] that assms(2) by (simp add: add.commute [of ?m])
  have data: "rg_data r' ! ((?b + i) mod ?n) =
      (if i = ?m then Some x else rg_data r ! ((?b + i) mod ?n))" if "i \<le> ?m" for i
    using other [of i] that ok(1,2) by (auto simp: assms(3) add.commute [of ?m] le_less)
  have fields: "rg_n r' = ?n" "rg_beg r' = ?b" "rg_readable r' = Suc ?m" "length (rg_data r') = ?n"
    using ok(2) by (simp_all add: assms(3))
  show "ring_ok r'"
    unfolding ring_ok_def fields
  proof (intro conjI allI impI)
    fix i assume "i < Suc ?m"
    then show "rg_data r' ! ((?b + i) mod ?n) \<noteq> None"
      using data [of i] ok(4) by (cases "i = ?m") auto
  qed (use ok(1,3) assms(2) in simp_all)
  have "the (rg_data r' ! ((?b + i) mod ?n)) = the (rg_data r ! ((?b + i) mod ?n))" if "i < ?m" for i
    using data [of i] that by simp
  then show "ring_items r' = ring_items r @ [x]"
    using data [of ?m] by (simp add: ring_items_def fields)
qed

lemma WriteOne_ok:
  assumes "ring_ok r"
  shows "\<exists>r'. WriteOne x r = Ret r' \<and> ring_ok r' \<and> ring_items r' = ring_items r @ [x]"
proof -
  let ?r = "if rg_readable r = rg_n r then ring_grow r else r"
  have ok: "ring_ok ?r" "rg_readable ?r < rg_n ?r" "ring_items ?r = ring_items r"
    using assms ring_grow_ok [OF assms] by (auto simp: ring_ok_def)
  then have "WriteOne x r = Ret (?r\<lparr> rg_data := (rg_data ?r)[(rg_readable ?r + rg_beg ?r) mod rg_n ?r := Some x],
      rg_readable := Suc (rg_readable ?r) \<rparr>)"
    unfolding WriteOne_def Let_def by (simp del: if_split)
  then show ?thesis using write_ok [OF ok(1,2) refl, of x] ok(3) by simp
qed

section \<open>Buffers that are queues\<close>

text \<open>
  What the listener relies on: a buffer with some content, which reading takes from the front
  and writing appends to. Neither fails while the buffer is valid.
\<close>

locale fifo_buffer =
  fixes get :: "'b \<Rightarrow> 'a option \<times> 'b" and put :: "'a \<Rightarrow> 'b \<Rightarrow> 'b outcome"
    and content :: "'b \<Rightarrow> 'a list" and valid :: "'b \<Rightarrow> bool"
  assumes get_valid: "valid b \<Longrightarrow> valid (snd (get b))"
    and get_first: "valid b \<Longrightarrow> fst (get b) = (case content b of [] \<Rightarrow> None | x # xs \<Rightarrow> Some x)"
    and get_rest: "valid b \<Longrightarrow> content (snd (get b)) = tl (content b)"
    and put_last: "valid b \<Longrightarrow> \<exists>b'. put x b = Ret b' \<and> valid b' \<and> content b' = content b @ [x]"
begin

lemma get_content:
  assumes "valid b" and "get b = (y, b')"
  shows "valid b'" "content b = (case y of None \<Rightarrow> [] | Some x \<Rightarrow> [x]) @ content b'"
  using get_valid [OF assms(1)] get_first [OF assms(1)] get_rest [OF assms(1)] assms(2)
  by (auto split: list.splits)

lemma put_content:
  assumes "valid b" and "put x b = Ret b'"
  shows "valid b'" "content b' = content b @ [x]"
  using put_last [OF assms(1), of x] assms(2) by auto

end

interpretation ring: fifo_buffer ReadOne WriteOne ring_items ring_ok
  by unfold_locales (simp_all add: ReadOne_ok WriteOne_ok)

end
