(* ===== verification/Fair_Runs.thy ===== *)
theory Fair_Runs
  imports Main
begin

text \<open>
  Infinite runs of a step relation whose steps carry events, and weak fairness: a process that
  could take a step from some point on takes one. The processes of a system share its steps;
  \<open>does p e\<close> says that the event \<open>e\<close> is a step of the process \<open>p\<close>. The rule below derives that
  something happens at last from a measure and, in every state, one process that brings it
  closer and that no other step disables.
\<close>

definition run_of :: "('s \<Rightarrow> 'e \<Rightarrow> 's \<Rightarrow> bool) \<Rightarrow> 's \<Rightarrow> (nat \<Rightarrow> 's) \<Rightarrow> (nat \<Rightarrow> 'e) \<Rightarrow> bool" where
  "run_of step start s e \<longleftrightarrow> s 0 = start \<and> (\<forall>n. step (s n) (e n) (s (Suc n)))"

definition can_take :: "('s \<Rightarrow> 'e \<Rightarrow> 's \<Rightarrow> bool) \<Rightarrow> ('p \<Rightarrow> 'e \<Rightarrow> bool) \<Rightarrow> 'p \<Rightarrow> 's \<Rightarrow> bool" where
  "can_take step does p st \<longleftrightarrow> (\<exists>e t. does p e \<and> step st e t)"

definition fair_run ::
    "('s \<Rightarrow> 'e \<Rightarrow> 's \<Rightarrow> bool) \<Rightarrow> ('p \<Rightarrow> 'e \<Rightarrow> bool) \<Rightarrow> 's \<Rightarrow> (nat \<Rightarrow> 's) \<Rightarrow> (nat \<Rightarrow> 'e) \<Rightarrow> bool" where
  "fair_run step does start s e \<longleftrightarrow>
     run_of step start s e \<and> (\<forall>p n. \<exists>m\<ge>n. does p (e m) \<or> \<not> can_take step does p (s m))"

lemma run_step: "fair_run step does start s e \<Longrightarrow> step (s n) (e n) (s (Suc n))"
  by (simp add: fair_run_def run_of_def)

lemma fair_is_run: "fair_run step does start s e \<Longrightarrow> run_of step start s e"
  by (simp add: fair_run_def)

lemma run_of_step: "run_of step start s e \<Longrightarrow> step (s n) (e n) (s (Suc n))"
  by (simp add: run_of_def)

lemma run_invariant:
  assumes "run_of step start s e" and "I start"
    and "\<And>n. I (s n) \<Longrightarrow> step (s n) (e n) (s (Suc n)) \<Longrightarrow> I (s (Suc n))"
  shows "I (s n)"
  using assms by (induction n) (auto simp: run_of_def)

lemma fair_response:
  assumes fair: "fair_run step does start s e" and wf: "wf R" and start: "P n"
    and enabled: "\<And>m. n \<le> m \<Longrightarrow> P m \<Longrightarrow> can_take step does (h m) (s m)"
    and step: "\<And>m. n \<le> m \<Longrightarrow> P m \<Longrightarrow>
      Q (Suc m) \<or> P (Suc m) \<and> ((\<mu> (Suc m), \<mu> m) \<in> R \<or> \<mu> (Suc m) = \<mu> m \<and> h (Suc m) = h m \<and> \<not> does (h m) (e m))"
  shows "\<exists>m\<ge>n. Q m"
  using start enabled step
proof (induction "\<mu> n" arbitrary: n rule: wf_induct_rule [OF wf])
  case 1
  show ?case
  proof (rule ccontr)
    assume "\<not> (\<exists>m\<ge>n. Q m)"
    then have no: "\<not> Q m" if "n \<le> m" for m using that by blast
    have decrease: "(\<mu> (Suc j), \<mu> n) \<notin> R" if "n \<le> j" "P (Suc j)" for j
    proof
      assume less: "(\<mu> (Suc j), \<mu> n) \<in> R"
      have "\<exists>m\<ge>Suc j. Q m"
        by (rule 1(1) [OF less that(2)]) (use 1(3,4) that(1) in simp_all)
      then show False using no that(1) by auto
    qed
    obtain m where m: "n \<le> m" "does (h n) (e m) \<or> \<not> can_take step does (h n) (s m)"
      using fair unfolding fair_run_def by blast
    have stays: "P j \<and> \<mu> j = \<mu> n \<and> h j = h n" if "n \<le> j" for j
      using that
    proof (induction j rule: dec_induct)
      case base
      show ?case using 1(2) by simp
    next
      case (step j)
      then show ?case using 1(4) [of j] no [of "Suc j"] decrease [of j] by auto
    qed
    have "can_take step does (h n) (s m)" using 1(3) [of m] m(1) stays [OF m(1)] by simp
    then have "does (h m) (e m)" using m(2) stays [OF m(1)] by simp
    then have "(\<mu> (Suc m), \<mu> m) \<in> R"
      using 1(4) [of m] m(1) stays [OF m(1)] no [of "Suc m"] by auto
    then show False
      using decrease [OF m(1)] stays [of "Suc m"] stays [OF m(1)] m(1) by simp
  qed
qed

text \<open>With a measure of two numbers.\<close>

lemma fair_response_pair:
  fixes a b :: "nat \<Rightarrow> nat"
  assumes "fair_run step does start s e" and "P n"
    and "\<And>m. n \<le> m \<Longrightarrow> P m \<Longrightarrow> can_take step does (h m) (s m)"
    and "\<And>m. n \<le> m \<Longrightarrow> P m \<Longrightarrow>
      Q (Suc m) \<or> P (Suc m) \<and> (a (Suc m) < a m \<or> a (Suc m) = a m \<and>
        (b (Suc m) < b m \<or> b (Suc m) = b m \<and> h (Suc m) = h m \<and> \<not> does (h m) (e m)))"
  shows "\<exists>m\<ge>n. Q m"
proof (rule fair_response [where \<mu> = "\<lambda>m. (a m, b m)" and h = h and P = P and Q = Q
      and R = "measures [fst, snd]", OF assms(1) wf_measures assms(2,3)])
  show "Q (Suc m) \<or> P (Suc m) \<and> (((a (Suc m), b (Suc m)), a m, b m) \<in> measures [fst, snd]
      \<or> (a (Suc m), b (Suc m)) = (a m, b m) \<and> h (Suc m) = h m \<and> \<not> does (h m) (e m))"
    if "n \<le> m" "P m" for m
    using assms(4) [OF that] by auto
qed

text \<open>How many elements of a list come before the first with a property.\<close>

definition before :: "('a \<Rightarrow> bool) \<Rightarrow> 'a list \<Rightarrow> nat" where
  "before P xs = length (takeWhile (\<lambda>x. \<not> P x) xs)"

lemma before_append: "\<exists>x \<in> set xs. P x \<Longrightarrow> before P (xs @ ys) = before P xs"
  by (auto simp: before_def takeWhile_append1)

lemma before_Cons: "before P (x # xs) = (if P x then 0 else Suc (before P xs))"
  by (simp add: before_def)

end
