(* ===== verification/Reconcile.thy ===== *)
theory Reconcile
  imports Delta_FIFO Ring_Buffer Work_Queue Fair_Runs
begin

text \<open>
  From the watch of the API server to the handlers of a controller: the reflector puts what it
  hears into the delta queue, the shared informer pops a key, applies its deltas to the store
  and sends a notification for each to its listener
  (\<open>vendor/k8s.io/client-go/tools/cache/shared_informer.go\<close>), the listener passes the
  notifications on to the controller, which puts the key of each into its work queue, and a
  worker that takes the key reads the store and runs the handlers on what it finds. Each of
  these is a goroutine of its own; the steps below are what they do under their locks and on
  their channels, in any order. The informer has one listener, the shared controller of its
  kind of resource.
\<close>

section \<open>Applying a delta\<close>

datatype 'o notification =
    AddNotification 'o
  | UpdateNotification 'o 'o
  | DeleteNotification "'o deleted_object"

text \<open>
  The body of the loop of \<open>HandleDeltas\<close>: the new store, the notification, and whether it goes
  only to the listeners that asked for a resync. The indexer does not fail on resources with
  metadata.
\<close>

definition handle_stored ::
    "('o \<Rightarrow> ObjectMeta) \<Rightarrow> ('o \<Rightarrow> bool) \<Rightarrow> 'o \<Rightarrow> 'o store \<Rightarrow> 'o store \<times> 'o notification \<times> bool" where
  "handle_stored meta is_resync x c =
     (let c' = store_Add (object_key meta x) x c
      in case store_Get c (object_key meta x) of
           Some old \<Rightarrow> (c', UpdateNotification old x, is_resync old)
         | None \<Rightarrow> (c', AddNotification x, False))"

fun HandleDelta :: "('o \<Rightarrow> ObjectMeta) \<Rightarrow> 'o Delta \<Rightarrow> 'o store \<Rightarrow> 'o store \<times> 'o notification \<times> bool" where
  "HandleDelta meta (DeltaSync x) c = handle_stored meta (\<lambda>old. True) x c"
| "HandleDelta meta (DeltaReplaced x) c =
     handle_stored meta (\<lambda>old. om_ResourceVersion (meta x) = om_ResourceVersion (meta old)) x c"
| "HandleDelta meta (DeltaAdded x) c = handle_stored meta (\<lambda>old. False) x c"
| "HandleDelta meta (DeltaUpdated x) c = handle_stored meta (\<lambda>old. False) x c"
| "HandleDelta meta (DeltaDeleted d) c = (store_Delete (deleted_key meta d) c, DeleteNotification d, False)"

section \<open>The listener\<close>

text \<open>
  \<open>pop\<close> holds the notification that it offers next and the buffer of those behind it; \<open>run\<close> has
  taken at most one and is calling the handler with it. The channels between them have no
  room, so a notification is in one of the three places.
\<close>

record 'n processorListener =
  pl_delivering :: "'n option"
  pl_notification :: "'n option"
  pl_pendingNotifications :: "'n RingGrowing"

definition newProcessListener :: "nat \<Rightarrow> 'n processorListener" where
  "newProcessListener bufferSize =
     \<lparr>pl_delivering = None, pl_notification = None, pl_pendingNotifications = NewRingGrowing bufferSize\<rparr>"

definition initialBufferSize :: nat where
  "initialBufferSize = 1024"

definition listener_add :: "'n \<Rightarrow> 'n processorListener \<Rightarrow> 'n processorListener outcome" where
  "listener_add n l =
     (if pl_notification l = None then Ret (l\<lparr>pl_notification := Some n\<rparr>)
      else bind_outcome (WriteOne n (pl_pendingNotifications l)) (\<lambda>b. Ret (l\<lparr>pl_pendingNotifications := b\<rparr>)))"

definition listener_dispatch :: "'n processorListener \<Rightarrow> 'n processorListener option" where
  "listener_dispatch l =
     (case pl_notification l of
        Some n \<Rightarrow>
          if pl_delivering l \<noteq> None then None
          else (let (next_one, b) = ReadOne (pl_pendingNotifications l)
                in Some (l\<lparr>pl_delivering := Some n, pl_notification := next_one, pl_pendingNotifications := b\<rparr>))
      | None \<Rightarrow> None)"

text \<open>
  The handler of the shared controller: it puts the key of the resource into its queue, also
  for a deletion that was missed, unless its last state is not known.
\<close>

fun deleted_last :: "'o deleted_object \<Rightarrow> 'o option" where
  "deleted_last (FinalState x) = Some x"
| "deleted_last (DeletedFinalStateUnknown k obj) = obj"

fun notified_object :: "'o notification \<Rightarrow> 'o option" where
  "notified_object (AddNotification x) = Some x"
| "notified_object (UpdateNotification old x) = Some x"
| "notified_object (DeleteNotification d) = deleted_last d"

definition notified_key :: "('o \<Rightarrow> ObjectMeta) \<Rightarrow> 'o notification \<Rightarrow> string option" where
  "notified_key meta n = map_option (object_key meta) (notified_object n)"

definition handle_notification :: "('o \<Rightarrow> ObjectMeta) \<Rightarrow> 'o notification \<Rightarrow> string work_queue \<Rightarrow> string work_queue" where
  "handle_notification meta n q = (case notified_key meta n of None \<Rightarrow> q | Some k \<Rightarrow> wq_Add k q)"

section \<open>The whole way\<close>

text \<open>
  \<open>rc_hand\<close> are the deltas of the popped key that are not applied yet, \<open>rc_adding\<close> the
  notification that is on its way to the listener; while there are any, the delta queue is
  locked. \<open>rc_read\<close> says of a worker with a key whether it has read the store. Two fields are
  not part of the program but record its history: what the API server has reported, and what
  a worker last read under a key.
\<close>

record 'o reconciler =
  rc_fifo :: "'o DeltaFIFO"
  rc_store :: "'o store"
  rc_hand :: "'o Delta list"
  rc_adding :: "('o notification \<times> bool) option"
  rc_syncing :: bool
  rc_listener :: "'o notification processorListener"
  rc_workers :: "string workers"
  rc_read :: "nat \<Rightarrow> bool"
  rc_reported :: "string \<Rightarrow> 'o option"
  rc_seen :: "string \<Rightarrow> 'o option"

definition start_reconciler :: "('o \<Rightarrow> ObjectMeta) \<Rightarrow> (string \<times> ('o \<Rightarrow> string list)) list \<Rightarrow> 'o reconciler" where
  "start_reconciler meta extra =
     \<lparr> rc_fifo = NewDeltaFIFO, rc_store = start_store meta extra, rc_hand = [], rc_adding = None,
       rc_syncing = True, rc_listener = newProcessListener initialBufferSize, rc_workers = idle_workers,
       rc_read = (\<lambda>i. False), rc_reported = Map.empty, rc_seen = Map.empty \<rparr>"

datatype 'o reconcile_event =
    Report "'o report"
  | ShouldResync bool
  | Pops string
  | Handles
  | Distributes
  | Dispatches
  | Delivers
  | Queue "string queue_event"
  | Reads nat string
  | Quiet

text \<open>A worker is one of those that were started, and finishes a key only after reading the store.\<close>

fun worker_may :: "nat \<Rightarrow> (nat \<Rightarrow> bool) \<Rightarrow> string queue_event \<Rightarrow> bool" where
  "worker_may threads rd (Got i k) \<longleftrightarrow> i < threads"
| "worker_may threads rd (Finished i k failed) \<longleftrightarrow> rd i"
| "worker_may threads rd ev \<longleftrightarrow> True"

fun worker_read :: "string queue_event \<Rightarrow> (nat \<Rightarrow> bool) \<Rightarrow> nat \<Rightarrow> bool" where
  "worker_read (Got i k) rd = rd(i := False)"
| "worker_read ev rd = rd"

inductive reconcile_step ::
    "('o \<Rightarrow> ObjectMeta) \<Rightarrow> nat \<Rightarrow> 'o reconciler \<Rightarrow> 'o reconcile_event \<Rightarrow> 'o reconciler \<Rightarrow> bool"
  for meta threads where
  report: "rc_hand s = [] \<Longrightarrow> rc_adding s = None \<Longrightarrow> report_ok meta r \<Longrightarrow>
    reconcile_step meta threads s (Report r)
      (s\<lparr>rc_fifo := report_fifo meta (rc_store s) r (rc_fifo s), rc_reported := reported_map meta r (rc_reported s)\<rparr>)"
| should_resync: "reconcile_step meta threads s (ShouldResync due) (s\<lparr>rc_syncing := due\<rparr>)"
| pops: "rc_hand s = [] \<Longrightarrow> rc_adding s = None \<Longrightarrow> fifo_Pop (rc_fifo s) = (Popped k ds, f) \<Longrightarrow>
    reconcile_step meta threads s (Pops k) (s\<lparr>rc_fifo := f, rc_hand := ds\<rparr>)"
| handles: "rc_hand s = d # ds \<Longrightarrow> rc_adding s = None \<Longrightarrow> HandleDelta meta d (rc_store s) = (c, n, sync) \<Longrightarrow>
    reconcile_step meta threads s Handles (s\<lparr>rc_store := c, rc_hand := ds, rc_adding := Some (n, sync)\<rparr>)"
| distributes: "rc_adding s = Some (n, sync) \<Longrightarrow>
    (if sync \<and> \<not> rc_syncing s then Ret (rc_listener s) else listener_add n (rc_listener s)) = Ret l \<Longrightarrow>
    reconcile_step meta threads s Distributes (s\<lparr>rc_adding := None, rc_listener := l\<rparr>)"
| dispatches: "listener_dispatch (rc_listener s) = Some l \<Longrightarrow>
    reconcile_step meta threads s Dispatches (s\<lparr>rc_listener := l\<rparr>)"
| delivers: "pl_delivering (rc_listener s) = Some n \<Longrightarrow>
    reconcile_step meta threads s Delivers
      (s\<lparr> rc_listener := (rc_listener s)\<lparr>pl_delivering := None\<rparr>,
          rc_workers := (rc_workers s)\<lparr>ws_queue := handle_notification meta n (ws_queue (rc_workers s))\<rparr> \<rparr>)"
| queue: "queue_step (rc_workers s) ev ws \<Longrightarrow> worker_may threads (rc_read s) ev \<Longrightarrow>
    reconcile_step meta threads s (Queue ev) (s\<lparr>rc_workers := ws, rc_read := worker_read ev (rc_read s)\<rparr>)"
| reads: "ws_busy (rc_workers s) i = Some k \<Longrightarrow> \<not> rc_read s i \<Longrightarrow>
    reconcile_step meta threads s (Reads i k)
      (s\<lparr>rc_read := (rc_read s)(i := True), rc_seen := (rc_seen s)(k := store_Get (rc_store s) k)\<rparr>)"
| quiet: "reconcile_step meta threads s Quiet s"

inductive_cases reconcile_stepE [consumes 1, case_names report should_resync pops handles distributes
    dispatches delivers queue reads quiet]:
  "reconcile_step meta threads s e s'"

inductive_simps step_simps:
  "reconcile_step meta threads s (Pops k) s'"
  "reconcile_step meta threads s Handles s'"
  "reconcile_step meta threads s Distributes s'"
  "reconcile_step meta threads s Dispatches s'"
  "reconcile_step meta threads s Delivers s'"
  "reconcile_step meta threads s (Queue ev) s'"
  "reconcile_step meta threads s (Reads i k) s'"

end
