(* ===== verification/Reconcile_Props.thy ===== *)
theory Reconcile_Props
  imports Reconcile
begin

text \<open>
  What holds on the way from the API server to the handlers: the store together with the
  deltas that are still pending is what the server has reported, no change of the store is
  missed by the workers, and, in a fair run, a worker sees at last whatever the server
  reported last.
\<close>

section \<open>Deltas and the store\<close>

lemma store_keys_Add: "store_keys meta c \<Longrightarrow> store_keys meta (store_Add (object_key meta x) x c)"
  unfolding store_keys_def store_Get_Add
  by (auto simp: store_Add_def Let_def distinct_update split: if_splits)

lemma store_keys_Delete: "store_keys meta c \<Longrightarrow> store_keys meta (store_Delete k c)"
  unfolding store_keys_def store_Get_Delete
  by (auto simp: store_Delete_def Let_def distinct_delete split: option.splits if_splits)

lemma start_store_keys: "store_keys meta (start_store meta extra)" "store_Get (start_store meta extra) = Map.empty"
  by (simp_all add: store_keys_def start_store_def store_Get_def fun_eq_iff)

text \<open>The last state of a deleted resource is known, under its key.\<close>

fun delta_known :: "('o \<Rightarrow> ObjectMeta) \<Rightarrow> 'o Delta \<Rightarrow> bool" where
  "delta_known meta (DeltaDeleted d) \<longleftrightarrow> map_option (object_key meta) (deleted_last d) = Some (deleted_key meta d)"
| "delta_known meta d \<longleftrightarrow> True"

lemma HandleDelta_store:
  assumes "HandleDelta meta d c = (c', n, sync)"
  shows "store_Get c' = (store_Get c)(KeyOf meta d := delta_effect d)"
    and "store_keys meta c \<Longrightarrow> store_keys meta c'"
    and "delta_known meta d \<Longrightarrow> notified_key meta n = Some (KeyOf meta d)"
    and "sync \<Longrightarrow> \<exists>old x. store_Get c (KeyOf meta d) = Some old \<and> delta_effect d = Some x
      \<and> (is_sync d \<or> om_ResourceVersion (meta x) = om_ResourceVersion (meta old))"
  using assms
  by (cases d; auto simp: handle_stored_def Let_def store_Get_Add store_Get_Delete store_keys_Add store_keys_Delete
      notified_key_def split: option.splits)+

section \<open>The listener is a queue\<close>

definition listener_items :: "'n processorListener \<Rightarrow> 'n list" where
  "listener_items l =
     (case pl_delivering l of None \<Rightarrow> [] | Some n \<Rightarrow> [n])
     @ (case pl_notification l of None \<Rightarrow> [] | Some n \<Rightarrow> [n]) @ ring_items (pl_pendingNotifications l)"

definition listener_ok :: "'n processorListener \<Rightarrow> bool" where
  "listener_ok l \<longleftrightarrow>
     ring_ok (pl_pendingNotifications l)
     \<and> (pl_notification l = None \<longrightarrow> ring_items (pl_pendingNotifications l) = [])"

lemma newProcessListener_ok:
  "0 < k \<Longrightarrow> listener_ok (newProcessListener k)" "listener_items (newProcessListener k) = []"
  by (simp_all add: listener_ok_def listener_items_def newProcessListener_def NewRingGrowing_ok)

lemma listener_add_total: "listener_ok l \<Longrightarrow> \<exists>l'. listener_add n l = Ret l'"
  using ring.put_last [of "pl_pendingNotifications l" n] by (auto simp: listener_add_def listener_ok_def)

lemma listener_add_ok:
  assumes "listener_ok l" and "listener_add n l = Ret l'"
  shows "listener_ok l'" "listener_items l' = listener_items l @ [n]" "pl_delivering l' = pl_delivering l"
  using assms ring.put_content [of "pl_pendingNotifications l" n]
  by (auto simp: listener_add_def listener_ok_def listener_items_def bind_outcome_Ret_iff split: if_splits)

lemma listener_dispatch_ok:
  assumes "listener_ok l" and "listener_dispatch l = Some l'"
  shows "listener_ok l'" "listener_items l' = listener_items l"
    and "pl_delivering l = None" "pl_delivering l' \<noteq> None"
proof -
  obtain n next_one b where l: "pl_notification l = Some n" "pl_delivering l = None"
    and b: "ReadOne (pl_pendingNotifications l) = (next_one, b)"
    and l': "l' = l\<lparr>pl_delivering := Some n, pl_notification := next_one, pl_pendingNotifications := b\<rparr>"
    using assms(2) by (auto simp: listener_dispatch_def split: option.splits if_splits prod.splits)
  have "ring_ok (pl_pendingNotifications l)" using assms(1) by (simp add: listener_ok_def)
  note read = ring.get_content [OF this b]
  have "next_one = None \<Longrightarrow> ring_items b = []"
    using ring.get_first [of "pl_pendingNotifications l"] ring.get_rest [of "pl_pendingNotifications l"] b assms(1)
    by (auto simp: listener_ok_def split: list.splits)
  then show "listener_ok l'" using read(1) by (simp add: l' listener_ok_def)
  show "listener_items l' = listener_items l" using read(2) l by (simp add: l' listener_items_def)
  show "pl_delivering l = None" "pl_delivering l' \<noteq> None" using l by (simp_all add: l')
qed

lemma listener_deliver_ok:
  assumes "listener_ok l" and "pl_delivering l = Some n"
  shows "listener_ok (l\<lparr>pl_delivering := None\<rparr>)" "listener_items l = n # listener_items (l\<lparr>pl_delivering := None\<rparr>)"
  using assms by (simp_all add: listener_ok_def listener_items_def)

section \<open>Well-formed states\<close>

definition reconciler_ok :: "('o \<Rightarrow> ObjectMeta) \<Rightarrow> nat \<Rightarrow> 'o reconciler \<Rightarrow> bool" where
  "reconciler_ok meta threads s \<longleftrightarrow>
     fifo_ok meta (rc_fifo s) \<and> store_keys meta (rc_store s) \<and> listener_ok (rc_listener s)
     \<and> workers_ok (rc_workers s) \<and> (\<forall>i k. ws_busy (rc_workers s) i = Some k \<longrightarrow> i < threads)"

lemma start_reconciler_ok: "reconciler_ok meta threads (start_reconciler meta extra)"
  by (simp add: reconciler_ok_def start_reconciler_def NewDeltaFIFO_ok start_store_keys newProcessListener_ok
      initialBufferSize_def idle_ok) (simp add: idle_workers_def)

lemma fifo_Pop_Popped:
  assumes "fifo_ok meta f" and "fifo_Pop f = (Popped k ds, f')"
  shows "df_queue f = k # df_queue f'" "ds = pending f k" "fifo_ok meta f'" "pending f' = (pending f)(k := [])"
proof -
  obtain k' ks where q: "df_queue f = k' # ks"
    using assms(2) by (cases "df_queue f") (auto simp: fifo_Pop_def split: if_splits)
  from fifo_Pop_ok [OF assms(1) q] assms(2)
  show "df_queue f = k # df_queue f'" "ds = pending f k" "fifo_ok meta f'" "pending f' = (pending f)(k := [])"
    using q by auto
qed

lemma handle_notification_ok:
  "workers_ok ws \<Longrightarrow> workers_ok (ws\<lparr>ws_queue := handle_notification meta n (ws_queue ws)\<rparr>)"
  by (cases "notified_key meta n") (simp_all add: handle_notification_def add_ok)

lemma queue_step_busy:
  assumes "queue_step ws ev ws'" and "ws_busy ws' i = Some k" and "ws_busy ws i \<noteq> Some k"
  shows "ev = Got i k"
  using assms by (induction rule: queue_step.induct) (auto split: if_splits)

lemma reconcile_step_ok:
  assumes "reconcile_step meta threads s e s'" and "reconciler_ok meta threads s"
  shows "reconciler_ok meta threads s'"
  using assms
proof (induction rule: reconcile_step.induct)
  case (report s r)
  then show ?case using report_fifo_facts(3) by (auto simp: reconciler_ok_def)
next
  case (pops s k ds f)
  then show ?case using fifo_Pop_Popped(3) by (auto simp: reconciler_ok_def)
next
  case (handles s d ds c n sync)
  then show ?case using HandleDelta_store(2) by (auto simp: reconciler_ok_def)
next
  case (distributes s n sync l)
  then show ?case using listener_add_ok(1) by (auto simp: reconciler_ok_def split: if_splits)
next
  case (dispatches s l)
  then show ?case using listener_dispatch_ok(1) by (auto simp: reconciler_ok_def)
next
  case (delivers s n)
  then show ?case using listener_deliver_ok(1) by (auto simp: reconciler_ok_def handle_notification_ok)
next
  case (queue s ev ws)
  have "i < threads" if "ws_busy ws i = Some k" for i k
    using queue_step_busy [OF queue(1) that] queue(2,3) by (cases ev) (auto simp: reconciler_ok_def)
  then show ?case using queue queue_step_ok by (auto simp: reconciler_ok_def)
qed (simp_all add: reconciler_ok_def)

section \<open>One key\<close>

text \<open>The deltas of a key that are not in the store yet, and what each step does to them.\<close>

definition pend :: "('o \<Rightarrow> ObjectMeta) \<Rightarrow> 'o reconciler \<Rightarrow> string \<Rightarrow> 'o Delta list" where
  "pend meta s k = filter (\<lambda>d. KeyOf meta d = k) (rc_hand s) @ pending (rc_fifo s) k"

abbreviation stored_at :: "'o reconciler \<Rightarrow> string \<Rightarrow> 'o option" where
  "stored_at s k \<equiv> store_Get (rc_store s) k"

lemma key_step:
  assumes "reconcile_step meta threads s e s'" and "reconciler_ok meta threads s"
  obtains (report) r d where "e = Report r" "report_ok meta r"
      "d \<in> set (report_deltas meta (rc_store s) (rc_fifo s) r)" "KeyOf meta d = k"
      "pend meta s k = pending (rc_fifo s) k" "pend meta s' k = dedupDeltas (pend meta s k @ [d])"
      "stored_at s' k = stored_at s k" "rc_reported s' = reported_map meta r (rc_reported s)"
    | (elsewhere) r where "e = Report r" "report_ok meta r"
      "\<forall>d \<in> set (report_deltas meta (rc_store s) (rc_fifo s) r). KeyOf meta d \<noteq> k"
      "pend meta s k = pending (rc_fifo s) k" "pend meta s' k = pend meta s k"
      "stored_at s' k = stored_at s k" "rc_reported s' = reported_map meta r (rc_reported s)"
    | (handle) d where "e = Handles" "KeyOf meta d = k" "pend meta s k = d # pend meta s' k"
      "stored_at s' k = delta_effect d" "rc_reported s' = rc_reported s"
    | (other) "\<And>r. e \<noteq> Report r" "pend meta s' k = pend meta s k" "stored_at s' k = stored_at s k"
      "rc_reported s' = rc_reported s"
  using assms(1)
proof (cases rule: reconcile_stepE)
  case (report r)
  let ?ds = "report_deltas meta (rc_store s) (rc_fifo s) r"
  have keys: "store_keys meta (rc_store s)" using assms(2) by (simp add: reconciler_ok_def)
  have now: "pend meta s k = pending (rc_fifo s) k" using report by (simp add: pend_def)
  have "pend meta s' k = (case find (\<lambda>d. KeyOf meta d = k) ?ds of
      None \<Rightarrow> pend meta s k | Some d \<Rightarrow> dedupDeltas (pend meta s k @ [d]))"
    unfolding now using report pending_fold_queued [OF report_deltas_distinct [OF keys report(5)], where k = k]
    by (simp add: pend_def report_fifo_facts(1) [OF keys])
  note pend = this now
  show ?thesis
  proof (cases "find (\<lambda>d. KeyOf meta d = k) ?ds")
    case None
    then have "\<forall>d \<in> set ?ds. KeyOf meta d \<noteq> k" by (simp add: find_None_iff)
    moreover have "pend meta s' k = pend meta s k" using pend(1) None by simp
    ultimately show ?thesis using elsewhere [of r] report pend(2) by simp
  next
    case (Some d)
    then have "d \<in> set ?ds" "KeyOf meta d = k" by (auto simp: find_Some_iff)
    then show ?thesis using that(1) [of r d] report pend Some by simp
  qed
next
  case (pops k' ds f)
  have ok: "fifo_ok meta (rc_fifo s)" using assms(2) by (simp add: reconciler_ok_def)
  note pop = fifo_Pop_Popped [OF ok pops(5)]
  have "pend meta s' k = pend meta s k"
    using pops pending_key [OF ok] by (auto simp: pend_def pop(2,4) filter_id_conv filter_empty_conv)
  then show ?thesis using other pops by simp
next
  case (handles d ds c n sync)
  then show ?thesis
    using handle [of d] other HandleDelta_store(1) [OF handles(5)] by (cases "KeyOf meta d = k") (simp_all add: pend_def)
qed (use other in \<open>auto simp: pend_def\<close>)

lemma listed_map:
  "distinct (map g xs) \<Longrightarrow>
   foldl (\<lambda>m x. m(g x \<mapsto> x)) m xs k = (case find (\<lambda>x. g x = k) xs of None \<Rightarrow> m k | Some x \<Rightarrow> Some x)"
proof (induction xs arbitrary: m)
  case (Cons x xs)
  have "find (\<lambda>y. g y = g x) xs = None"
    using Cons.prems by (auto simp: find_None_iff) (metis image_eqI)
  then show ?case using Cons by (auto split: option.splits)
qed simp

text \<open>What a report queues for a key is what it says of the key; a resync says nothing.\<close>

lemma report_delta_facts:
  assumes "d \<in> set (report_deltas meta known f r)" and "store_keys meta known" and "report_ok meta r"
  shows "delta_known meta d"
    and "is_sync d \<Longrightarrow> r = Resync \<and> pending f (KeyOf meta d) = [] \<and> delta_effect d = store_Get known (KeyOf meta d)"
    and "\<not> is_sync d \<Longrightarrow> delta_effect d = reported_map meta r m (KeyOf meta d)"
    and "\<not> is_sync d \<Longrightarrow> delta_effect d = Some x \<Longrightarrow> x \<in> report_objects r"
proof -
  have get: "(k, y) \<in> set (items known) \<Longrightarrow> \<exists>x. store_Get known k = Some x \<and> object_key meta x = k" for k y
    using assms(2) store_Get_items [of k known] by (force simp: store_keys_def)
  have find: "find (\<lambda>x. object_key meta x = object_key meta y) xs = Some y"
    if "distinct (map (object_key meta) xs)" "y \<in> set xs" for xs y
    using that by (induction xs) (auto simp: image_iff)
  have none: "k \<notin> object_key meta ` set xs \<Longrightarrow> find (\<lambda>x. object_key meta x = k) xs = None" for xs k
    by (auto simp: find_None_iff)
  show "delta_known meta d"
    using assms(1) get by (cases r) (auto split: if_splits)
  show "r = Resync \<and> pending f (KeyOf meta d) = [] \<and> delta_effect d = store_Get known (KeyOf meta d)" if "is_sync d"
    using assms(1) that by (cases r) (auto split: if_splits dest!: get)
  show "delta_effect d = reported_map meta r m (KeyOf meta d)" if "\<not> is_sync d"
    using assms(1,3) that find
    by (cases r) (auto simp: listed_map none split: if_splits)
  show "x \<in> report_objects r" if "\<not> is_sync d" "delta_effect d = Some x"
    using assms(1) that by (cases r) (auto split: if_splits)
qed

text \<open>
  A report that queues nothing for a key changes nothing that was reported of it, except that
  a new list without the key is overlooked when the key is not in the store yet.
\<close>

definition covered :: "('o \<Rightarrow> ObjectMeta) \<Rightarrow> 'o reconciler \<Rightarrow> 'o report \<Rightarrow> string \<Rightarrow> bool" where
  "covered meta s r k \<longleftrightarrow>
     (\<forall>xs. r = Relist xs \<longrightarrow> pending (rc_fifo s) k \<noteq> [] \<longrightarrow> k \<notin> object_key meta ` set xs \<longrightarrow> stored_at s k \<noteq> None)"

definition settled :: "('o \<Rightarrow> ObjectMeta) \<Rightarrow> 'o reconciler \<Rightarrow> string \<Rightarrow> 'o option" where
  "settled meta s k = (if pend meta s k = [] then stored_at s k else delta_effect (last (pend meta s k)))"

lemma report_elsewhere:
  assumes "\<forall>d \<in> set (report_deltas meta (rc_store s) (rc_fifo s) r). KeyOf meta d \<noteq> k"
    and "report_ok meta r" and "covered meta s r k" and "pend meta s k = pending (rc_fifo s) k"
    and "rc_reported s k = settled meta s k"
  shows "reported_map meta r (rc_reported s) k = rc_reported s k"
proof (cases r)
  case (WatchDeleted x)
  then show ?thesis
    using assms by (auto simp: settled_def pending_def split: if_splits option.splits)
next
  case (Relist xs)
  have no: "KeyOf meta d \<noteq> k" if "d \<in> set (report_deltas meta (rc_store s) (rc_fifo s) (Relist xs))" for d
    using assms(1) that unfolding Relist by blast
  have k1: "k \<notin> object_key meta ` set xs"
    using no [of "DeltaReplaced x" for x] by fastforce
  then have "k \<notin> set (map fst (items (rc_store s)))"
    using no [of "DeltaDeleted (DeletedFinalStateUnknown k (stored_at s k))"] by force
  then have k: "k \<notin> object_key meta ` set xs" "stored_at s k = None"
    using k1 store_Get_items [of k "rc_store s"] by simp_all
  then have "pending (rc_fifo s) k = []" using assms(3) by (auto simp: covered_def Relist)
  then have "rc_reported s k = None" using assms(4,5) k(2) by (simp add: settled_def)
  moreover have "find (\<lambda>x. object_key meta x = k) xs = None" using k(1) by (auto simp: find_None_iff)
  ultimately show ?thesis using assms(2) by (simp add: Relist listed_map)
qed (use assms in auto)

section \<open>The store and the pending deltas are what was reported\<close>

text \<open>
  Only the first pending delta of a key can be a resync, and then it carries what the store has;
  deletions know the last state; all resources were reported.
\<close>

definition pend_ok :: "('o \<Rightarrow> ObjectMeta) \<Rightarrow> 'o set \<Rightarrow> 'o reconciler \<Rightarrow> string \<Rightarrow> bool" where
  "pend_ok meta U s k \<longleftrightarrow>
     (\<forall>d \<in> set (pend meta s k). delta_known meta d \<and> (\<forall>x. delta_effect d = Some x \<longrightarrow> x \<in> U))
     \<and> (\<forall>x. stored_at s k = Some x \<longrightarrow> x \<in> U)
     \<and> (\<forall>d \<in> set (tl (pend meta s k)). \<not> is_sync d)
     \<and> (pend meta s k \<noteq> [] \<longrightarrow> is_sync (hd (pend meta s k)) \<longrightarrow> delta_effect (hd (pend meta s k)) = stored_at s k)"

lemma start_pend:
  "pend meta (start_reconciler meta extra) k = []" "stored_at (start_reconciler meta extra) k = None"
  by (simp_all add: pend_def pending_def start_reconciler_def NewDeltaFIFO_def start_store_keys)

definition reports_in :: "'o set \<Rightarrow> 'o reconcile_event \<Rightarrow> bool" where
  "reports_in U e \<longleftrightarrow> (\<forall>r. e = Report r \<longrightarrow> report_objects r \<subseteq> U)"

lemma pend_ok_step:
  assumes "reconcile_step meta threads s e s'" and ok: "reconciler_ok meta threads s" and "reports_in U e"
    and inv: "pend_ok meta U s k"
  shows "pend_ok meta U s' k"
  using assms(1) ok
proof (cases rule: key_step [where k = k])
  case (report r d)
  have keys: "store_keys meta (rc_store s)" using ok by (simp add: reconciler_ok_def)
  note facts = report_delta_facts [OF report(3) keys report(2)]
  have stored: "delta_effect d = Some x \<Longrightarrow> x \<in> U" for x
    using facts(2,4) inv report(1,4) assms(3) by (cases "is_sync d") (auto simp: pend_ok_def reports_in_def)
  show ?thesis
  proof (cases "pend meta s k = []")
    case True
    then show ?thesis
      using inv facts(1,2) stored report by (auto simp: pend_ok_def dedupDeltas_def)
  next
    case False
    then have d: "\<not> is_sync d" using facts(2) report(4,5) by auto
    let ?new = "dedupDeltas (pend meta s k @ [d])"
    note dedup = dedupDeltas_facts(3,4,5) [of "pend meta s k" d]
    have all: "d' = d \<or> d' \<in> set (pend meta s k)" if "d' \<in> set ?new" for d'
      using dedup(1) that by blast
    have rest: "d' = d \<or> d' \<in> set (tl (pend meta s k))" if "d' \<in> set (tl ?new)" for d'
      using dedup(2) [OF False] that by blast
    have "\<forall>d' \<in> set ?new. delta_known meta d' \<and> (\<forall>x. delta_effect d' = Some x \<longrightarrow> x \<in> U)"
      using all inv facts(1) stored unfolding pend_ok_def by blast
    moreover have "\<forall>d' \<in> set (tl ?new). \<not> is_sync d'"
      using rest inv d unfolding pend_ok_def by blast
    moreover have "is_sync (hd ?new) \<longrightarrow> delta_effect (hd ?new) = stored_at s k"
      using dedup(3) [OF False] inv False unfolding pend_ok_def by auto
    ultimately show ?thesis
      using inv unfolding pend_ok_def report(6,7) by blast
  qed
next
  case (handle d)
  then show ?thesis
    using inv by (cases "pend meta s' k") (auto simp: pend_ok_def)
qed (use inv in \<open>simp_all add: pend_ok_def\<close>)

lemma settled_step:
  assumes "reconcile_step meta threads s e s'" and ok: "reconciler_ok meta threads s"
    and "\<And>r. e = Report r \<Longrightarrow> covered meta s r k" and inv: "pend_ok meta U s k"
    and eq: "rc_reported s k = settled meta s k"
  shows "rc_reported s' k = settled meta s' k"
  using assms(1) ok
proof (cases rule: key_step [where k = k])
  case (report r d)
  have keys: "store_keys meta (rc_store s)" using ok by (simp add: reconciler_ok_def)
  note facts = report_delta_facts [OF report(3) keys report(2)]
  have "delta_effect d = reported_map meta r (rc_reported s) k"
    using facts(2,3) report(4,5) eq by (cases "is_sync d") (auto simp: settled_def)
  then show ?thesis
    using dedupDeltas_facts(1,2) [of "pend meta s k" d] report by (simp add: settled_def)
next
  case (elsewhere r)
  then have "rc_reported s' k = rc_reported s k"
    using report_elsewhere [OF elsewhere(3,2) assms(3) [OF elsewhere(1)] elsewhere(4) eq] by simp
  then show ?thesis using eq elsewhere by (simp add: settled_def)
next
  case (handle d)
  then show ?thesis using eq by (simp add: settled_def)
qed (use eq in \<open>simp add: settled_def\<close>)

section \<open>No change is missed\<close>

definition unread :: "'o reconciler \<Rightarrow> string \<Rightarrow> bool" where
  "unread s k \<longleftrightarrow> (\<exists>i. ws_busy (rc_workers s) i = Some k \<and> \<not> rc_read s i)"

definition on_its_way :: "('o \<Rightarrow> ObjectMeta) \<Rightarrow> 'o reconciler \<Rightarrow> string \<Rightarrow> bool" where
  "on_its_way meta s k \<longleftrightarrow>
     (\<exists>n. rc_adding s = Some (n, False) \<and> notified_key meta n = Some k)
     \<or> (\<exists>n \<in> set (listener_items (rc_listener s)). notified_key meta n = Some k)
     \<or> owed k (rc_workers s) \<or> unread s k"

text \<open>Two states of a resource with the same version are the same.\<close>

definition version_law :: "('o \<Rightarrow> ObjectMeta) \<Rightarrow> 'o set \<Rightarrow> bool" where
  "version_law meta U \<longleftrightarrow>
     (\<forall>x\<in>U. \<forall>y\<in>U. object_key meta x = object_key meta y
        \<longrightarrow> om_ResourceVersion (meta x) = om_ResourceVersion (meta y) \<longrightarrow> x = y)"

lemma delta_effect_key: "delta_effect d = Some x \<Longrightarrow> KeyOf meta d = object_key meta x"
  by (cases d) auto

lemma queue_unread:
  assumes "queue_step ws ev ws'" and "worker_may threads rd ev"
    and "ws_busy ws i = Some k" and "\<not> rd i"
  shows "ws_busy ws' i = Some k \<and> \<not> worker_read ev rd i"
  using assms by (induction rule: queue_step.induct) auto

lemma owed_Add: "owed k ws \<Longrightarrow> owed k (ws\<lparr>ws_queue := wq_Add k' (ws_queue ws)\<rparr>)"
  by (auto simp: owed_def wq_Add_fields)

lemma step_on_its_way:
  assumes "reconcile_step meta threads s e s'" and ok: "reconciler_ok meta threads s"
    and running: "running (rc_workers s')" and way: "on_its_way meta s k" and "\<And>i. e \<noteq> Reads i k"
  shows "on_its_way meta s' k"
  using assms(1)
proof (cases rule: reconcile_stepE)
  case (distributes n sync l)
  have "listener_ok (rc_listener s)" using ok by (simp add: reconciler_ok_def)
  note add = listener_add_ok(2) [OF this, of n l]
  show ?thesis
    using way distributes add by (cases "sync \<and> \<not> rc_syncing s") (auto simp: on_its_way_def unread_def)
next
  case (dispatches l)
  have "listener_items l = listener_items (rc_listener s)"
    using ok listener_dispatch_ok(2) [of "rc_listener s" l] dispatches by (simp add: reconciler_ok_def)
  then show ?thesis using way dispatches by (simp add: on_its_way_def unread_def)
next
  case (delivers n)
  let ?ws = "rc_workers s"
  let ?ws' = "?ws\<lparr>ws_queue := handle_notification meta n (ws_queue ?ws)\<rparr>"
  have run: "running ?ws"
    using running delivers by (simp add: handle_notification_def wq_Add_fields split: option.splits)
  have items: "listener_items (rc_listener s) = n # listener_items ((rc_listener s)\<lparr>pl_delivering := None\<rparr>)"
    using ok delivers listener_deliver_ok(2) by (auto simp: reconciler_ok_def)
  have "owed k ?ws'" if "notified_key meta n = Some k \<or> owed k ?ws"
    using that run owed_Add by (auto simp: handle_notification_def owed_def wq_Add_fields split: option.splits)
  then show ?thesis
    using way delivers items by (auto simp: on_its_way_def unread_def)
next
  case (queue ev ws)
  have "owed k ws \<or> unread s' k" if "owed k (rc_workers s)"
  proof (cases "\<exists>i. ev = Got i k")
    case True
    then obtain i where "ev = Got i k" by blast
    then show ?thesis using queue by (auto simp: unread_def elim!: queue_step.cases)
  next
    case False
    then show ?thesis using step_owed [OF queue(3) _ that] running queue(2) by simp
  qed
  moreover have "unread s' k" if "unread s k"
    using that queue_unread [OF queue(3,4)] queue(2) by (auto simp: unread_def)
  ultimately show ?thesis using way queue(1,2) by (auto simp: on_its_way_def)
next
  case (reads i k')
  then have "k' \<noteq> k" using assms(5) by blast
  have "unread s' k" if "unread s k"
  proof -
    obtain j where j: "ws_busy (rc_workers s) j = Some k" "\<not> rc_read s j"
      using \<open>unread s k\<close> by (auto simp: unread_def)
    then have "j \<noteq> i" using reads(3) \<open>k' \<noteq> k\<close> by auto
    then show ?thesis using j reads(2) by (auto simp: unread_def)
  qed
  then show ?thesis using way reads by (auto simp: on_its_way_def)
qed (use way in \<open>auto simp: on_its_way_def unread_def\<close>)

lemma step_not_missed:
  assumes step: "reconcile_step meta threads s e s'" and ok: "reconciler_ok meta threads s"
    and inv: "pend_ok meta U s k" and versions: "version_law meta U"
    and running: "running (rc_workers s')"
    and missed: "stored_at s k = rc_seen s k \<or> on_its_way meta s k"
  shows "stored_at s' k = rc_seen s' k \<or> on_its_way meta s' k"
proof (cases "on_its_way meta s k \<and> (\<forall>i. e \<noteq> Reads i k)")
  case True
  then show ?thesis using step_on_its_way [OF step ok running] by blast
next
  case False
  show ?thesis
    using step
  proof (cases rule: reconcile_stepE)
    case (handles d ds c n sync)
    have seen: "stored_at s k = rc_seen s k" using False missed handles(1) by auto
    show ?thesis
    proof (cases "KeyOf meta d = k \<and> delta_effect d \<noteq> stored_at s k")
      case True
      have keys: "store_keys meta (rc_store s)" using ok by (simp add: reconciler_ok_def)
      have d: "pend meta s k = d # tl (pend meta s k)" using handles(3) True by (simp add: pend_def)
      then have known: "delta_known meta d" "\<And>x. delta_effect d = Some x \<Longrightarrow> x \<in> U" "\<not> is_sync d"
        using inv True unfolding pend_ok_def by (metis list.set_intros(1), metis list.set_intros(1), metis list.sel(1) list.discI)
      have "\<not> sync"
      proof
        assume sync
        then obtain old x where x: "stored_at s (KeyOf meta d) = Some old" "delta_effect d = Some x"
          "om_ResourceVersion (meta x) = om_ResourceVersion (meta old)"
          using HandleDelta_store(4) [OF handles(5)] known(3) by blast
        moreover have "object_key meta old = object_key meta x"
          using keys x(1) delta_effect_key [OF x(2), of meta] by (simp add: store_keys_def)
        moreover have "old \<in> U" using inv x(1) True by (simp add: pend_ok_def)
        ultimately show False using versions known(2) [OF x(2)] True unfolding version_law_def by auto
      qed
      then show ?thesis
        using handles HandleDelta_store(3) [OF handles(5) known(1)] True by (auto simp: on_its_way_def)
    next
      case False
      then show ?thesis using seen handles HandleDelta_store(1) [OF handles(5)] by auto
    qed
  qed (use False missed in \<open>auto simp: on_its_way_def\<close>)
qed

end
