(* ===== verification/Reconcile_Live.thy ===== *)
theory Reconcile_Live
  imports Reconcile_Props
begin

text \<open>
  Fair runs of the way from the API server to the handlers. A goroutine that could go on does so
  at last: the informer pops and handles, the listener dispatches and delivers, an idle worker
  takes a key from a queue that is not empty, a worker reads the store and returns from its
  handlers, and the delay of a key ends.
\<close>

section \<open>Processes\<close>

datatype process =
    Popping
  | Handling
  | Distributing
  | Dispatching
  | Delivering
  | Taking
  | Reading nat
  | Finishing nat
  | Delaying string

fun does :: "process \<Rightarrow> 'o reconcile_event \<Rightarrow> bool" where
  "does Popping e \<longleftrightarrow> (\<exists>k. e = Pops k)"
| "does Handling e \<longleftrightarrow> e = Handles"
| "does Distributing e \<longleftrightarrow> e = Distributes"
| "does Dispatching e \<longleftrightarrow> e = Dispatches"
| "does Delivering e \<longleftrightarrow> e = Delivers"
| "does Taking e \<longleftrightarrow> (\<exists>i k. e = Queue (Got i k))"
| "does (Reading i) e \<longleftrightarrow> (\<exists>k. e = Reads i k)"
| "does (Finishing i) e \<longleftrightarrow> (\<exists>k failed. e = Queue (Finished i k failed))"
| "does (Delaying k) e \<longleftrightarrow> e = Queue (Ready k)"

text \<open>When a process can take a step.\<close>

fun ready_for :: "nat \<Rightarrow> 'o reconciler \<Rightarrow> process \<Rightarrow> bool" where
  "ready_for threads s Popping \<longleftrightarrow> df_queue (rc_fifo s) \<noteq> [] \<and> rc_hand s = [] \<and> rc_adding s = None"
| "ready_for threads s Handling \<longleftrightarrow> rc_hand s \<noteq> [] \<and> rc_adding s = None"
| "ready_for threads s Distributing \<longleftrightarrow> rc_adding s \<noteq> None"
| "ready_for threads s Dispatching \<longleftrightarrow>
     pl_notification (rc_listener s) \<noteq> None \<and> pl_delivering (rc_listener s) = None"
| "ready_for threads s Delivering \<longleftrightarrow> pl_delivering (rc_listener s) \<noteq> None"
| "ready_for threads s Taking \<longleftrightarrow>
     wq_queue (ws_queue (rc_workers s)) \<noteq> [] \<and> (\<exists>i<threads. ws_busy (rc_workers s) i = None)"
| "ready_for threads s (Reading i) \<longleftrightarrow> ws_busy (rc_workers s) i \<noteq> None \<and> \<not> rc_read s i"
| "ready_for threads s (Finishing i) \<longleftrightarrow> ws_busy (rc_workers s) i \<noteq> None \<and> rc_read s i"
| "ready_for threads s (Delaying k) \<longleftrightarrow> k \<in> wq_waiting (ws_queue (rc_workers s))"

lemma can_take_iff:
  assumes "reconciler_ok meta threads s"
  shows "can_take (reconcile_step meta threads) does p s \<longleftrightarrow> ready_for threads s p" (is "can_take ?step does p s \<longleftrightarrow> _")
proof (cases p)
  case Popping
  have "(\<exists>k ds f. fifo_Pop (rc_fifo s) = (Popped k ds, f)) \<longleftrightarrow> df_queue (rc_fifo s) \<noteq> []"
  proof
    assume "\<exists>k ds f. fifo_Pop (rc_fifo s) = (Popped k ds, f)"
    then show "df_queue (rc_fifo s) \<noteq> []" by (auto simp: fifo_Pop_def split: if_splits)
  next
    assume "df_queue (rc_fifo s) \<noteq> []"
    then obtain k ks where "df_queue (rc_fifo s) = k # ks" by (cases "df_queue (rc_fifo s)") auto
    then show "\<exists>k ds f. fifo_Pop (rc_fifo s) = (Popped k ds, f)"
      using assms fifo_Pop_ok [of meta "rc_fifo s" k ks] by (auto simp: reconciler_ok_def)
  qed
  moreover have "can_take ?step does Popping s \<longleftrightarrow> (\<exists>k t. ?step s (Pops k) t)"
    by (auto simp: can_take_def)
  ultimately show ?thesis by (simp add: Popping step_simps) blast
next
  case Handling
  show ?thesis
  proof (cases "rc_hand s")
    case (Cons d ds)
    obtain c n sync where "HandleDelta meta d (rc_store s) = (c, n, sync)" by (rule prod_cases3)
    from reconcile_step.handles [OF Cons _ this] show ?thesis
      by (auto simp: Handling can_take_def step_simps Cons)
  qed (simp add: Handling can_take_def step_simps)
next
  case Distributing
  have "listener_ok (rc_listener s)" using assms by (simp add: reconciler_ok_def)
  then have ret: "\<exists>l. (if sync \<and> \<not> rc_syncing s then Ret (rc_listener s) else listener_add n (rc_listener s)) = Ret l" for sync n
    using listener_add_total by auto
  show ?thesis
  proof (cases "rc_adding s")
    case (Some a)
    obtain n sync where "a = (n, sync)" by (cases a)
    then show ?thesis using ret [of sync n] by (auto simp: Distributing can_take_def step_simps Some)
  qed (simp add: Distributing can_take_def step_simps)
next
  case Dispatching
  have "(\<exists>l. listener_dispatch (rc_listener s) = Some l) \<longleftrightarrow> ready_for threads s Dispatching"
    by (auto simp: listener_dispatch_def split: option.splits prod.splits)
  then show ?thesis by (fastforce simp: Dispatching can_take_def step_simps)
next
  case Delivering
  then show ?thesis by (auto simp: can_take_def step_simps)
next
  case Taking
  have "(\<exists>i k ws. queue_step (rc_workers s) (Got i k) ws \<and> i < threads) \<longleftrightarrow> ready_for threads s Taking"
    by (auto simp: queue_step_exec wq_Get_def neq_Nil_conv split: list.splits if_splits)
  moreover have "can_take ?step does Taking s \<longleftrightarrow> (\<exists>i k t. ?step s (Queue (Got i k)) t)"
    by (auto simp: can_take_def)
  ultimately show ?thesis by (simp add: Taking step_simps)
next
  case (Reading i)
  have "can_take ?step does (Reading i) s \<longleftrightarrow> (\<exists>k t. ?step s (Reads i k) t)"
    by (auto simp: can_take_def)
  then show ?thesis using Reading by (simp add: step_simps)
next
  case (Finishing i)
  have "(\<exists>k failed ws. queue_step (rc_workers s) (Finished i k failed) ws \<and> rc_read s i) \<longleftrightarrow> ready_for threads s (Finishing i)"
    by (auto simp: queue_step_exec)
  moreover have "can_take ?step does (Finishing i) s \<longleftrightarrow> (\<exists>k failed t. ?step s (Queue (Finished i k failed)) t)"
    by (auto simp: can_take_def)
  ultimately show ?thesis by (simp add: Finishing step_simps)
next
  case (Delaying k)
  have "(\<exists>ws. queue_step (rc_workers s) (Ready k) ws) \<longleftrightarrow> ready_for threads s (Delaying k)"
    by (auto simp: queue_step_exec)
  then show ?thesis by (fastforce simp: Delaying can_take_def step_simps)
qed

section \<open>What every state of a run has\<close>

fun event_objects :: "'o reconcile_event \<Rightarrow> 'o set" where
  "event_objects (Report r) = report_objects r"
| "event_objects e = {}"

abbreviation fair_reconcile ::
    "('o \<Rightarrow> ObjectMeta) \<Rightarrow> nat \<Rightarrow> (string \<times> ('o \<Rightarrow> string list)) list \<Rightarrow> (nat \<Rightarrow> 'o reconciler) \<Rightarrow>
     (nat \<Rightarrow> 'o reconcile_event) \<Rightarrow> bool" where
  "fair_reconcile meta threads extra s e \<equiv>
     fair_run (reconcile_step meta threads) does (start_reconciler meta extra) s e"

abbreviation reconcile_run ::
    "('o \<Rightarrow> ObjectMeta) \<Rightarrow> nat \<Rightarrow> (string \<times> ('o \<Rightarrow> string list)) list \<Rightarrow> (nat \<Rightarrow> 'o reconciler) \<Rightarrow>
     (nat \<Rightarrow> 'o reconcile_event) \<Rightarrow> bool" where
  "reconcile_run meta threads extra s e \<equiv>
     run_of (reconcile_step meta threads) (start_reconciler meta extra) s e"

lemma reconcile_run_ok:
  assumes "reconcile_run meta threads extra s e"
  shows "reconciler_ok meta threads (s n)"
  using assms run_invariant [where I = "reconciler_ok meta threads"] start_reconciler_ok reconcile_step_ok
  by metis

lemmas run_ok = reconcile_run_ok [OF fair_is_run]

lemma queue_step_running:
  "queue_step ws ev ws' \<Longrightarrow> ev \<noteq> ShutDown \<Longrightarrow> running ws \<Longrightarrow> running ws'"
  by (induction rule: queue_step.induct)
    (auto simp: wq_Add_fields wq_finish_fields wq_AddRateLimited_def wq_ready_def wq_Get_def Let_def split: list.splits)

lemma step_stays_running:
  assumes "reconcile_step meta threads s e s'" and "e \<noteq> Queue ShutDown" and "running (rc_workers s)"
  shows "running (rc_workers s')"
  using assms
  by (cases rule: reconcile_stepE)
    (auto simp: handle_notification_def wq_Add_fields dest: queue_step_running split: option.splits)

lemma reconcile_run_running:
  assumes "reconcile_run meta threads extra s e" and "\<And>n. e n \<noteq> Queue ShutDown"
  shows "running (rc_workers (s n))"
proof (induction n)
  case 0
  then show ?case
    using assms(1) by (simp add: run_of_def start_reconciler_def idle_workers_def new_queue_def)
next
  case (Suc n)
  then show ?case using step_stays_running [OF run_of_step [OF assms(1)] assms(2)] by blast
qed

lemmas run_stays_running = reconcile_run_running [OF fair_is_run]

lemma reconcile_run_invariants:
  assumes run: "reconcile_run meta threads extra s e" and "\<And>n. e n \<noteq> Queue ShutDown"
    and versions: "version_law meta (\<Union>n. event_objects (e n))"
  shows "pend_ok meta (\<Union>n. event_objects (e n)) (s n) k"
    and "stored_at (s n) k = rc_seen (s n) k \<or> on_its_way meta (s n) k"
    and "(\<And>n r. e n = Report r \<Longrightarrow> covered meta (s n) r k) \<Longrightarrow> rc_reported (s n) k = settled meta (s n) k"
proof -
  let ?U = "\<Union>n. event_objects (e n)"
  note ok = reconcile_run_ok [OF run] and step = run_of_step [OF run]
  have start: "s 0 = start_reconciler meta extra" using run by (simp add: run_of_def)
  have U: "reports_in ?U (e n)" for n
    by (auto simp: reports_in_def intro!: exI [of _ n])
  have pend: "pend_ok meta ?U (s n) k" for n
  proof (induction n)
    case 0
    then show ?case by (simp add: start pend_ok_def start_pend)
  next
    case (Suc n)
    then show ?case by (rule pend_ok_step [OF step ok U])
  qed
  show "pend_ok meta ?U (s n) k" by (rule pend)
  show "stored_at (s n) k = rc_seen (s n) k \<or> on_its_way meta (s n) k"
  proof (induction n)
    case 0
    then show ?case by (simp add: start start_pend) (simp add: start_reconciler_def)
  next
    case (Suc n)
    then show ?case
      using step_not_missed [OF step ok pend versions reconcile_run_running [OF run assms(2)]] by blast
  qed
  show "rc_reported (s n) k = settled meta (s n) k" if "\<And>n r. e n = Report r \<Longrightarrow> covered meta (s n) r k"
  proof (induction n)
    case 0
    then show ?case by (simp add: start settled_def start_pend) (simp add: start_reconciler_def)
  next
    case (Suc n)
    show ?case by (rule settled_step [OF step ok that pend Suc])
  qed
qed

lemmas run_key_invariants = reconcile_run_invariants [OF fair_is_run]

section \<open>Progress\<close>

text \<open>
  The rule of fair runs for properties of states: from \<open>P\<close> the run comes to \<open>Q\<close> or to an event
  in \<open>G\<close>, if in every state with \<open>P\<close> one process is ready whose step gets closer.
\<close>

lemma respond:
  fixes a b :: "'o reconciler \<Rightarrow> nat"
  assumes fair: "fair_reconcile meta threads extra s e" and quiet: "\<And>n. e n \<noteq> Queue ShutDown" and start: "P (s n)"
    and ready: "\<And>st. reconciler_ok meta threads st \<Longrightarrow> P st \<Longrightarrow> ready_for threads st (h st)"
    and step: "\<And>st ev st'. reconcile_step meta threads st ev st' \<Longrightarrow> reconciler_ok meta threads st \<Longrightarrow>
      running (rc_workers st) \<Longrightarrow> running (rc_workers st') \<Longrightarrow> P st \<Longrightarrow>
      Q st' \<or> G ev \<or> P st' \<and> (a st' < a st \<or> a st' = a st \<and>
        (b st' < b st \<or> b st' = b st \<and> h st' = h st \<and> \<not> does (h st) ev))"
  shows "\<exists>m\<ge>n. Q (s m) \<or> G (e m)"
proof -
  have "\<exists>m\<ge>n. Q (s m) \<or> (\<exists>m\<ge>n. G (e m))"
  proof (rule fair_response_pair [OF fair, where P = "\<lambda>m. P (s m)" and h = "\<lambda>m. h (s m)"
        and a = "\<lambda>m. a (s m)" and b = "\<lambda>m. b (s m)"])
    show "P (s n)" by (rule start)
    show "can_take (reconcile_step meta threads) does (h (s m)) (s m)" if "P (s m)" for m
      using ready [OF run_ok [OF fair] that] can_take_iff [OF run_ok [OF fair]] by blast
    show "(Q (s (Suc m)) \<or> (\<exists>m\<ge>n. G (e m))) \<or> P (s (Suc m)) \<and>
        (a (s (Suc m)) < a (s m) \<or> a (s (Suc m)) = a (s m) \<and> (b (s (Suc m)) < b (s m)
          \<or> b (s (Suc m)) = b (s m) \<and> h (s (Suc m)) = h (s m) \<and> \<not> does (h (s m)) (e m)))"
      if "n \<le> m" "P (s m)" for m
      using step [OF run_step [OF fair] run_ok [OF fair] run_stays_running [OF fair quiet]
          run_stays_running [OF fair quiet] that(2)] that(1) by blast
  qed
  then show ?thesis by blast
qed

text \<open>The case of one process whose next step is the one.\<close>

lemma respond_once:
  assumes fair: "fair_reconcile meta threads extra s e" and quiet: "\<And>n. e n \<noteq> Queue ShutDown" and start: "P (s n)"
    and ready: "\<And>st. reconciler_ok meta threads st \<Longrightarrow> P st \<Longrightarrow> ready_for threads st p"
    and step: "\<And>st ev st'. reconcile_step meta threads st ev st' \<Longrightarrow> reconciler_ok meta threads st \<Longrightarrow>
      running (rc_workers st) \<Longrightarrow> running (rc_workers st') \<Longrightarrow> P st \<Longrightarrow> Q st' \<or> G ev \<or> P st' \<and> \<not> does p ev"
  shows "\<exists>m\<ge>n. Q (s m) \<or> G (e m)"
  by (rule respond [OF fair quiet, where P = P and h = "\<lambda>st. p" and a = "\<lambda>st. 0" and b = "\<lambda>st. 0"])
    (use start ready step in auto)

text \<open>A worker that has taken a key reads the store.\<close>

lemma unread_is_read:
  assumes fair: "fair_reconcile meta threads extra s e" and quiet: "\<And>n. e n \<noteq> Queue ShutDown"
    and "unread (s n) k"
  shows "\<exists>m\<ge>n. \<exists>i. e m = Reads i k"
proof -
  obtain i where i: "ws_busy (rc_workers (s n)) i = Some k \<and> \<not> rc_read (s n) i"
    using assms(3) by (auto simp: unread_def)
  have "\<exists>m\<ge>n. False \<or> e m = Reads i k"
  proof (rule respond_once [OF fair quiet, where P = "\<lambda>st. ws_busy (rc_workers st) i = Some k \<and> \<not> rc_read st i"
        and p = "Reading i"])
    fix st ev st'
    assume "reconcile_step meta threads st ev st'" and "ws_busy (rc_workers st) i = Some k \<and> \<not> rc_read st i"
    then show "False \<or> ev = Reads i k \<or> (ws_busy (rc_workers st') i = Some k \<and> \<not> rc_read st' i) \<and> \<not> does (Reading i) ev"
      by (cases rule: reconcile_stepE) (auto dest: queue_unread)
  qed (use i in auto)
  then show ?thesis by blast
qed

text \<open>A key in the work queue is taken: every key that is taken before it brings it closer.\<close>

definition queue_position :: "string \<Rightarrow> 'o reconciler \<Rightarrow> nat" where
  "queue_position k s = before (\<lambda>x. x = k) (wq_queue (ws_queue (rc_workers s)))"

lemma wq_Add_queue: "wq_queue (wq_Add k q) = wq_queue q @ (if wq_shuttingDown q \<or> k \<in> wq_dirty q \<union> wq_processing q then [] else [k])"
  by (simp add: wq_Add_def Let_def)

lemma queue_step_queue:
  assumes "queue_step ws ev ws'"
  obtains (grows) new where "wq_queue (ws_queue ws') = wq_queue (ws_queue ws) @ new" "\<And>i k. ev \<noteq> Got i k"
    | (taken) i k where "ev = Got i k" "wq_queue (ws_queue ws) = k # wq_queue (ws_queue ws')" "ws_busy ws i = None"
        "ws_busy ws' = (ws_busy ws)(i := Some k)"
  using assms
proof (cases rule: queue_stepE)
  case (finished i k failed)
  then show ?thesis
    using grows [of "if k \<in> wq_dirty (ws_queue ws) then [k] else []"] by (simp add: wq_finish_fields)
qed (use grows taken in \<open>auto simp: wq_Add_queue wq_ready_def wq_AddRateLimited_def wq_ShutDown_def wq_Get_def Let_def
    split: list.splits if_splits\<close>)

text \<open>The worker that takes the next key: an idle one, or the first worker once it returns.\<close>

definition taker :: "nat \<Rightarrow> 'o reconciler \<Rightarrow> process" where
  "taker threads s =
     (if \<exists>i<threads. ws_busy (rc_workers s) i = None then Taking
      else if rc_read s 0 then Finishing 0 else Reading 0)"

definition taker_phase :: "nat \<Rightarrow> 'o reconciler \<Rightarrow> nat" where
  "taker_phase threads s =
     (if \<exists>i<threads. ws_busy (rc_workers s) i = None then 0 else if rc_read s 0 then 1 else 2)"

lemma phase_step:
  assumes step: "reconcile_step meta threads st ev st'" and ok: "reconciler_ok meta threads st"
    and taking: "\<And>i k. ev \<noteq> Queue (Got i k)"
  shows "taker_phase threads st' < taker_phase threads st \<or> taker_phase threads st' = taker_phase threads st
    \<and> taker threads st' = taker threads st \<and> (0 < threads \<longrightarrow> \<not> does (taker threads st) ev)"
  using step
proof (cases rule: reconcile_stepE)
  case (queue ev' ws)
  show ?thesis
  proof (cases "\<exists>i k failed. ev' = Finished i k failed")
    case True
    then obtain i k failed where fin: "ev' = Finished i k failed" by blast
    then have busy: "ws_busy (rc_workers st) i = Some k" "ws_busy ws = (ws_busy (rc_workers st))(i := None)"
      using queue(3) by (auto elim: queue_step.cases)
    then have "i < threads" using ok by (auto simp: reconciler_ok_def)
    then have "taker_phase threads st' = 0"
      using queue(2) busy(2) by (auto simp: taker_phase_def)
    then show ?thesis
      using taking queue(1) by (auto simp: taker_def taker_phase_def split: if_splits)
  next
    case False
    then have "ws_busy ws = ws_busy (rc_workers st)" "worker_read ev' (rc_read st) = rc_read st"
      using queue(1,3) taking by (cases ev'; auto elim: queue_step.cases)+
    then show ?thesis using queue(1,2) taking False by (auto simp: taker_def taker_phase_def)
  qed
next
  case (reads i k)
  then show ?thesis by (auto simp: taker_def taker_phase_def split: if_splits)
qed (auto simp: taker_def taker_phase_def)

lemma queued_is_taken:
  fixes s :: "nat \<Rightarrow> 'o reconciler"
  assumes fair: "fair_reconcile meta threads extra s e" and quiet: "\<And>n. e n \<noteq> Queue ShutDown" and "0 < threads"
    and start: "k \<in> set (wq_queue (ws_queue (rc_workers (s n))))"
  shows "\<exists>m\<ge>n. unread (s m) k"
proof -
  have "\<exists>m\<ge>n. unread (s m) k \<or> False"
  proof (rule respond [OF fair quiet, where P = "\<lambda>st. k \<in> set (wq_queue (ws_queue (rc_workers st)))"
        and h = "taker threads" and a = "queue_position k" and b = "taker_phase threads"])
    fix st :: "'o reconciler"
    assume "k \<in> set (wq_queue (ws_queue (rc_workers st)))"
    then show "ready_for threads st (taker threads st)"
      using assms(3) by (auto simp: taker_def)
  next
    fix st st' :: "'o reconciler" and ev
    assume step: "reconcile_step meta threads st ev st'" and ok: "reconciler_ok meta threads st"
      and k: "k \<in> set (wq_queue (ws_queue (rc_workers st)))"
    let ?closer = "queue_position k st' < queue_position k st \<or> queue_position k st' = queue_position k st \<and>
      (taker_phase threads st' < taker_phase threads st \<or> taker_phase threads st' = taker_phase threads st
        \<and> taker threads st' = taker threads st \<and> \<not> does (taker threads st) ev)"
    have "\<exists>new. wq_queue (ws_queue (rc_workers st')) = wq_queue (ws_queue (rc_workers st)) @ new"
      if "\<And>i k. ev \<noteq> Queue (Got i k)"
      using step that
      by (cases rule: reconcile_stepE)
        (auto simp: handle_notification_def wq_Add_queue elim!: queue_step_queue split: option.splits)
    then have same: "queue_position k st' = queue_position k st \<and> k \<in> set (wq_queue (ws_queue (rc_workers st')))"
      if "\<And>i k. ev \<noteq> Queue (Got i k)"
      using that k by (auto simp: queue_position_def before_append)
    show "unread st' k \<or> False \<or> k \<in> set (wq_queue (ws_queue (rc_workers st'))) \<and> ?closer"
    proof (cases "\<exists>i k'. ev = Queue (Got i k')")
      case True
      then obtain i k' where ev: "ev = Queue (Got i k')" by blast
      then have q: "wq_queue (ws_queue (rc_workers st)) = k' # wq_queue (ws_queue (rc_workers st'))"
        "ws_busy (rc_workers st') i = Some k'" "\<not> rc_read st' i"
        using step by (auto simp: step_simps elim!: queue_step_queue)
      then show ?thesis using k by (auto simp: unread_def queue_position_def before_Cons)
    next
      case False
      then show ?thesis using same phase_step [OF step ok] assms(3) by auto
    qed
  qed (rule start)
  then show ?thesis by blast
qed

text \<open>A key that is marked while a worker has it comes back into the queue.\<close>

lemma held_step:
  assumes "queue_step ws ev ws'" and "workers_ok ws" and "ws_busy ws i = Some k" and "k \<in> wq_dirty (ws_queue ws)"
  shows "k \<in> set (wq_queue (ws_queue ws')) \<or> ws_busy ws' i = Some k \<and> k \<in> wq_dirty (ws_queue ws')
    \<and> (\<forall>k failed. ev \<noteq> Finished i k failed)"
  using assms(1)
proof (cases rule: queue_stepE)
  case (got j k' q)
  have "k \<in> wq_processing (ws_queue ws)" using assms(2,3) by (auto simp: workers_ok_def)
  moreover have "k' \<notin> wq_processing (ws_queue ws)"
    using assms(2) got(4) by (auto simp: workers_ok_def wq_Get_def split: list.splits if_splits)
  ultimately have "k \<noteq> k'" by blast
  then show ?thesis
    using got assms(3,4) by (auto simp: wq_Get_def split: list.splits if_splits)
next
  case (finished j k' failed)
  then show ?thesis using assms(3,4) by (auto simp: wq_finish_fields)
qed (use assms(3,4) in \<open>auto simp: wq_Add_fields wq_ready_def wq_AddRateLimited_def wq_ShutDown_def Let_def\<close>)

lemma dirty_is_taken:
  fixes s :: "nat \<Rightarrow> 'o reconciler"
  assumes fair: "fair_reconcile meta threads extra s e" and quiet: "\<And>n. e n \<noteq> Queue ShutDown" and "0 < threads"
    and start: "k \<in> wq_dirty (ws_queue (rc_workers (s n)))"
  shows "\<exists>m\<ge>n. unread (s m) k"
proof -
  let ?queued = "\<lambda>st :: 'o reconciler. k \<in> set (wq_queue (ws_queue (rc_workers st)))"
  have "workers_ok (rc_workers (s n))" using run_ok [OF fair, of n] by (simp add: reconciler_ok_def)
  then consider "?queued (s n)" | i where "ws_busy (rc_workers (s n)) i = Some k"
    using start by (auto simp: workers_ok_def)
  then show ?thesis
  proof cases
    case 1
    then show ?thesis by (rule queued_is_taken [OF fair quiet assms(3)])
  next
    case (2 i)
    show ?thesis
    proof (cases "rc_read (s n) i")
      case False
      then show ?thesis using 2 by (auto simp: unread_def)
    next
      case True
      have "\<exists>m\<ge>n. ?queued (s m) \<or> False"
      proof (rule respond_once [OF fair quiet, where p = "Finishing i" and P = "\<lambda>st. ws_busy (rc_workers st) i = Some k
            \<and> rc_read st i \<and> k \<in> wq_dirty (ws_queue (rc_workers st))"])
        fix st st' :: "'o reconciler" and ev
        assume step: "reconcile_step meta threads st ev st'" and ok: "reconciler_ok meta threads st"
          and P: "ws_busy (rc_workers st) i = Some k \<and> rc_read st i \<and> k \<in> wq_dirty (ws_queue (rc_workers st))"
        show "?queued st' \<or> False \<or> (ws_busy (rc_workers st') i = Some k
            \<and> rc_read st' i \<and> k \<in> wq_dirty (ws_queue (rc_workers st'))) \<and> \<not> does (Finishing i) ev"
          using step
        proof (cases rule: reconcile_stepE)
          case (queue ev' ws)
          have "worker_read ev' (rc_read st) i"
            using queue(3) P by (cases ev') (auto elim: queue_step.cases)
          then show ?thesis
            using held_step [OF queue(3), of i k] queue ok P by (auto simp: reconciler_ok_def)
        qed (use P in \<open>auto simp: handle_notification_def wq_Add_fields split: option.splits\<close>)
      qed (use True 2 start in auto)
      then obtain m where "n \<le> m" "?queued (s m)" by blast
      then show ?thesis using queued_is_taken [OF fair quiet assms(3)] by (meson le_trans)
    qed
  qed
qed

lemma owed_is_taken:
  fixes s :: "nat \<Rightarrow> 'o reconciler"
  assumes fair: "fair_reconcile meta threads extra s e" and quiet: "\<And>n. e n \<noteq> Queue ShutDown" and "0 < threads"
    and start: "owed k (rc_workers (s n))"
  shows "\<exists>m\<ge>n. unread (s m) k"
proof -
  let ?dirty = "\<lambda>st :: 'o reconciler. k \<in> wq_dirty (ws_queue (rc_workers st))"
  have "\<exists>m\<ge>n. ?dirty (s m) \<or> False" if "k \<in> wq_waiting (ws_queue (rc_workers (s n)))"
  proof (rule respond_once [OF fair quiet, where p = "Delaying k"
        and P = "\<lambda>st. k \<in> wq_waiting (ws_queue (rc_workers st))"])
    fix st st' :: "'o reconciler" and ev
    assume step: "reconcile_step meta threads st ev st'" and run: "running (rc_workers st)"
      and P: "k \<in> wq_waiting (ws_queue (rc_workers st))"
    show "?dirty st' \<or> False \<or> k \<in> wq_waiting (ws_queue (rc_workers st')) \<and> \<not> does (Delaying k) ev"
      using step
    proof (cases rule: reconcile_stepE)
      case (queue ev' ws)
      show ?thesis
        using queue(3)
        by (cases rule: queue_stepE)
          (use queue(1,2) P run in \<open>auto simp: wq_Add_fields wq_finish_fields wq_ready_def wq_AddRateLimited_def
            wq_ShutDown_def wq_Get_def Let_def split: list.splits if_splits\<close>)
    qed (use P in \<open>auto simp: handle_notification_def wq_Add_fields split: option.splits\<close>)
  qed (use that in auto)
  then obtain m where "n \<le> m" "?dirty (s m)" using start by (auto simp: owed_def)
  then show ?thesis using dirty_is_taken [OF fair quiet assms(3)] by (meson le_trans)
qed

text \<open>A notification in the listener reaches the handler: those before it are delivered first.\<close>

definition listened :: "('o \<Rightarrow> ObjectMeta) \<Rightarrow> 'o reconciler \<Rightarrow> string \<Rightarrow> bool" where
  "listened meta s k \<longleftrightarrow> (\<exists>n \<in> set (listener_items (rc_listener s)). notified_key meta n = Some k)"

definition listener_position :: "('o \<Rightarrow> ObjectMeta) \<Rightarrow> string \<Rightarrow> 'o reconciler \<Rightarrow> nat" where
  "listener_position meta k s = before (\<lambda>n. notified_key meta n = Some k) (listener_items (rc_listener s))"

lemma listened_is_owed:
  fixes s :: "nat \<Rightarrow> 'o reconciler"
  assumes fair: "fair_reconcile meta threads extra s e" and quiet: "\<And>n. e n \<noteq> Queue ShutDown"
    and start: "listened meta (s n) k"
  shows "\<exists>m\<ge>n. owed k (rc_workers (s m))"
proof -
  let ?d = "\<lambda>st :: 'o reconciler. pl_delivering (rc_listener st)"
  let ?h = "\<lambda>st. if ?d st = None then Dispatching else Delivering"
  let ?b = "\<lambda>st. if ?d st = None then 1 else (0::nat)"
  have "\<exists>m\<ge>n. owed k (rc_workers (s m)) \<or> False"
  proof (rule respond [OF fair quiet, where P = "\<lambda>st. listened meta st k" and h = ?h
        and a = "listener_position meta k" and b = ?b])
    fix st :: "'o reconciler"
    assume "reconciler_ok meta threads st" and "listened meta st k"
    then show "ready_for threads st (?h st)"
      by (cases "pl_notification (rc_listener st)"; cases "?d st")
        (auto simp: listened_def listener_items_def reconciler_ok_def listener_ok_def split: option.splits)
  next
    fix st st' :: "'o reconciler" and ev
    assume step: "reconcile_step meta threads st ev st'" and ok: "reconciler_ok meta threads st"
      and run: "running (rc_workers st)" and P: "listened meta st k"
    have lok: "listener_ok (rc_listener st)" using ok by (simp add: reconciler_ok_def)
    show "owed k (rc_workers st') \<or> False \<or> listened meta st' k
        \<and> (listener_position meta k st' < listener_position meta k st
          \<or> listener_position meta k st' = listener_position meta k st
            \<and> (?b st' < ?b st \<or> ?b st' = ?b st \<and> ?h st' = ?h st \<and> \<not> does (?h st) ev))"
      using step
    proof (cases rule: reconcile_stepE)
      case (distributes n sync l)
      then have "\<exists>new. listener_items l = listener_items (rc_listener st) @ new" "pl_delivering l = ?d st"
        using listener_add_ok(2,3) [OF lok] by (auto split: if_splits)
      moreover have "before (\<lambda>n. notified_key meta n = Some k) (listener_items (rc_listener st) @ new) =
          before (\<lambda>n. notified_key meta n = Some k) (listener_items (rc_listener st))" for new
        using P by (intro before_append) (simp add: listened_def)
      ultimately show ?thesis
        using P distributes by (auto simp: listened_def listener_position_def)
    next
      case (dispatches l)
      then show ?thesis
        using P listener_dispatch_ok(2,3,4) [OF lok dispatches(3)] by (auto simp: listened_def listener_position_def)
    next
      case (delivers n)
      have items: "listener_items (rc_listener st) = n # listener_items (rc_listener st')"
        using listener_deliver_ok(2) [OF lok delivers(3)] delivers(2) by simp
      show ?thesis
      proof (cases "notified_key meta n = Some k")
        case True
        then show ?thesis using delivers(2) run by (simp add: handle_notification_def owed_def wq_Add_fields)
      next
        case False
        then show ?thesis using P items by (simp add: listened_def listener_position_def before_Cons)
      qed
    qed (use P in \<open>auto simp: listened_def listener_position_def\<close>)
  qed (rule start)
  then show ?thesis by blast
qed

text \<open>So whatever is on its way to the workers is read by one of them.\<close>

lemma on_its_way_is_read:
  fixes s :: "nat \<Rightarrow> 'o reconciler"
  assumes fair: "fair_reconcile meta threads extra s e" and quiet: "\<And>n. e n \<noteq> Queue ShutDown" and "0 < threads"
    and start: "on_its_way meta (s n) k"
  shows "\<exists>m\<ge>n. \<exists>i. e m = Reads i k"
proof -
  have unread: "\<exists>m\<ge>j. \<exists>i. e m = Reads i k" if "unread (s j) k" for j
    by (rule unread_is_read [OF fair quiet that])
  have owed: "\<exists>m\<ge>j. \<exists>i. e m = Reads i k" if "owed k (rc_workers (s j))" for j
    using owed_is_taken [OF fair quiet assms(3) that] unread by (meson le_trans)
  have listened: "\<exists>m\<ge>j. \<exists>i. e m = Reads i k" if "listened meta (s j) k" for j
    using listened_is_owed [OF fair quiet that] owed by (meson le_trans)
  have adding: "\<exists>m\<ge>j. \<exists>i. e m = Reads i k"
    if "rc_adding (s j) = Some (x, False)" "notified_key meta x = Some k" for j x
  proof -
    have "\<exists>m\<ge>j. listened meta (s m) k \<or> False"
    proof (rule respond_once [OF fair quiet, where p = Distributing and P = "\<lambda>st. rc_adding st = Some (x, False)"])
      fix st st' :: "'o reconciler" and ev
      assume step: "reconcile_step meta threads st ev st'" and ok: "reconciler_ok meta threads st"
        and P: "rc_adding st = Some (x, False)"
      have "listener_ok (rc_listener st)" using ok by (simp add: reconciler_ok_def)
      note add = listener_add_ok(2) [OF this]
      show "listened meta st' k \<or> False \<or> rc_adding st' = Some (x, False) \<and> \<not> does Distributing ev"
        using step by (cases rule: reconcile_stepE) (use P that(2) add in \<open>auto simp: listened_def\<close>)
    qed (use that in auto)
    then show ?thesis using listened by (meson le_trans)
  qed
  show ?thesis
    using start unread owed adding listened [of n]
    unfolding on_its_way_def listened_def by blast
qed

section \<open>The delta queue is emptied\<close>

definition delta_position :: "string \<Rightarrow> 'o reconciler \<Rightarrow> nat" where
  "delta_position k s =
     (if k \<in> set (df_queue (rc_fifo s)) then Suc (before (\<lambda>x. x = k) (df_queue (rc_fifo s))) else 0)"

definition in_hand :: "'o reconciler \<Rightarrow> nat" where
  "in_hand s = 2 * length (rc_hand s) + (if rc_adding s = None then 0 else 1)"

definition informer_process :: "'o reconciler \<Rightarrow> process" where
  "informer_process s =
     (if rc_adding s \<noteq> None then Distributing else if rc_hand s \<noteq> [] then Handling else Popping)"

lemma deltas_are_applied:
  fixes s :: "nat \<Rightarrow> 'o reconciler"
  assumes fair: "fair_reconcile meta threads extra s e" and quiet: "\<And>n. e n \<noteq> Queue ShutDown"
  shows "\<exists>m\<ge>n. pend meta (s m) k = []"
proof -
  let ?done = "\<lambda>st :: 'o reconciler. k \<notin> set (df_queue (rc_fifo st)) \<and> rc_hand st = []"
  have "\<exists>m\<ge>n. ?done (s m) \<or> False" if "\<not> ?done (s n)"
  proof (rule respond [OF fair quiet, where P = "\<lambda>st. \<not> ?done st" and h = informer_process
        and a = "delta_position k" and b = in_hand])
    fix st :: "'o reconciler"
    assume "\<not> ?done st"
    then show "ready_for threads st (informer_process st)" by (cases "rc_adding st") (auto simp: informer_process_def)
  next
    fix st st' :: "'o reconciler" and ev
    assume step: "reconcile_step meta threads st ev st'" and ok: "reconciler_ok meta threads st"
      and P: "\<not> ?done st"
    have fok: "fifo_ok meta (rc_fifo st)" "store_keys meta (rc_store st)" using ok by (simp_all add: reconciler_ok_def)
    have "delta_position k st' < delta_position k st \<or> delta_position k st' = delta_position k st
        \<and> (in_hand st' < in_hand st \<or> in_hand st' = in_hand st
          \<and> informer_process st' = informer_process st \<and> \<not> does (informer_process st) ev)"
      using step
    proof (cases rule: reconcile_stepE)
      case (report r)
      then have k: "k \<in> set (df_queue (rc_fifo st))" using P by simp
      obtain new where "df_queue (report_fifo meta (rc_store st) r (rc_fifo st)) = df_queue (rc_fifo st) @ new"
        using fold_queued_queue report_fifo_facts(2) [OF fok(2)] by metis
      then show ?thesis
        using report k by (auto simp: delta_position_def before_append in_hand_def informer_process_def)
    next
      case (pops k' ds f)
      then have k: "k \<in> set (df_queue (rc_fifo st))" using P by simp
      have q: "df_queue (rc_fifo st) = k' # df_queue f" by (rule fifo_Pop_Popped(1) [OF fok(1) pops(5)])
      moreover have "distinct (df_queue (rc_fifo st))" using fok(1) by (simp add: fifo_ok_def)
      ultimately show ?thesis using pops(2) k by (auto simp: delta_position_def before_Cons)
    qed (auto simp: delta_position_def in_hand_def informer_process_def)
    then show "?done st' \<or> False \<or> \<not> ?done st' \<and> (delta_position k st' < delta_position k st
        \<or> delta_position k st' = delta_position k st \<and> (in_hand st' < in_hand st \<or> in_hand st' = in_hand st
          \<and> informer_process st' = informer_process st \<and> \<not> does (informer_process st) ev))"
      by blast
  qed (rule that)
  then obtain m where m: "n \<le> m" "?done (s m)" by blast
  have "fifo_ok meta (rc_fifo (s m))" using run_ok [OF fair, of m] by (simp add: reconciler_ok_def)
  then have "pend meta (s m) k = []"
    using m(2) pending_iff [of meta "rc_fifo (s m)" k] by (auto simp: pend_def)
  then show ?thesis using m(1) by blast
qed

section \<open>What was reported last is seen at last\<close>

text \<open>
  Once all deltas of a key are applied and nothing new is reported of it, the store keeps its
  value: whatever is queued for the key after that says the same.
\<close>

definition calm :: "('o \<Rightarrow> ObjectMeta) \<Rightarrow> 'o option \<Rightarrow> 'o reconciler \<Rightarrow> string \<Rightarrow> bool" where
  "calm meta v s k \<longleftrightarrow> stored_at s k = v \<and> (\<forall>d \<in> set (pend meta s k). delta_effect d = v)"

lemma calm_step:
  assumes "reconcile_step meta threads s e s'" and ok: "reconciler_ok meta threads s"
    and calm: "calm meta v s k" and same: "rc_reported s' k = v"
  shows "calm meta v s' k"
  using assms(1) ok
proof (cases rule: key_step [where k = k])
  case (report r d)
  have "store_keys meta (rc_store s)" using ok by (simp add: reconciler_ok_def)
  note facts = report_delta_facts [OF report(3) this report(2)]
  have "delta_effect d = v"
    using facts(2) facts(3) [of "rc_reported s"] report(4,8) calm same by (cases "is_sync d") (auto simp: calm_def)
  then show ?thesis
    using calm report(6,7) dedupDeltas_facts(3) [of "pend meta s k" d] by (auto simp: calm_def)
qed (use calm in \<open>auto simp: calm_def\<close>)

lemma seen_step:
  assumes "reconcile_step meta threads s e s'"
  shows "rc_seen s' k = (if \<exists>i. e = Reads i k then stored_at s k else rc_seen s k)"
  using assms by (cases rule: reconcile_stepE) auto

end
