(* ===== verification/Reconcile_Runs.thy ===== *)
theory Reconcile_Runs
  imports Reconcile_Live
begin

text \<open>
  What the way from the API server to the handlers promises, with runs that show it: the steps
  as a function, and runs that take some events and then rest.
\<close>

section \<open>Runs that can be computed\<close>

fun exec_reconcile ::
    "('o \<Rightarrow> ObjectMeta) \<Rightarrow> nat \<Rightarrow> 'o reconcile_event \<Rightarrow> 'o reconciler \<Rightarrow> 'o reconciler option" where
  "exec_reconcile meta threads (Report r) s =
     (if rc_hand s = [] \<and> rc_adding s = None \<and> report_ok meta r
      then Some (s\<lparr>rc_fifo := report_fifo meta (rc_store s) r (rc_fifo s), rc_reported := reported_map meta r (rc_reported s)\<rparr>)
      else None)"
| "exec_reconcile meta threads (ShouldResync due) s = Some (s\<lparr>rc_syncing := due\<rparr>)"
| "exec_reconcile meta threads (Pops k) s =
     (if rc_hand s = [] \<and> rc_adding s = None
      then (case fifo_Pop (rc_fifo s) of
              (Popped k' ds, f) \<Rightarrow> if k' = k then Some (s\<lparr>rc_fifo := f, rc_hand := ds\<rparr>) else None
            | _ \<Rightarrow> None)
      else None)"
| "exec_reconcile meta threads Handles s =
     (case (rc_hand s, rc_adding s) of
        (d # ds, None) \<Rightarrow>
          (case HandleDelta meta d (rc_store s) of
             (c, n, sync) \<Rightarrow> Some (s\<lparr>rc_store := c, rc_hand := ds, rc_adding := Some (n, sync)\<rparr>))
      | _ \<Rightarrow> None)"
| "exec_reconcile meta threads Distributes s =
     (case rc_adding s of
        Some (n, sync) \<Rightarrow>
          (case (if sync \<and> \<not> rc_syncing s then Ret (rc_listener s) else listener_add n (rc_listener s)) of
             Ret l \<Rightarrow> Some (s\<lparr>rc_adding := None, rc_listener := l\<rparr>)
           | Panic err \<Rightarrow> None)
      | None \<Rightarrow> None)"
| "exec_reconcile meta threads Dispatches s =
     map_option (\<lambda>l. s\<lparr>rc_listener := l\<rparr>) (listener_dispatch (rc_listener s))"
| "exec_reconcile meta threads Delivers s =
     map_option (\<lambda>n. s\<lparr> rc_listener := (rc_listener s)\<lparr>pl_delivering := None\<rparr>,
          rc_workers := (rc_workers s)\<lparr>ws_queue := handle_notification meta n (ws_queue (rc_workers s))\<rparr> \<rparr>)
       (pl_delivering (rc_listener s))"
| "exec_reconcile meta threads (Queue ev) s =
     (if worker_may threads (rc_read s) ev
      then map_option (\<lambda>ws. s\<lparr>rc_workers := ws, rc_read := worker_read ev (rc_read s)\<rparr>) (exec_event ev (rc_workers s))
      else None)"
| "exec_reconcile meta threads (Reads i k) s =
     (if ws_busy (rc_workers s) i = Some k \<and> \<not> rc_read s i
      then Some (s\<lparr>rc_read := (rc_read s)(i := True), rc_seen := (rc_seen s)(k := store_Get (rc_store s) k)\<rparr>)
      else None)"
| "exec_reconcile meta threads Quiet s = Some s"

lemma exec_reconcile_step:
  assumes "exec_reconcile meta threads e s = Some s'"
  shows "reconcile_step meta threads s e s'"
proof (cases e)
  case (Queue ev)
  then show ?thesis
    using assms by (auto simp: queue_step_exec intro!: reconcile_step.queue split: if_splits)
next
  case Distributes
  then obtain n sync where a: "rc_adding s = Some (n, sync)"
    using assms by (cases "rc_adding s") auto
  let ?out = "if sync \<and> \<not> rc_syncing s then Ret (rc_listener s) else listener_add n (rc_listener s)"
  obtain l where "?out = Ret l" "s' = s\<lparr>rc_adding := None, rc_listener := l\<rparr>"
    using assms Distributes a by (cases ?out) (simp_all del: if_split)
  then show ?thesis using reconcile_step.distributes [OF a] Distributes by blast
next
  case (Report r)
  then show ?thesis using assms by (auto split: if_splits intro: reconcile_step.report)
next
  case (Pops k)
  then show ?thesis
    using assms by (auto simp: step_simps split: if_splits prod.splits pop_result.splits)
next
  case Handles
  then show ?thesis
    using assms by (auto simp: step_simps split: list.splits option.splits prod.splits)
qed (use assms in \<open>auto simp: step_simps reconcile_step.should_resync reconcile_step.quiet split: if_splits\<close>)

fun exec_reconciles ::
    "('o \<Rightarrow> ObjectMeta) \<Rightarrow> nat \<Rightarrow> 'o reconcile_event list \<Rightarrow> 'o reconciler \<Rightarrow> 'o reconciler option" where
  "exec_reconciles meta threads [] s = Some s"
| "exec_reconciles meta threads (e # es) s =
     (case exec_reconcile meta threads e s of None \<Rightarrow> None | Some t \<Rightarrow> exec_reconciles meta threads es t)"

definition then_quiet :: "'o reconcile_event list \<Rightarrow> nat \<Rightarrow> 'o reconcile_event" where
  "then_quiet es n = (if n < length es then es ! n else Quiet)"

lemma exec_take:
  "exec_reconciles meta threads es s = Some t \<Longrightarrow>
   \<exists>u. exec_reconciles meta threads (take n es) s = Some u
     \<and> (n < length es \<longrightarrow> (\<exists>v. exec_reconcile meta threads (es ! n) u = Some v
          \<and> exec_reconciles meta threads (take (Suc n) es) s = Some v))"
proof (induction es arbitrary: s n)
  case (Cons e es)
  then obtain s1 where s1: "exec_reconcile meta threads e s = Some s1" "exec_reconciles meta threads es s1 = Some t"
    by (auto split: option.splits)
  then show ?case using Cons.IH [OF s1(2), of "n - 1"] by (cases n) auto
qed simp

text \<open>A computed run that leaves nothing to do is fair.\<close>

lemma run_then_quiet:
  assumes "exec_reconciles meta threads es (start_reconciler meta extra) = Some t"
    and "\<And>p. \<not> ready_for threads t p"
  obtains s where "fair_reconcile meta threads extra s (then_quiet es)"
    "\<And>n. exec_reconciles meta threads (take n es) (start_reconciler meta extra) = Some (s n)"
proof -
  let ?s = "\<lambda>n. the (exec_reconciles meta threads (take n es) (start_reconciler meta extra))"
  have exec: "exec_reconciles meta threads (take n es) (start_reconciler meta extra) = Some (?s n)" for n
    using exec_take [OF assms(1), of n] by auto
  have last: "?s n = t" if "length es \<le> n" for n using that assms(1) by simp
  have "reconcile_step meta threads (?s n) (then_quiet es n) (?s (Suc n))" for n
  proof (cases "n < length es")
    case True
    then show ?thesis
      using exec_take [OF assms(1), of n] by (auto simp: then_quiet_def intro: exec_reconcile_step)
  next
    case False
    then show ?thesis by (simp add: then_quiet_def last reconcile_step.quiet)
  qed
  then have run: "reconcile_run meta threads extra ?s (then_quiet es)" by (simp add: run_of_def)
  have "\<exists>m\<ge>n. does p (then_quiet es m) \<or> \<not> can_take (reconcile_step meta threads) does p (?s m)" for p n
    using can_take_iff [OF reconcile_run_ok [OF run], of p "n + length es"] assms(2) last [of "n + length es"]
    by (intro exI [of _ "n + length es"]) simp
  then have "fair_reconcile meta threads extra ?s (then_quiet es)" using run by (simp add: fair_run_def)
  then show ?thesis using that exec by blast
qed

text \<open>A resource on its way: it is listed, and a worker comes to read it.\<close>

definition one_way :: "string \<Rightarrow> 'o report list \<Rightarrow> 'o reconcile_event list" where
  "one_way k rs =
     map Report rs @ [Pops k, Handles, Distributes, Dispatches, Delivers, Queue (Got 0 k), Reads 0 k, Queue (Finished 0 k False)]"

lemma new_ring_empty: "0 < b \<Longrightarrow> ReadOne (NewRingGrowing b) = (None, NewRingGrowing b)"
  by (simp add: ReadOne_def NewRingGrowing_def)

definition at_rest :: "'o reconciler \<Rightarrow> bool" where
  "at_rest s \<longleftrightarrow>
     df_queue (rc_fifo s) = [] \<and> rc_hand s = [] \<and> rc_adding s = None
     \<and> pl_notification (rc_listener s) = None \<and> pl_delivering (rc_listener s) = None
     \<and> wq_queue (ws_queue (rc_workers s)) = [] \<and> wq_waiting (ws_queue (rc_workers s)) = {}
     \<and> ws_busy (rc_workers s) = (\<lambda>i. None)"

lemma at_rest_ready: "at_rest s \<Longrightarrow> \<not> ready_for threads s p"
  by (cases p) (simp_all add: at_rest_def)

lemma start_store_items: "items (start_store meta extra) = []"
  by (simp add: start_store_def)

lemmas reconcile_defs = start_store_items one_way_def start_reconciler_def NewDeltaFIFO_def fifo_Replace_def fifo_Add_def queueActionLocked_def
  dedupDeltas_def fifo_Pop_def handle_stored_def listener_add_def listener_dispatch_def newProcessListener_def
  initialBufferSize_def new_ring_empty handle_notification_def notified_key_def store_Get_Add start_store_keys
  idle_workers_def new_queue_def wq_Add_def wq_Get_def wq_finish_def wq_Done_def wq_Forget_def

lemma listed_way:
  assumes "0 < threads" and "object_key meta x = k"
  shows "\<exists>t. exec_reconciles meta threads (one_way k [Relist [x]]) (start_reconciler meta extra) = Some t
    \<and> at_rest t"
  using assms by (simp add: reconcile_defs at_rest_def Let_def fun_upd_idem)

lemma overlooked_way:
  assumes "0 < threads" and "object_key meta x = k"
  shows "\<exists>t. exec_reconciles meta threads (one_way k [WatchAdded x, Relist []]) (start_reconciler meta extra) = Some t
    \<and> at_rest t \<and> rc_seen t k = Some x \<and> rc_reported t k = None \<and> stored_at t k = Some x"
  using assms by (simp add: reconcile_defs at_rest_def Let_def fun_upd_idem)

section \<open>What is promised\<close>

text \<open>A report that stays comes to the store, and a worker to read it there.\<close>

lemma reported_is_read:
  assumes fair: "fair_run (reconcile_step meta threads) does (start_reconciler meta extra) s e"
    and threads: "0 < threads" and quiet: "\<And>n. e n \<noteq> Queue ShutDown"
    and versions: "version_law meta (\<Union>n. event_objects (e n))"
    and covers: "\<And>n r. e n = Report r \<Longrightarrow> covered meta (s n) r k"
    and stays: "\<And>j. n \<le> j \<Longrightarrow> rc_reported (s j) k = v"
  shows "\<exists>m\<ge>n. \<forall>j\<ge>m. stored_at (s j) k = v \<and> rc_seen (s j) k = v"
proof -
  obtain m where m: "n \<le> m" "pend meta (s m) k = []" using deltas_are_applied [OF fair quiet] by blast
  have calm: "calm meta v (s j) k" if "m \<le> j" for j
    using that
  proof (induction j rule: dec_induct)
    case base
    then show ?case
      using run_key_invariants(3) [OF fair quiet versions covers, of m] stays [OF m(1)] m(2)
      by (simp add: calm_def settled_def)
  next
    case (step j)
    have "rc_reported (s (Suc j)) k = v" using stays [of "Suc j"] m(1) step(1) by simp
    then show ?case by (rule calm_step [OF run_step [OF fair] run_ok [OF fair] step(3)])
  qed
  obtain l where l: "m \<le> l" "rc_seen (s l) k = v"
  proof (cases "rc_seen (s m) k = v")
    case False
    then have "on_its_way meta (s m) k"
      using run_key_invariants(2) [OF fair quiet versions, of m k] calm [of m] by (auto simp: calm_def)
    then obtain j i where "m \<le> j" "e j = Reads i k"
      using on_its_way_is_read [OF fair quiet threads] by blast
    then have "rc_seen (s (Suc j)) k = v"
      using seen_step [OF run_step [OF fair], of j k] calm [of j] by (auto simp: calm_def)
    then show ?thesis using that [of "Suc j"] \<open>m \<le> j\<close> by simp
  qed (use that in blast)
  have "rc_seen (s j) k = v" if "l \<le> j" for j
    using that
  proof (induction j rule: dec_induct)
    case (step j)
    then show ?case using seen_step [OF run_step [OF fair], of j k] calm [of j] l(1) by (auto simp: calm_def)
  qed (rule l(2))
  then have "stored_at (s j) k = v \<and> rc_seen (s j) k = v" if "l \<le> j" for j
    using calm [of j] l(1) that by (auto simp: calm_def)
  then show ?thesis using m(1) l(1) by (meson le_trans)
qed

text \<open>C5: level-triggered reconciliation converges. Take any fair run, from the watch of the API
  server to the workers of a controller, in which the controller is not shut down, equal
  versions of a resource mean equal resources, and no new list overlooks the key (it does so
  only if the key was reported, is not in the store yet and is missing in the list). If from
  some point on the server's report of a key stays the same, be it a resource or its absence,
  then from some point on this is what the handlers of the key have been run on.\<close>

theorem last_report_is_seen:
  assumes fair: "fair_run (reconcile_step meta threads) does (start_reconciler meta extra) s e"
    and threads: "0 < threads" and quiet: "\<And>n. e n \<noteq> Queue ShutDown"
    and versions: "version_law meta (\<Union>n. event_objects (e n))"
    and covers: "\<And>n r. e n = Report r \<Longrightarrow> covered meta (s n) r k"
    and stays: "\<And>j. n \<le> j \<Longrightarrow> rc_reported (s j) k = v"
  shows "\<exists>m\<ge>n. \<forall>j\<ge>m. rc_seen (s j) k = v"
  using reported_is_read [OF fair threads quiet versions covers stays] by blast

text \<open>A device that is listed once, after which nothing happens any more.\<close>

lemma reported_step:
  "reconcile_step meta threads s e s' \<Longrightarrow> (\<And>r. e \<noteq> Report r) \<Longrightarrow> rc_reported s' = rc_reported s"
  by (cases rule: reconcile_stepE) auto

lemma report_step:
  "reconcile_step meta threads s (Report r) s' \<Longrightarrow>
   rc_reported s' = reported_map meta r (rc_reported s) \<and> rc_store s' = rc_store s"
  by (cases rule: reconcile_stepE) auto

lemma one_way_event:
  assumes "then_quiet (one_way k rs) n = ev"
  shows "ev \<noteq> Queue ShutDown" and "ev = Report r \<Longrightarrow> n < length rs \<and> r = rs ! n"
proof -
  have "ev \<in> set (one_way k rs) \<union> {Quiet}"
    using assms nth_mem [of n "one_way k rs"] by (auto simp: then_quiet_def split: if_splits)
  then show "ev \<noteq> Queue ShutDown" by (auto simp: one_way_def)
  show "n < length rs \<and> r = rs ! n" if "ev = Report r"
  proof (cases "n < length rs")
    case False
    then have "ev \<in> set (drop (length rs) (one_way k rs)) \<union> {Quiet}"
      using assms nth_mem [of "n - length rs" "drop (length rs) (one_way k rs)"]
      by (auto simp: then_quiet_def split: if_splits)
    then show ?thesis using that by (simp add: one_way_def)
  qed (use assms that in \<open>auto simp: then_quiet_def one_way_def nth_append split: if_splits\<close>)
qed

lemma one_way_reported:
  assumes run: "reconcile_run meta threads extra s (then_quiet (one_way k rs))" and "length rs \<le> n"
  shows "rc_reported (s n) = rc_reported (s (length rs))"
  using assms(2)
proof (induction n rule: dec_induct)
  case (step n)
  then show ?case
    using reported_step [OF run_of_step [OF run], of n] one_way_event(2) [OF refl, of k rs n] by force
qed simp

lemma listed_run:
  assumes "0 < threads" and "object_key meta x = k"
  obtains s where "fair_reconcile meta threads extra s (then_quiet (one_way k [Relist [x]]))"
    "\<And>n. 1 \<le> n \<Longrightarrow> rc_reported (s n) k = Some x"
proof -
  obtain t where t: "exec_reconciles meta threads (one_way k [Relist [x]]) (start_reconciler meta extra) = Some t" "at_rest t"
    using listed_way [OF assms, of extra] by blast
  obtain s where s: "fair_reconcile meta threads extra s (then_quiet (one_way k [Relist [x]]))"
    "\<And>n. exec_reconciles meta threads (take n (one_way k [Relist [x]])) (start_reconciler meta extra) = Some (s n)"
    using run_then_quiet [OF t(1) at_rest_ready [OF t(2)]] by blast
  have e0: "then_quiet (one_way k [Relist [x]]) 0 = Report (Relist [x])" by (simp add: then_quiet_def one_way_def)
  have "reconcile_step meta threads (s 0) (Report (Relist [x])) (s 1)"
    using run_step [OF s(1), of 0] unfolding e0 One_nat_def .
  from report_step [OF this] have "rc_reported (s 1) k = Some x" by (simp add: assms(2))
  then have "rc_reported (s n) k = Some x" if "1 \<le> n" for n
    using one_way_reported [OF fair_is_run [OF s(1)], of n] that by (metis One_nat_def length_Cons list.size(3))
  then show ?thesis using that s(1) by blast
qed

lemma listed_once:
  assumes "object_key meta x = k"
  shows "version_law meta (\<Union>n. event_objects (then_quiet (one_way k [Relist [x]]) n))"
    and "then_quiet (one_way k [Relist [x]]) n = Report r \<Longrightarrow> covered meta st r k"
proof -
  have only: "then_quiet (one_way k [Relist [x]]) n = Report r \<Longrightarrow> r = Relist [x]" for n r
    using one_way_event(2) [OF refl, of k "[Relist [x]]" n r] by auto
  have "event_objects (then_quiet (one_way k [Relist [x]]) n) \<subseteq> {x}" for n
    using only [of n] by (cases "then_quiet (one_way k [Relist [x]]) n") auto
  then show "version_law meta (\<Union>n. event_objects (then_quiet (one_way k [Relist [x]]) n))"
    by (auto simp: version_law_def)
  show "then_quiet (one_way k [Relist [x]]) n = Report r \<Longrightarrow> covered meta st r k"
    using only [of n r] assms by (simp add: covered_def)
qed

theorem last_report_is_seen_witness:
  "\<exists>s e m. fair_run (reconcile_step bd_ObjectMeta 2) does (start_reconciler bd_ObjectMeta []) s e
    \<and> (\<forall>j\<ge>m. rc_seen (s j) (MetaNamespaceKeyFunc demo_device) = Some demo_device)"
proof -
  let ?k = "MetaNamespaceKeyFunc demo_device"
  let ?e = "then_quiet (one_way ?k [Relist [demo_device]])"
  have k: "object_key bd_ObjectMeta demo_device = ?k" by (simp add: MetaNamespaceKeyFunc_kind)
  obtain s where s: "fair_reconcile bd_ObjectMeta 2 [] s ?e" "\<And>n. 1 \<le> n \<Longrightarrow> rc_reported (s n) ?k = Some demo_device"
    by (rule listed_run [of 2 bd_ObjectMeta demo_device ?k "[]"]) (simp_all add: k)
  note once = listed_once [OF k]
  have "\<exists>m\<ge>1. \<forall>j\<ge>m. rc_seen (s j) ?k = Some demo_device"
    by (rule last_report_is_seen [where meta = bd_ObjectMeta and threads = 2 and extra = "[]" and e = ?e,
          OF s(1) _ one_way_event(1) [OF refl] once s(2)]) simp_all
  then show ?thesis using s(1) by blast
qed

text \<open>C8: no change is missed. In every run in which the controller is not shut down and equal
  versions of a resource mean equal resources, at every moment and for every key, either the
  store has what a worker last read under the key, or the change is on its way to the workers:
  as a notification, in the work queue, or with a worker that has not read the store yet. And
  provided that no new list of the run overlooks the key (it does so if the key was reported,
  is not in the store yet and is missing in the list, and then the rest is false), the store is
  what the server reported last, or the deltas that make it so are still pending.\<close>

theorem no_change_is_missed:
  assumes run: "run_of (reconcile_step meta threads) (start_reconciler meta extra) s e"
    and quiet: "\<And>n. e n \<noteq> Queue ShutDown"
    and versions: "version_law meta (\<Union>n. event_objects (e n))"
  shows "(store_Get (rc_store (s n)) k = rc_seen (s n) k \<or> on_its_way meta (s n) k)
    \<and> ((\<forall>m r. e m = Report r \<longrightarrow> covered meta (s m) r k) \<longrightarrow>
        rc_reported (s n) k =
          (if pend meta (s n) k = [] then store_Get (rc_store (s n)) k else delta_effect (last (pend meta (s n) k))))"
  using reconcile_run_invariants(2,3) [OF run quiet versions, where k = k] by (simp add: settled_def)

theorem no_change_is_missed_witness:
  "\<exists>(s :: nat \<Rightarrow> BlockDevice reconciler) e n. run_of (reconcile_step bd_ObjectMeta 2) (start_reconciler bd_ObjectMeta []) s e
    \<and> store_Get (rc_store (s n)) (MetaNamespaceKeyFunc demo_device) = None
    \<and> pend bd_ObjectMeta (s n) (MetaNamespaceKeyFunc demo_device) \<noteq> []
    \<and> (rc_seen (s n) (MetaNamespaceKeyFunc demo_device) = None
        \<or> on_its_way bd_ObjectMeta (s n) (MetaNamespaceKeyFunc demo_device))"
proof -
  let ?k = "MetaNamespaceKeyFunc demo_device"
  let ?e = "then_quiet (one_way ?k [Relist [demo_device]])"
  have k: "object_key bd_ObjectMeta demo_device = ?k" by (simp add: MetaNamespaceKeyFunc_kind)
  obtain s where s: "fair_reconcile bd_ObjectMeta 2 [] s ?e" "\<And>n. 1 \<le> n \<Longrightarrow> rc_reported (s n) ?k = Some demo_device"
    by (rule listed_run [of 2 bd_ObjectMeta demo_device ?k "[]"]) (simp_all add: k)
  note once = listed_once [OF k]
  note run = fair_is_run [OF s(1)]
  have s0: "s 0 = start_reconciler bd_ObjectMeta []" using run by (simp add: run_of_def)
  have e0: "?e 0 = Report (Relist [demo_device])" by (simp add: then_quiet_def one_way_def)
  have "reconcile_step bd_ObjectMeta 2 (s 0) (Report (Relist [demo_device])) (s 1)"
    using run_of_step [OF run, of 0] unfolding e0 One_nat_def .
  from report_step [OF this] have store: "stored_at (s 1) ?k = None"
    by (simp add: s0 start_reconciler_def start_store_keys)
  have now: "(stored_at (s 1) ?k = rc_seen (s 1) ?k \<or> on_its_way bd_ObjectMeta (s 1) ?k)
      \<and> rc_reported (s 1) ?k = (if pend bd_ObjectMeta (s 1) ?k = [] then stored_at (s 1) ?k
          else delta_effect (last (pend bd_ObjectMeta (s 1) ?k)))"
    using no_change_is_missed [where meta = bd_ObjectMeta and threads = 2 and extra = "[]" and e = ?e,
        OF run one_way_event(1) [OF refl] once(1), of 1 ?k] once(2) by blast
  have "pend bd_ObjectMeta (s 1) ?k \<noteq> []" using now store s(2) [of 1] by auto
  moreover have "rc_seen (s 1) ?k = None \<or> on_its_way bd_ObjectMeta (s 1) ?k" using now store by auto
  ultimately show ?thesis using run store by blast
qed

text \<open>C11: a deletion can be overlooked. For every resource there is a fair run in which the server
  reports it, then reports a list without it before the informer has handled the first report,
  and after which the server reports nothing any more and everything comes to rest, but in
  which the store keeps the resource and its handlers have been run on it as if it still
  existed: the new list queues deletions only for the keys of the store, not for those that are
  still queued.\<close>

theorem overlooked_deletion:
  assumes "0 < threads" and "k = object_key meta x"
  shows "\<exists>s e m. fair_run (reconcile_step meta threads) does (start_reconciler meta extra) s e
    \<and> e 1 = Report (Relist [])
    \<and> (\<forall>j\<ge>m. at_rest (s j) \<and> e j = Quiet \<and> rc_reported (s j) k = None
        \<and> store_Get (rc_store (s j)) k = Some x \<and> rc_seen (s j) k = Some x)"
proof -
  let ?es = "one_way k [WatchAdded x, Relist []]"
  obtain t where t: "exec_reconciles meta threads ?es (start_reconciler meta extra) = Some t"
    "at_rest t" "rc_seen t k = Some x" "rc_reported t k = None" "stored_at t k = Some x"
    using overlooked_way [OF assms(1) assms(2) [symmetric], of extra] by blast
  obtain s where s: "fair_reconcile meta threads extra s (then_quiet ?es)"
    "\<And>n. exec_reconciles meta threads (take n ?es) (start_reconciler meta extra) = Some (s n)"
    using run_then_quiet [OF t(1) at_rest_ready [OF t(2)]] by blast
  have "s j = t \<and> then_quiet ?es j = Quiet" if "length ?es \<le> j" for j
    using s(2) [of j] t(1) that by (simp add: then_quiet_def)
  moreover have "then_quiet ?es 1 = Report (Relist [])" by (simp add: then_quiet_def one_way_def)
  ultimately show ?thesis using s(1) t(2-) by blast
qed

theorem overlooked_deletion_witness:
  "\<exists>s e m. fair_run (reconcile_step bd_ObjectMeta 2) does (start_reconciler bd_ObjectMeta []) s e
    \<and> e 1 = Report (Relist [])
    \<and> (\<forall>j\<ge>m. at_rest (s j) \<and> e j = Quiet \<and> rc_reported (s j) (MetaNamespaceKeyFunc demo_device) = None
        \<and> store_Get (rc_store (s j)) (MetaNamespaceKeyFunc demo_device) = Some demo_device
        \<and> rc_seen (s j) (MetaNamespaceKeyFunc demo_device) = Some demo_device)"
  by (rule overlooked_deletion) (simp_all add: MetaNamespaceKeyFunc_kind)

end
