(* ===== verification/Cluster.thy ===== *)
theory Cluster
  imports Handler_Runs Reconcile_Runs
begin

text \<open>
  The loop closed: the API server, its watch, the informer and the work queue of the block
  devices, and workers that run the two handlers on what they have read, whose updates change
  what the server stores and so come back through the watch. A run of the handlers is one step,
  at its end; what other clients do to the server happens before or after it.
\<close>

section \<open>Steps\<close>

text \<open>What a list of reports makes of the resources, by key, and that this is what a server stores.\<close>

definition reports_map :: "BlockDevice report list \<Rightarrow> (string \<rightharpoonup> BlockDevice)" where
  "reports_map rs = fold (reported_map bd_ObjectMeta) rs Map.empty"

definition same_objects :: "(string \<rightharpoonup> BlockDevice) \<Rightarrow> objects \<Rightarrow> bool" where
  "same_objects m objs \<longleftrightarrow>
     (\<forall>k x. m k = Some x \<longrightarrow> k = MetaNamespaceKeyFunc x \<and> objs (bd_Namespace x) (bd_Name x) = Some x)
     \<and> (\<forall>ns n x. objs ns n = Some x \<longrightarrow> m (MetaNamespaceKeyFunc x) = Some x)"

fun change_report :: "BlockDevice report \<Rightarrow> bool" where
  "change_report (Relist xs) = False"
| "change_report Resync = False"
| "change_report r = True"

text \<open>
  \<open>cl_log\<close> is the history of the server since it was first listed, which comes first in it, and
  \<open>cl_heard\<close> is how much of it the watch has told; a new list catches up at once. \<open>cl_held\<close> is what
  a worker has read. The server's changes are those of the handlers and those of everybody else.
\<close>

record 'w cluster =
  cl_informer :: "BlockDevice reconciler"
  cl_world :: "'w world"
  cl_log :: "BlockDevice report list"
  cl_heard :: nat
  cl_held :: "nat \<Rightarrow> BlockDevice option"

definition changes_to :: "'w cluster \<Rightarrow> BlockDevice report list \<Rightarrow> objects \<Rightarrow> bool" where
  "changes_to s new objs \<longleftrightarrow> list_all change_report new \<and> same_objects (reports_map (cl_log s @ new)) objs"

definition held_object :: "BlockDevice option \<Rightarrow> BlockDevice runtime_object" where
  "held_object v = (case v of None \<Rightarrow> NilObject | Some x \<Rightarrow> Object (Some x))"

fun within_informer :: "BlockDevice reconcile_event \<Rightarrow> bool" where
  "within_informer (Report r) \<longleftrightarrow> r = Resync"
| "within_informer (Reads i k) \<longleftrightarrow> False"
| "within_informer (Queue (Finished i k failed)) \<longleftrightarrow> False"
| "within_informer e \<longleftrightarrow> True"

inductive cluster_step ::
    "'w env \<Rightarrow> ('w \<Rightarrow> objects) \<Rightarrow> Controller \<Rightarrow> string \<Rightarrow> nat \<Rightarrow> 'w cluster \<Rightarrow> BlockDevice reconcile_event \<Rightarrow>
     'w cluster \<Rightarrow> bool"
  for env objs c name threads where
  hears: "cl_heard s < length (cl_log s) \<Longrightarrow>
    reconcile_step bd_ObjectMeta threads (cl_informer s) (Report (cl_log s ! cl_heard s)) t \<Longrightarrow>
    cluster_step env objs c name threads s (Report (cl_log s ! cl_heard s))
      (s\<lparr>cl_informer := t, cl_heard := Suc (cl_heard s)\<rparr>)"
| relists: "reconcile_step bd_ObjectMeta threads (cl_informer s) (Report (Relist xs)) t \<Longrightarrow>
    same_objects (rc_reported t) (objs (ext (cl_world s))) \<Longrightarrow>
    cluster_step env objs c name threads s (Report (Relist xs))
      (s\<lparr>cl_informer := t, cl_heard := length (cl_log s)\<rparr>)"
| informs: "reconcile_step bd_ObjectMeta threads (cl_informer s) e t \<Longrightarrow> within_informer e \<Longrightarrow>
    cluster_step env objs c name threads s e (s\<lparr>cl_informer := t\<rparr>)"
| reads: "reconcile_step bd_ObjectMeta threads (cl_informer s) (Reads i k) t \<Longrightarrow>
    cluster_step env objs c name threads s (Reads i k)
      (s\<lparr>cl_informer := t, cl_held := (cl_held s)(i := stored_at (cl_informer s) k)\<rparr>)"
| finishes: "SharedHandler_OnChange (block_device_kind env) (block_device_handlers env c name) k
      (held_object (cl_held s i)) (cl_world s) = Ret (err, w') \<Longrightarrow>
    reconcile_step bd_ObjectMeta threads (cl_informer s) (Queue (Finished i k (err \<noteq> None))) t \<Longrightarrow>
    changes_to s new (objs (ext w')) \<Longrightarrow>
    cluster_step env objs c name threads s (Queue (Finished i k (err \<noteq> None)))
      (s\<lparr>cl_informer := t, cl_world := w', cl_log := cl_log s @ new\<rparr>)"
| elsewhere: "changes_to s new (objs x) \<Longrightarrow>
    cluster_step env objs c name threads s Quiet
      (s\<lparr>cl_world := (cl_world s)\<lparr>ext := x\<rparr>, cl_log := cl_log s @ new\<rparr>)"

inductive_cases cluster_stepE [consumes 1, case_names hears relists informs reads finishes elsewhere]:
  "cluster_step env objs c name threads s e s'"

text \<open>At the start the informer is empty and the server is about to be listed.\<close>

definition cluster_start ::
    "(string \<times> (BlockDevice \<Rightarrow> string list)) list \<Rightarrow> ('w \<Rightarrow> objects) \<Rightarrow> 'w cluster \<Rightarrow> bool" where
  "cluster_start extra objs s \<longleftrightarrow>
     cl_informer s = start_reconciler bd_ObjectMeta extra \<and> cl_heard s = 0
     \<and> (\<exists>xs. cl_log s = [Relist xs]) \<and> same_objects (reports_map (cl_log s)) (objs (ext (cl_world s)))"

text \<open>Fairness: of the goroutines, as before, and of the watch, which gets on until it has told everything.\<close>

definition fair_cluster ::
    "'w env \<Rightarrow> ('w \<Rightarrow> objects) \<Rightarrow> Controller \<Rightarrow> string \<Rightarrow> nat \<Rightarrow> (string \<times> (BlockDevice \<Rightarrow> string list)) list \<Rightarrow>
     (nat \<Rightarrow> 'w cluster) \<Rightarrow> (nat \<Rightarrow> BlockDevice reconcile_event) \<Rightarrow> bool" where
  "fair_cluster env objs c name threads extra s e \<longleftrightarrow>
     cluster_start extra objs (s 0) \<and> run_of (cluster_step env objs c name threads) (s 0) s e
     \<and> fair_reconcile bd_ObjectMeta threads extra (\<lambda>n. cl_informer (s n)) e
     \<and> (\<forall>n. \<exists>m\<ge>n. cl_heard (s m) = length (cl_log (s m)) \<or> cl_heard (s m) < cl_heard (s (Suc m)))"

section \<open>What the watch has told\<close>

lemma same_objects_unique:
  assumes "same_objects m objs" and "same_objects m' objs"
  shows "m = m'"
proof
  fix k
  show "m k = m' k"
    using assms unfolding same_objects_def by (cases "m k"; cases "m' k") (metis, metis, metis, metis)
qed

lemma reports_map_snoc: "reports_map (rs @ [r]) = reported_map bd_ObjectMeta r (reports_map rs)"
  by (simp add: reports_map_def)

definition cluster_ok :: "('w \<Rightarrow> objects) \<Rightarrow> 'w cluster \<Rightarrow> bool" where
  "cluster_ok objs s \<longleftrightarrow>
     cl_heard s \<le> length (cl_log s) \<and> rc_reported (cl_informer s) = reports_map (take (cl_heard s) (cl_log s))
     \<and> same_objects (reports_map (cl_log s)) (objs (ext (cl_world s)))"

lemma cluster_step_ok:
  assumes "cluster_step env objs c name threads s e s'" and "cluster_ok objs s"
  shows "cluster_ok objs s'"
  using assms(1)
proof (cases rule: cluster_stepE)
  case (hears t)
  then show ?thesis
    using assms(2) report_step [OF hears(4)]
    by (simp add: cluster_ok_def take_Suc_conv_app_nth reports_map_snoc)
next
  case (relists xs t)
  then show ?thesis
    using assms(2) same_objects_unique [of "rc_reported t" _ "reports_map (cl_log s)"] by (auto simp: cluster_ok_def)
next
  case (informs t)
  have "rc_reported t = rc_reported (cl_informer s)"
  proof (cases "\<exists>r. e = Report r")
    case True
    then show ?thesis using informs(2,3) by (auto dest: report_step)
  qed (use reported_step [OF informs(2)] in blast)
  then show ?thesis using informs(1) assms(2) by (simp add: cluster_ok_def)
next
  case (reads i k t)
  then show ?thesis using assms(2) reported_step [OF reads(3)] by (simp add: cluster_ok_def)
next
  case (finishes k i err w' t new)
  then show ?thesis using assms(2) reported_step [OF finishes(4)] by (simp add: cluster_ok_def changes_to_def)
next
  case (elsewhere new x)
  then show ?thesis using assms(2) by (simp add: cluster_ok_def changes_to_def)
qed

lemma cluster_step_log:
  assumes "cluster_step env objs c name threads s e s'" and "cl_heard s \<le> length (cl_log s)"
  shows "\<exists>new. cl_log s' = cl_log s @ new" and "cl_heard s \<le> cl_heard s'"
  using assms by (auto elim!: cluster_stepE)

lemma fair_cluster_ok:
  assumes "fair_cluster env objs c name threads extra s e"
  shows "cluster_ok objs (s n)"
proof (rule run_invariant [where I = "cluster_ok objs"])
  show "run_of (cluster_step env objs c name threads) (s 0) s e" using assms by (simp add: fair_cluster_def)
  show "cluster_ok objs (s 0)"
    using assms by (simp add: fair_cluster_def cluster_start_def cluster_ok_def start_reconciler_def reports_map_def)
qed (rule cluster_step_ok)

lemma fair_cluster_step: "fair_cluster env objs c name threads extra s e \<Longrightarrow> cluster_step env objs c name threads (s n) (e n) (s (Suc n))"
  by (simp add: fair_cluster_def run_of_def)

lemma fair_cluster_log:
  assumes "fair_cluster env objs c name threads extra s e" and "n \<le> m"
  shows "\<exists>new. cl_log (s m) = cl_log (s n) @ new" and "cl_heard (s n) \<le> cl_heard (s m)"
proof -
  have "(\<exists>new. cl_log (s m) = cl_log (s n) @ new) \<and> cl_heard (s n) \<le> cl_heard (s m)"
    using assms(2)
  proof (induction m rule: dec_induct)
    case (step m)
    have "cl_heard (s m) \<le> length (cl_log (s m))"
      using fair_cluster_ok [OF assms(1), of m] by (simp add: cluster_ok_def)
    from cluster_step_log [OF fair_cluster_step [OF assms(1), of m] this] step.IH show ?case by force
  qed simp
  then show "\<exists>new. cl_log (s m) = cl_log (s n) @ new" "cl_heard (s n) \<le> cl_heard (s m)" by auto
qed

lemma everything_is_heard:
  assumes fair: "fair_cluster env objs c name threads extra s e" and "q \<le> length (cl_log (s n))"
  shows "\<exists>m\<ge>n. q \<le> cl_heard (s m)"
  using assms(2)
proof (induction q)
  case (Suc q)
  then obtain m where m: "n \<le> m" "q \<le> cl_heard (s m)" by auto
  obtain j where j: "m \<le> j" "cl_heard (s j) = length (cl_log (s j)) \<or> cl_heard (s j) < cl_heard (s (Suc j))"
    using fair unfolding fair_cluster_def by blast
  have "n \<le> j" using m(1) j(1) by simp
  from fair_cluster_log(1) [OF fair this] have more: "length (cl_log (s n)) \<le> length (cl_log (s j))" by auto
  have heard: "q \<le> cl_heard (s j)" using fair_cluster_log(2) [OF fair j(1)] m(2) by simp
  show ?case
  proof (cases "cl_heard (s j) < cl_heard (s (Suc j))")
    case True
    then show ?thesis using heard m(1) j(1) by (intro exI [of _ "Suc j"]) simp
  next
    case False
    then show ?thesis using more Suc.prems m(1) j by (intro exI [of _ j]) auto
  qed
qed auto


section \<open>The last state of a resource\<close>

text \<open>
  The resource has the state \<open>x\<close> from a position of the server's history on, and never had it
  before: the server gives every state a version of its own.
\<close>

definition settles_at :: "(nat \<Rightarrow> 'w cluster) \<Rightarrow> BlockDevice \<Rightarrow> nat \<Rightarrow> bool" where
  "settles_at s x q \<longleftrightarrow>
     (\<exists>j. q \<le> length (cl_log (s j)))
     \<and> (\<forall>j p. p \<le> length (cl_log (s j)) \<longrightarrow>
          (reports_map (take p (cl_log (s j))) (MetaNamespaceKeyFunc x) = Some x \<longleftrightarrow> q \<le> p))"

lemma settled_server:
  assumes "fair_cluster env objs c name threads extra s e" and "settles_at s x q" and "q \<le> length (cl_log (s j))"
  shows "objs (ext (cl_world (s j))) (bd_Namespace x) (bd_Name x) = Some x"
proof -
  have "reports_map (take (length (cl_log (s j))) (cl_log (s j))) (MetaNamespaceKeyFunc x) = Some x"
    using assms(2,3) unfolding settles_at_def by blast
  then show ?thesis using fair_cluster_ok [OF assms(1), of j] by (simp add: cluster_ok_def same_objects_def)
qed

lemma settled_report:
  assumes "fair_cluster env objs c name threads extra s e" and "settles_at s x q"
  shows "rc_reported (cl_informer (s j)) (MetaNamespaceKeyFunc x) = Some x \<longleftrightarrow> q \<le> cl_heard (s j)"
  using fair_cluster_ok [OF assms(1), of j] assms(2) by (auto simp: cluster_ok_def settles_at_def)

text \<open>What is in the store was reported before.\<close>

definition unknown :: "string \<Rightarrow> BlockDevice \<Rightarrow> BlockDevice reconciler \<Rightarrow> bool" where
  "unknown k x s \<longleftrightarrow> stored_at s k \<noteq> Some x \<and> (\<forall>d \<in> set (pend bd_ObjectMeta s k). delta_effect d \<noteq> Some x)"

lemma unknown_step:
  assumes "reconcile_step bd_ObjectMeta threads s e s'" and ok: "reconciler_ok bd_ObjectMeta threads s"
    and old: "unknown k x s" and new: "rc_reported s' k \<noteq> Some x"
  shows "unknown k x s'"
  using assms(1) ok
proof (cases rule: key_step [where k = k])
  case (report r d)
  have "store_keys bd_ObjectMeta (rc_store s)" using ok by (simp add: reconciler_ok_def)
  note facts = report_delta_facts(2,3) [OF report(3) this report(2)]
  have "delta_effect d \<noteq> Some x"
    using facts(1) facts(2) [of "rc_reported s"] old new report(4,8) by (cases "is_sync d") (auto simp: unknown_def)
  then show ?thesis
    using old dedupDeltas_facts(3) [of "pend bd_ObjectMeta s k" d] unfolding unknown_def report(6,7) by blast
qed (use old in \<open>auto simp: unknown_def\<close>)

lemma stored_was_reported:
  fixes x :: BlockDevice
  assumes fair: "fair_reconcile bd_ObjectMeta threads extra s e" and "stored_at (s n) k = Some x"
  shows "\<exists>j\<le>n. rc_reported (s j) k = Some x"
proof (rule ccontr)
  assume "\<not> ?thesis"
  then have no: "rc_reported (s j) k \<noteq> Some x" if "j \<le> n" for j using that by blast
  have "unknown k x (s j)" if "j \<le> n" for j
    using that
  proof (induction j)
    case 0
    then show ?case using fair by (simp add: fair_run_def run_of_def unknown_def start_pend)
  next
    case (Suc j)
    then show ?case using unknown_step [OF run_step [OF fair] run_ok [OF fair], of k x j] no [of "Suc j"] by simp
  qed
  then show False using assms(2) by (auto simp: unknown_def)
qed

section \<open>From reading to the end of a run of the handlers\<close>

lemma fair_cluster_informer:
  "fair_cluster env objs c name threads extra s e \<Longrightarrow> fair_reconcile bd_ObjectMeta threads extra (\<lambda>n. cl_informer (s n)) e"
  by (simp add: fair_cluster_def)

text \<open>A worker that has read keeps the key, and what it has read, until it finishes.\<close>

definition holds_key :: "nat \<Rightarrow> string \<Rightarrow> BlockDevice option \<Rightarrow> 'w cluster \<Rightarrow> bool" where
  "holds_key i k v s \<longleftrightarrow>
     ws_busy (rc_workers (cl_informer s)) i = Some k \<and> rc_read (cl_informer s) i \<and> cl_held s i = v"

lemma queue_held:
  assumes "queue_step ws ev ws'" and "ws_busy ws i = Some k" and "rd i" and "\<forall>failed. ev \<noteq> Finished i k failed"
  shows "ws_busy ws' i = Some k \<and> worker_read ev rd i"
  using assms by (induction rule: queue_step.induct) (auto split: if_splits)

lemma informer_held:
  assumes "reconcile_step meta threads st ev st'" and "ws_busy (rc_workers st) i = Some k" and "rc_read st i"
    and "\<And>failed. ev \<noteq> Queue (Finished i k failed)"
  shows "ws_busy (rc_workers st') i = Some k \<and> rc_read st' i"
  using assms(1)
proof (cases rule: reconcile_stepE)
  case (queue ev' ws)
  then show ?thesis using queue_held [of "rc_workers st" ev' ws i k "rc_read st"] assms(2-4) by auto
qed (use assms(2,3) in auto)

lemma cluster_informer_step:
  "cluster_step env objs c name threads s e s' \<Longrightarrow> reconcile_step bd_ObjectMeta threads (cl_informer s) e (cl_informer s')"
  by (cases rule: cluster_stepE) (auto intro: reconcile_step.quiet)

lemma holds_key_step:
  assumes step: "cluster_step env objs c name threads s e s'" and held: "holds_key i k v s"
    and "\<And>failed. e \<noteq> Queue (Finished i k failed)"
  shows "holds_key i k v s'"
proof -
  have "ws_busy (rc_workers (cl_informer s')) i = Some k \<and> rc_read (cl_informer s') i"
    using informer_held [OF cluster_informer_step [OF step]] held assms(3) by (auto simp: holds_key_def)
  moreover have "cl_held s' i = cl_held s i"
    using step
  proof (cases rule: cluster_stepE)
    case (reads j k' t)
    then show ?thesis using held by (auto simp: holds_key_def step_simps)
  qed auto
  ultimately show ?thesis using held by (simp add: holds_key_def)
qed

lemma read_is_finished:
  assumes fair: "fair_cluster env objs c name threads extra s e" and quiet: "\<And>n. e n \<noteq> Queue ShutDown"
    and "e n = Reads i k"
  shows "\<exists>m>n. \<exists>failed. e m = Queue (Finished i k failed) \<and> holds_key i k (stored_at (cl_informer (s n)) k) (s m)"
proof -
  let ?v = "stored_at (cl_informer (s n)) k"
  let ?ends = "\<lambda>ev. \<exists>failed. ev = Queue (Finished i k failed)"
  have start: "holds_key i k ?v (s (Suc n))"
    using fair_cluster_step [OF fair, of n] unfolding assms(3)
    by (auto simp: holds_key_def step_simps elim!: cluster_stepE)
  have "\<exists>m\<ge>Suc n. False \<or> ?ends (e m)"
  proof (rule respond_once [OF fair_cluster_informer [OF fair] quiet,
        where P = "\<lambda>st. ws_busy (rc_workers st) i = Some k \<and> rc_read st i" and p = "Finishing i"])
    fix st ev st'
    assume step: "reconcile_step bd_ObjectMeta threads st ev st'" and p: "ws_busy (rc_workers st) i = Some k \<and> rc_read st i"
    show "False \<or> ?ends ev \<or> (ws_busy (rc_workers st') i = Some k \<and> rc_read st' i) \<and> \<not> does (Finishing i) ev"
    proof (cases "?ends ev")
      case False
      moreover have "ev \<noteq> Queue (Finished i k' failed)" if "k' \<noteq> k" for k' failed
        using step p that by (auto simp: step_simps elim!: queue_step.cases)
      ultimately show ?thesis using informer_held [OF step] p by auto
    qed simp
  qed (use start in \<open>auto simp: holds_key_def\<close>)
  then obtain m where m: "Suc n \<le> m" "?ends (e m)" by blast
  define l where "l = (LEAST j. Suc n \<le> j \<and> ?ends (e j))"
  have l: "Suc n \<le> l" "?ends (e l)" using LeastI [of "\<lambda>j. Suc n \<le> j \<and> ?ends (e j)" m] m by (auto simp: l_def)
  have "holds_key i k ?v (s j)" if "Suc n \<le> j" "j \<le> l" for j
    using that
  proof (induction j rule: dec_induct)
    case base
    show ?case by (rule start)
  next
    case (step j)
    then have "\<not> ?ends (e j)" using not_less_Least [of j "\<lambda>j. Suc n \<le> j \<and> ?ends (e j)"] by (auto simp: l_def)
    then show ?case using holds_key_step [OF fair_cluster_step [OF fair]] step by auto
  qed
  then show ?thesis using l by (intro exI [of _ l]) auto
qed


section \<open>The runs on the last state\<close>

lemma run_on_last_state:
  assumes server: "api_server env objs" "updates_answer env objs"
    and fair: "fair_cluster env objs c name threads extra s e" and settles: "settles_at s x q"
    and "e m = Queue (Finished i k failed)" and held: "holds_key i k (Some x) (s m)" and q: "q \<le> length (cl_log (s m))"
  shows "failed \<or> truthful x"
proof -
  from fair_cluster_step [OF fair, of m] obtain err w' where
    run: "SharedHandler_OnChange (block_device_kind env) (block_device_handlers env c name) k (held_object (cl_held (s m) i))
      (cl_world (s m)) = Ret (err, w')" and after: "failed = (err \<noteq> None)" "cl_world (s (Suc m)) = w'"
    unfolding assms(5) by (auto elim!: cluster_stepE)
  have "q \<le> length (cl_log (s (Suc m)))" using fair_cluster_log(1) [OF fair, of m "Suc m"] q by auto
  note stored = settled_server [OF fair settles q] settled_server [OF fair settles this]
  show ?thesis
  proof (cases err)
    case None
    have "SharedHandler_OnChange (block_device_kind env) (block_device_handlers env c name) k (Object (Some x))
        (cl_world (s m)) = Ret (None, w')"
      using run None held by (simp add: holds_key_def held_object_def)
    from quiet_sync_truthful [OF server stored(1) _ this] stored(2) after(2) show ?thesis by simp
  qed (simp add: after(1))
qed

lemma last_state_finished:
  assumes fair: "fair_cluster env objs c name threads extra s e" and quiet: "\<And>n. e n \<noteq> Queue ShutDown"
    and settles: "settles_at s x q" and k: "k = MetaNamespaceKeyFunc x"
    and read: "e n = Reads i k" "stored_at (cl_informer (s n)) k = Some x"
  obtains m failed where "n < m" "e m = Queue (Finished i k failed)" "holds_key i k (Some x) (s m)"
    "q \<le> length (cl_log (s m))"
proof -
  obtain m failed where m: "n < m" "e m = Queue (Finished i k failed)" "holds_key i k (Some x) (s m)"
    using read_is_finished [OF fair quiet read(1)] read(2) by auto
  obtain j where j: "j \<le> n" "rc_reported (cl_informer (s j)) k = Some x"
    using stored_was_reported [OF fair_cluster_informer [OF fair] read(2)] by blast
  have "q \<le> cl_heard (s j)" using settled_report [OF fair settles] j(2) k by simp
  also have "\<dots> \<le> cl_heard (s m)" using fair_cluster_log(2) [OF fair, of j m] j(1) m(1) by simp
  also have "\<dots> \<le> length (cl_log (s m))" using fair_cluster_ok [OF fair, of m] by (simp add: cluster_ok_def)
  finally show ?thesis using that m by blast
qed

lemma last_state_read_finished:
  assumes server: "api_server env objs" "updates_answer env objs"
    and fair: "fair_cluster env objs c name threads extra s e" and quiet: "\<And>n. e n \<noteq> Queue ShutDown"
    and settles: "settles_at s x q" and k: "k = MetaNamespaceKeyFunc x"
    and read: "e n = Reads i k" "stored_at (cl_informer (s n)) k = Some x"
  shows "\<exists>m>n. \<exists>failed. e m = Queue (Finished i k failed) \<and> (failed \<or> truthful x)"
proof -
  obtain m failed where m: "n < m" "e m = Queue (Finished i k failed)" "holds_key i k (Some x) (s m)"
    "q \<le> length (cl_log (s m))"
    by (rule last_state_finished [OF fair quiet settles k read])
  with run_on_last_state [OF server fair settles m(2,3,4)] show ?thesis by blast
qed

lemma failed_is_owed:
  assumes "reconcile_step meta threads st (Queue (Finished i k True)) st'" and "running (rc_workers st)"
  shows "owed k (rc_workers st')"
  using assms by (auto simp: step_simps owed_def wq_finish_fields elim!: queue_step.cases)

lemma last_read:
  assumes "fair_reconcile meta threads extra s e" and "rc_seen (s n) k = Some x"
  shows "\<exists>j<n. \<exists>i. e j = Reads i k \<and> stored_at (s j) k = Some x \<and> (\<forall>l i. j < l \<and> l < n \<longrightarrow> e l \<noteq> Reads i k)"
  using assms(2)
proof (induction n)
  case 0
  then show ?case using assms(1) by (simp add: fair_run_def run_of_def start_reconciler_def)
next
  case (Suc n)
  show ?case
  proof (cases "\<exists>i. e n = Reads i k")
    case True
    then show ?thesis using Suc.prems seen_step [OF run_step [OF assms(1)], of n k] by (intro exI [of _ n]) auto
  next
    case False
    then have "rc_seen (s n) k = Some x" using Suc.prems seen_step [OF run_step [OF assms(1)], of n k] by simp
    then show ?thesis using Suc.IH False by (metis less_Suc_eq)
  qed
qed

lemma last_state_is_read:
  assumes fair: "fair_cluster env objs c name threads extra s e" and threads: "0 < threads"
    and quiet: "\<And>n. e n \<noteq> Queue ShutDown" and versions: "version_law bd_ObjectMeta (\<Union>n. event_objects (e n))"
    and covers: "\<And>n r. e n = Report r \<Longrightarrow> covered bd_ObjectMeta (cl_informer (s n)) r (MetaNamespaceKeyFunc x)"
    and settles: "settles_at s x q"
  shows "\<exists>m. \<forall>l\<ge>m. stored_at (cl_informer (s l)) (MetaNamespaceKeyFunc x) = Some x
    \<and> rc_seen (cl_informer (s l)) (MetaNamespaceKeyFunc x) = Some x"
proof -
  obtain j where "q \<le> length (cl_log (s j))" using settles by (auto simp: settles_at_def)
  then obtain h where h: "q \<le> cl_heard (s h)" using everything_is_heard [OF fair] by blast
  have "rc_reported (cl_informer (s l)) (MetaNamespaceKeyFunc x) = Some x" if "h \<le> l" for l
    using settled_report [OF fair settles, of l] fair_cluster_log(2) [OF fair that] h by simp
  then show ?thesis
    using reported_is_read [OF fair_cluster_informer [OF fair] threads quiet versions covers, of h "Some x"] by blast
qed

lemma untruthful_is_retried:
  assumes server: "api_server env objs" "updates_answer env objs"
    and fair: "fair_cluster env objs c name threads extra s e" and threads: "0 < threads"
    and quiet: "\<And>n. e n \<noteq> Queue ShutDown" and settles: "settles_at s x q" and bad: "\<not> truthful x"
    and stored: "\<And>l. m0 \<le> l \<Longrightarrow> stored_at (cl_informer (s l)) (MetaNamespaceKeyFunc x) = Some x"
    and seen: "rc_seen (cl_informer (s m0)) (MetaNamespaceKeyFunc x) = Some x"
  shows "\<exists>m\<ge>m0 + n. \<exists>i. e m = Queue (Finished i (MetaNamespaceKeyFunc x) True)"
proof -
  let ?k = "MetaNamespaceKeyFunc x"
  note informer = fair_cluster_informer [OF fair]
  have fails: "\<exists>m>l. e m = Queue (Finished i ?k True)"
    if read: "e l = Reads i ?k" "stored_at (cl_informer (s l)) ?k = Some x" for l i
  proof -
    obtain m failed where "l < m" "e m = Queue (Finished i ?k failed)" "failed \<or> truthful x"
      using last_state_read_finished [OF server fair quiet settles refl read] by auto
    with bad show ?thesis by (cases failed) auto
  qed
  have again: "\<exists>l\<ge>Suc m. \<exists>i. e l = Reads i ?k" if finished: "e m = Queue (Finished i ?k True)" for m i
  proof -
    have "owed ?k (rc_workers (cl_informer (s (Suc m))))"
      using failed_is_owed run_step [OF informer, of m] run_stays_running [OF informer quiet, of m] finished by metis
    then obtain l where l: "Suc m \<le> l" "unread (cl_informer (s l)) ?k"
      using owed_is_taken [OF informer quiet threads] by blast
    then obtain l' i where "l \<le> l'" "e l' = Reads i ?k" using unread_is_read [OF informer quiet, of l ?k] by blast
    then show ?thesis using l(1) by (intro exI [of _ l']) auto
  qed
  have next_one: "\<exists>m'>m. \<exists>i. e m' = Queue (Finished i ?k True)"
    if failed: "e m = Queue (Finished i ?k True)" and late: "\<And>l j. Suc m \<le> l \<Longrightarrow> e l = Reads j ?k \<Longrightarrow> m0 \<le> l" for m i
  proof -
    obtain l j where l: "Suc m \<le> l" "e l = Reads j ?k" using again [OF failed] by blast
    then obtain m' where "l < m'" "e m' = Queue (Finished j ?k True)" using fails [OF l(2) stored [OF late [OF l]]] by blast
    then show ?thesis using l(1) by (intro exI [of _ m']) auto
  qed
  show ?thesis
  proof (induction n)
    case 0
    obtain r i where r: "r < m0" "e r = Reads i ?k" "stored_at (cl_informer (s r)) ?k = Some x"
      "\<forall>l i. r < l \<and> l < m0 \<longrightarrow> e l \<noteq> Reads i ?k"
      using last_read [OF informer seen] by blast
    then obtain m where m: "r < m" "e m = Queue (Finished i ?k True)" using fails by blast
    show ?case
    proof (cases "m0 \<le> m")
      case False
      have late: "m0 \<le> l" if "Suc m \<le> l" "e l = Reads j ?k" for l j
        using r(4) m(1) that by (meson Suc_le_lessD less_trans not_le_imp_less)
      obtain l j where l: "Suc m \<le> l" "e l = Reads j ?k" using again [OF m(2)] by blast
      then obtain m' where "l < m'" "e m' = Queue (Finished j ?k True)"
        using fails [OF l(2) stored [OF late [OF l]]] by blast
      then show ?thesis using late [OF l] by (intro exI [of _ m']) auto
    qed (use m in auto)
  next
    case (Suc n)
    then obtain m i where m: "m0 + n \<le> m" "e m = Queue (Finished i ?k True)" by blast
    then obtain m' j where "m < m'" "e m' = Queue (Finished j ?k True)" using next_one [OF m(2)] by fastforce
    then show ?case using m(1) by (intro exI [of _ m']) auto
  qed
qed

text \<open>C4: what the user sees comes true. Take the API server, the watch, the informer, the queue and
  the workers of the block devices together, in a fair run in which the controller is not shut
  down, no new list overlooks the device, and the server never gives a version twice. If nobody
  changes the resource of a device any more, then its last state says truthfully whether the
  file system that was asked for is there: its condition Mounted is True exactly when the
  recorded file system is the requested one, and False with reason Error otherwise. Or else
  the handlers of the device fail again and again, for ever.\<close>

theorem device_status_comes_true:
  assumes server: "api_server env objs" "updates_answer env objs"
    and fair: "fair_cluster env objs c name threads extra s e"
    and threads: "0 < threads" and quiet: "\<And>n. e n \<noteq> Queue ShutDown"
    and versions: "version_law bd_ObjectMeta (\<Union>n. event_objects (e n))"
    and covers: "\<And>n r. e n = Report r \<Longrightarrow> covered bd_ObjectMeta (cl_informer (s n)) r (MetaNamespaceKeyFunc x)"
    and settles: "settles_at s x q"
  shows "(wants_mount x \<longrightarrow>
      GetStatus DeviceMounted x = (if snd (isValidFileSystem (fs_spec x) (fs_status x)) then ''True'' else ''False'')
      \<and> GetReason DeviceMounted x = (if snd (isValidFileSystem (fs_spec x) (fs_status x)) then [] else ''Error''))
    \<or> (\<forall>n. \<exists>m\<ge>n. \<exists>i. e m = Queue (Finished i (MetaNamespaceKeyFunc x) True))"
proof (cases "truthful x")
  case True
  then show ?thesis by (simp add: truthful_def shows_mounted_def fs_valid_def)
next
  case False
  obtain m0 where "\<forall>l\<ge>m0. stored_at (cl_informer (s l)) (MetaNamespaceKeyFunc x) = Some x
      \<and> rc_seen (cl_informer (s l)) (MetaNamespaceKeyFunc x) = Some x"
    using last_state_is_read [OF fair threads quiet versions covers settles] by blast
  then have "\<exists>m\<ge>m0 + n. \<exists>i. e m = Queue (Finished i (MetaNamespaceKeyFunc x) True)" for n
    using untruthful_is_retried [OF server fair threads quiet settles False] by blast
  then show ?thesis by (meson le_add2 le_trans)
qed

text \<open>A device that is in its end state when the server is listed.\<close>

definition end_device :: BlockDevice where
  "end_device = (let x = with_version ''11'' server_written in
     x\<lparr>bd_ObjectMeta := (bd_ObjectMeta x)\<lparr>om_Finalizers := [''wrangler.cattle.io/h'']\<rparr>\<rparr>)"

definition end_world :: "(bool \<times> BlockDevice list) world" where
  "end_world = \<lparr>ext = (True, [end_device]), calls = []\<rparr>"

definition end_cluster :: "(nat \<Rightarrow> BlockDevice reconciler) \<Rightarrow> nat \<Rightarrow> (bool \<times> BlockDevice list) cluster" where
  "end_cluster s n = \<lparr>cl_informer = s n, cl_world = end_world, cl_log = [Relist [end_device]],
     cl_heard = (if n = 0 then 0 else 1), cl_held = (\<lambda>i. if i = 0 \<and> 7 < n then Some end_device else None)\<rparr>"

lemma server_env_answers: "updates_answer server_env server_objects"
  unfolding updates_answer_def
proof (intro allI impI)
  fix bd w r e w'
  assume "e_Update server_env (bd_Namespace bd) bd w = ((r, e), w')"
  from server_env_Update [OF this]
  show "if e = None then stored (snd w') (bd_Namespace bd) (bd_Name bd) \<in> {None, Some r} else om_UID (bd_ObjectMeta r) = []"
    by (elim disjE exE conjE) (simp_all add: refused_def zero_block_device_def zero_meta_def split: if_splits)
qed

lemma end_device_facts:
  "MetaNamespaceKeyFunc end_device = ''ns/sda-n1''" "bd_Namespace end_device = ''ns''" "bd_Name end_device = ''sda-n1''"
  "version_of end_device \<noteq> []" "om_UID (bd_ObjectMeta end_device) \<noteq> []" "wants_mount end_device"
  "snd (isValidFileSystem (fs_spec end_device) (fs_status end_device))"
  by code_simp+

lemma end_device_sync:
  "SharedHandler_OnChange (block_device_kind server_env) (block_device_handlers server_env demo_controller ''h'') k
     (Object (Some end_device)) w = Ret (None, w)"
proof -
  note written = change_update [OF server_run_Ret server_run_calls]
  have valid: "fs_valid server_written"
    using end_device_facts(7) by (simp add: fs_valid_def end_device_def Let_def)
  have live: "om_DeletionTimestamp (bd_ObjectMeta end_device) = None"
    using end_device_facts(6) by (simp add: wants_mount_def)
  have "OnBlockDeviceChange server_env demo_controller k (Some end_device) w = Ret ((None, None), w)"
    using live by (intro written_settles [OF written(1,2) valid]) (simp_all add: end_device_def Let_def)
  from handlers_run [OF this] live show ?thesis
    by (simp add: block_device_remover_def NewRemoveHandler_def addFinalizer_def hasFinalizer_def
        constructFinalizerKey_def end_device_def Let_def)
qed

lemma end_objects: "same_objects (reports_map [Relist [end_device]]) (server_objects (ext end_world))"
  using end_device_facts
  by (auto simp: wants_mount_def same_objects_def reports_map_def end_world_def stored_def MetaNamespaceKeyFunc_kind [symmetric]
      split: if_splits)

lemma listed_way_store:
  assumes "0 < threads" and "object_key meta x = k"
  shows "\<exists>t. exec_reconciles meta threads (take 7 (one_way k [Relist [x]])) (start_reconciler meta extra) = Some t
    \<and> stored_at t k = Some x"
  using assms by (simp add: reconcile_defs one_way_def Let_def fun_upd_idem)

lemma end_run:
  fixes k :: string and es :: "BlockDevice reconcile_event list"
  defines "k \<equiv> ''ns/sda-n1''" and "es \<equiv> one_way k [Relist [end_device]]"
  obtains s where "fair_cluster server_env server_objects demo_controller ''h'' 2 [] (end_cluster s) (then_quiet es)"
proof -
  have key: "object_key bd_ObjectMeta end_device = k"
    by (simp add: k_def end_device_facts(1) flip: MetaNamespaceKeyFunc_kind)
  obtain t where t: "exec_reconciles bd_ObjectMeta 2 es (start_reconciler bd_ObjectMeta []) = Some t" "at_rest t"
    using listed_way [of 2 bd_ObjectMeta end_device k "[]"] key by (auto simp: es_def)
  obtain s where s: "fair_reconcile bd_ObjectMeta 2 [] s (then_quiet es)"
    "\<And>n. exec_reconciles bd_ObjectMeta 2 (take n es) (start_reconciler bd_ObjectMeta []) = Some (s n)"
    using run_then_quiet [OF t(1) at_rest_ready [OF t(2)]] by blast
  have start: "s 0 = start_reconciler bd_ObjectMeta []" using s(2) [of 0] by simp
  have store: "stored_at (s 7) k = Some end_device"
    using listed_way_store [of 2 bd_ObjectMeta end_device k "[]"] key s(2) [of 7] by (simp add: es_def)
  have "cluster_step server_env server_objects demo_controller ''h'' 2 (end_cluster s n) (then_quiet es n) (end_cluster s (Suc n))"
    for n
  proof -
    have step: "reconcile_step bd_ObjectMeta 2 (s n) (then_quiet es n) (s (Suc n))" using run_step [OF s(1)] .
    consider "n = 0" | "n = 7" | "n = 8" | "n \<in> {1, 2, 3, 4, 5, 6}" | "8 < n" by fastforce
    then show ?thesis
    proof cases
      case 1
      have e: "then_quiet es n = Report (Relist [end_device])" using 1 by (simp add: es_def then_quiet_def one_way_def)
      show ?thesis
        using cluster_step.hears [where s = "end_cluster s n" and t = "s (Suc n)"] step 1 e
        by (simp add: end_cluster_def)
    next
      case 2
      have e: "then_quiet es n = Reads 0 k" using 2 by (simp add: es_def then_quiet_def one_way_def)
      show ?thesis
        using cluster_step.reads [where s = "end_cluster s n" and t = "s (Suc n)" and i = 0 and k = k] step 2 e store
        by (simp add: end_cluster_def fun_upd_def cong: if_cong)
    next
      case 3
      have e: "then_quiet es n = Queue (Finished 0 k False)" using 3 by (simp add: es_def then_quiet_def one_way_def)
      show ?thesis
        using cluster_step.finishes [where s = "end_cluster s n" and t = "s (Suc n)" and i = 0 and k = k and err = None
            and w' = end_world and new = "[]"] step 3 e end_objects
        by (simp add: end_cluster_def held_object_def end_device_sync changes_to_def)
    next
      case 4
      then have "within_informer (then_quiet es n)" by (auto simp: es_def then_quiet_def one_way_def)
      then show ?thesis
        using cluster_step.informs [where s = "end_cluster s n" and t = "s (Suc n)"] step 4
        by (auto simp: end_cluster_def)
    next
      case 5
      then have "within_informer (then_quiet es n)" by (simp add: es_def then_quiet_def one_way_def)
      then show ?thesis
        using cluster_step.informs [where s = "end_cluster s n" and t = "s (Suc n)"] step 5
        by (simp add: end_cluster_def)
    qed
  qed
  moreover have "cluster_start [] server_objects (end_cluster s 0)"
    using end_objects by (simp add: cluster_start_def end_cluster_def start)
  moreover have "\<exists>m\<ge>n. cl_heard (end_cluster s m) = length (cl_log (end_cluster s m))" for n
    by (intro exI [of _ "Suc n"]) (simp add: end_cluster_def)
  moreover have "(\<lambda>n. cl_informer (end_cluster s n)) = s" by (simp add: end_cluster_def)
  ultimately show ?thesis using s(1) that [of s] by (auto simp: fair_cluster_def run_of_def)
qed

lemma end_settles: "settles_at (end_cluster s) end_device 1"
proof -
  have "reports_map (take p [Relist [end_device]]) (MetaNamespaceKeyFunc end_device) = Some end_device \<longleftrightarrow> 1 \<le> p" for p
    by (cases p) (simp_all add: reports_map_def MetaNamespaceKeyFunc_kind)
  then show ?thesis by (simp add: settles_at_def end_cluster_def)
qed

theorem device_status_comes_true_witness:
  "\<exists>s e. fair_cluster server_env server_objects demo_controller ''h'' 2 [] s e \<and> settles_at s end_device 1
    \<and> wants_mount end_device \<and> GetStatus DeviceMounted end_device = ''True''"
proof -
  let ?es = "one_way ''ns/sda-n1'' [Relist [end_device]]"
  have key: "object_key bd_ObjectMeta end_device = ''ns/sda-n1''"
    by (simp add: end_device_facts(1) flip: MetaNamespaceKeyFunc_kind)
  obtain s where s: "fair_cluster server_env server_objects demo_controller ''h'' 2 [] (end_cluster s) (then_quiet ?es)"
    using end_run by blast
  have "(wants_mount end_device \<longrightarrow>
      GetStatus DeviceMounted end_device =
        (if snd (isValidFileSystem (fs_spec end_device) (fs_status end_device)) then ''True'' else ''False'')
      \<and> GetReason DeviceMounted end_device =
        (if snd (isValidFileSystem (fs_spec end_device) (fs_status end_device)) then [] else ''Error''))
    \<or> (\<forall>n. \<exists>m\<ge>n. \<exists>i. then_quiet ?es m = Queue (Finished i (MetaNamespaceKeyFunc end_device) True))"
    by (rule device_status_comes_true [OF server_env_laws server_env_answers s _ one_way_event(1) [OF refl]
          listed_once(1) [OF key] _ end_settles])
      (use listed_once(2) [OF key] in \<open>auto simp: end_device_facts(1)\<close>)
  moreover have "then_quiet ?es m \<noteq> Queue (Finished i k True)" if "9 \<le> m" for m i k
    using that by (simp add: then_quiet_def one_way_def)
  ultimately have "GetStatus DeviceMounted end_device = ''True''" using end_device_facts(6,7) by (metis (full_types))
  then show ?thesis using s end_settles end_device_facts(6) by blast
qed

end
