(* ===== verification/Convergence.thy ===== *)
theory Convergence
  imports Cluster
begin

text \<open>
  The loop of theory \<open>Cluster\<close> comes to rest by itself: a device that is not mounted and can be, and
  whose resource nobody but its own handlers changes any more, gets mounted and guarded.
\<close>

section \<open>The history of one resource\<close>

text \<open>
  All states of the resource have its name, a version that no other state has, and none of them
  is being deleted.
\<close>

definition history_ok :: "(nat \<Rightarrow> 'w cluster) \<Rightarrow> BlockDevice \<Rightarrow> bool" where
  "history_ok s x \<longleftrightarrow>
     (\<forall>j p v. p \<le> length (cl_log (s j)) \<and> reports_map (take p (cl_log (s j))) (MetaNamespaceKeyFunc x) = Some v \<longrightarrow>
        bd_Namespace v = bd_Namespace x \<and> bd_Name v = bd_Name x \<and> version_of v \<noteq> []
        \<and> om_DeletionTimestamp (bd_ObjectMeta v) = None
        \<and> (\<forall>t r v'. p \<le> t \<and> t \<le> r \<and> r \<le> length (cl_log (s j))
             \<and> reports_map (take r (cl_log (s j))) (MetaNamespaceKeyFunc x) = Some v' \<and> version_of v' = version_of v \<longrightarrow>
             reports_map (take t (cl_log (s j))) (MetaNamespaceKeyFunc x) = Some v))"

text \<open>From a step on, only the runs of the resource's own handlers change it.\<close>

definition left_alone ::
    "('w \<Rightarrow> objects) \<Rightarrow> (nat \<Rightarrow> 'w cluster) \<Rightarrow> (nat \<Rightarrow> BlockDevice reconcile_event) \<Rightarrow> BlockDevice \<Rightarrow> nat \<Rightarrow> bool" where
  "left_alone objs s e x N \<longleftrightarrow>
     (\<forall>n\<ge>N. (\<forall>i failed. e n \<noteq> Queue (Finished i (MetaNamespaceKeyFunc x) failed)) \<longrightarrow>
        objs (ext (cl_world (s (Suc n)))) (bd_Namespace x) (bd_Name x) = objs (ext (cl_world (s n))) (bd_Namespace x) (bd_Name x))"

lemma history_between:
  assumes "history_ok s x" and "p \<le> t" "t \<le> r" "r \<le> length (cl_log (s j))"
    and "reports_map (take p (cl_log (s j))) (MetaNamespaceKeyFunc x) = Some v"
    and "reports_map (take r (cl_log (s j))) (MetaNamespaceKeyFunc x) = Some v"
  shows "reports_map (take t (cl_log (s j))) (MetaNamespaceKeyFunc x) = Some v"
proof -
  have "p \<le> length (cl_log (s j))" using assms(2-4) by simp
  then show ?thesis
    using assms(1) [unfolded history_ok_def, rule_format, of p j v, THEN conjunct2, THEN conjunct2, THEN conjunct2, THEN conjunct2,
      rule_format, of t r v] assms(2-6) by simp
qed

section \<open>The device of the resource\<close>

text \<open>
  What is assumed of the device is assumed of the worlds of the run alone. Where it is not mounted
  it can be mounted; and while the handlers of its own resource do not mount it, nobody does.
  Nothing is assumed of a second mount: the kernel may refuse it.
\<close>

definition mounts_if_absent ::
    "'w env \<Rightarrow> Controller \<Rightarrow> (nat \<Rightarrow> 'w cluster) \<Rightarrow> BlockDevice \<Rightarrow> nat \<Rightarrow> bool" where
  "mounts_if_absent env c s x N \<longleftrightarrow>
     (\<forall>n\<ge>N. unmounted env c x (cl_world (s n)) \<longrightarrow> mountable env c x (cl_world (s n)))"

definition mounted_by_own_runs ::
    "'w env \<Rightarrow> Controller \<Rightarrow> (nat \<Rightarrow> 'w cluster) \<Rightarrow> (nat \<Rightarrow> BlockDevice reconcile_event) \<Rightarrow> BlockDevice \<Rightarrow> nat \<Rightarrow> bool" where
  "mounted_by_own_runs env c s e x N \<longleftrightarrow>
     (\<forall>n\<ge>N. unmounted env c x (cl_world (s n))
        \<and> ((\<forall>i failed. e n \<noteq> Queue (Finished i (MetaNamespaceKeyFunc x) failed))
           \<or> (\<forall>dev mp ty fl opt. CallMount dev mp ty fl opt \<notin> set (new_calls (cl_world (s n)) (cl_world (s (Suc n))))))
        \<longrightarrow> unmounted env c x (cl_world (s (Suc n))))"

text \<open>
  The resource gets its state at that time, and the state asks for something new: none of the
  earlier states has the handlers mount anything. A run on an earlier state, whose update the
  server refuses, would else leave a mount behind that the resource does not show; and a mount
  that fails before that time is not tried again once its failure is recorded.
\<close>

definition first_request ::
    "('w \<Rightarrow> objects) \<Rightarrow> (nat \<Rightarrow> 'w cluster) \<Rightarrow> BlockDevice \<Rightarrow> nat \<Rightarrow> bool" where
  "first_request objs s x N \<longleftrightarrow>
     objs (ext (cl_world (s N))) (bd_Namespace x) (bd_Name x) = Some x
     \<and> (\<forall>n<N. objs (ext (cl_world (s n))) (bd_Namespace x) (bd_Name x) \<noteq> Some x)
     \<and> (\<forall>p v. p \<le> length (cl_log (s N)) \<and> reports_map (take p (cl_log (s N))) (MetaNamespaceKeyFunc x) = Some v \<longrightarrow>
        v = x \<or> \<not> wants_mount v \<or> fs_valid v)"

lemma history_server:
  assumes "fair_cluster env objs c name threads extra s e"
    and "objs (ext (cl_world (s n))) (bd_Namespace x) (bd_Name x) = Some v"
    and "bd_Namespace v = bd_Namespace x" "bd_Name v = bd_Name x"
  shows "reports_map (cl_log (s n)) (MetaNamespaceKeyFunc x) = Some v"
proof -
  have "MetaNamespaceKeyFunc v = MetaNamespaceKeyFunc x" using assms(3,4) by (simp add: MetaNamespaceKeyFunc_def)
  then show ?thesis
    using fair_cluster_ok [OF assms(1), of n] assms(2) unfolding cluster_ok_def same_objects_def by metis
qed

section \<open>What a worker has read\<close>

lemma queue_held_back:
  assumes "queue_step ws ev ws'" and "ws_busy ws' i = Some k" and "worker_read ev rd i"
  shows "ws_busy ws i = Some k \<and> rd i"
  using assms by (induction rule: queue_step.induct) (auto split: if_splits)

lemma informer_held_back:
  assumes "reconcile_step meta threads st ev st'" and "ws_busy (rc_workers st') i = Some k" and "rc_read st' i"
  shows "ev = Reads i k \<or> ws_busy (rc_workers st) i = Some k \<and> rc_read st i"
  using assms(1)
proof (cases rule: reconcile_stepE)
  case (queue ev' ws)
  then show ?thesis using queue_held_back [of "rc_workers st" ev' ws i k "rc_read st"] assms(2,3) by auto
qed (use assms(2,3) in \<open>auto split: if_splits\<close>)

lemma held_was_reported:
  assumes fair: "fair_cluster env objs c name threads extra s e"
    and "ws_busy (rc_workers (cl_informer (s n))) i = Some k" and "rc_read (cl_informer (s n)) i"
    and "cl_held (s n) i = Some v"
  shows "\<exists>j\<le>n. rc_reported (cl_informer (s j)) k = Some v"
  using assms(2-)
proof (induction n)
  case 0
  then show ?case using fair by (simp add: fair_cluster_def cluster_start_def start_reconciler_def idle_workers_def)
next
  case (Suc n)
  note step = fair_cluster_step [OF fair, of n]
  from informer_held_back [OF cluster_informer_step [OF step] Suc.prems(1,2)] show ?case
  proof
    assume read: "e n = Reads i k"
    then have "stored_at (cl_informer (s n)) k = Some v"
      using step Suc.prems(3) by (auto elim!: cluster_stepE)
    then show ?thesis
      using stored_was_reported [OF fair_cluster_informer [OF fair], of n k v] le_SucI by blast
  next
    assume before: "ws_busy (rc_workers (cl_informer (s n))) i = Some k \<and> rc_read (cl_informer (s n)) i"
    have "cl_held (s n) i = Some v"
      using step
    proof (cases rule: cluster_stepE)
      case (reads j k' t)
      then show ?thesis using before Suc.prems(3) by (auto simp: step_simps split: if_splits)
    qed (use Suc.prems(3) in auto)
    then show ?thesis using Suc.IH before le_SucI by blast
  qed
qed

section \<open>The resource moves on until it is as it should be\<close>

text \<open>
  Until a run of the handlers has made the resource as it should be, it is as it was and the
  device is not mounted, or its file system is recorded already.
\<close>

definition on_the_way :: "'w env \<Rightarrow> Controller \<Rightarrow> BlockDevice \<Rightarrow> 'w world \<Rightarrow> BlockDevice \<Rightarrow> bool" where
  "on_the_way env c x w y \<longleftrightarrow>
     bd_Spec y = bd_Spec x \<and> wants_mount y \<and> valid_device y
     \<and> (good y \<or> y = x \<and> (fs_valid x \<or> unmounted env c x w))"

lemma on_the_way_can:
  assumes "on_the_way env c x (cl_world (s n)) y" and "mounts_if_absent env c s x N" and "N \<le> n"
  shows "fs_valid y \<or> mountable env c y (cl_world (s n))"
  using assms by (auto simp: on_the_way_def mounts_if_absent_def good_def)

text \<open>As long as the server has the same state as at some time, what a worker may have read is that state or older.\<close>

lemma read_before:
  assumes fair: "fair_cluster env objs c name threads extra s e" and history: "history_ok s x"
    and first: "first_request objs s x N"
    and "objs (ext (cl_world (s n))) (bd_Namespace x) (bd_Name x) = Some x" and n: "N \<le> n"
    and p: "p \<le> length (cl_log (s n))" "reports_map (take p (cl_log (s n))) (MetaNamespaceKeyFunc x) = Some v"
    and "v \<noteq> x"
  shows "p \<le> length (cl_log (s N)) \<and> reports_map (take p (cl_log (s N))) (MetaNamespaceKeyFunc x) = Some v"
proof -
  obtain new where new: "cl_log (s n) = cl_log (s N) @ new" using fair_cluster_log(1) [OF fair n] by blast
  let ?N = "length (cl_log (s N))" and ?n = "length (cl_log (s n))"
  have ends: "reports_map (take ?N (cl_log (s n))) (MetaNamespaceKeyFunc x) = Some x"
    "reports_map (take ?n (cl_log (s n))) (MetaNamespaceKeyFunc x) = Some x"
    using history_server [OF fair _ refl refl, of N] first history_server [OF fair assms(4) refl refl] by (simp_all add: new first_request_def)
  have "p \<le> ?N"
  proof (rule ccontr)
    assume "\<not> p \<le> ?N"
    then have "reports_map (take p (cl_log (s n))) (MetaNamespaceKeyFunc x) = Some x"
      by (intro history_between [OF history _ p(1) le_refl ends]) simp
    then show False using p(2) \<open>v \<noteq> x\<close> by simp
  qed
  then show ?thesis using p(2) by (simp add: new)
qed

text \<open>And it was not read before that time.\<close>

lemma read_since:
  assumes fair: "fair_cluster env objs c name threads extra s e" and history: "history_ok s x"
    and first: "first_request objs s x N" and "stored_at (cl_informer (s n)) (MetaNamespaceKeyFunc x) = Some x"
  shows "N \<le> n"
proof (rule ccontr)
  assume "\<not> N \<le> n"
  obtain j where j: "j \<le> n" "rc_reported (cl_informer (s j)) (MetaNamespaceKeyFunc x) = Some x"
    using stored_was_reported [OF fair_cluster_informer [OF fair] assms(4)] by blast
  let ?j = "length (cl_log (s j))" and ?N = "length (cl_log (s N))"
  have "j < N" using j(1) \<open>\<not> N \<le> n\<close> by simp
  then obtain new where new: "cl_log (s N) = cl_log (s j) @ new" using fair_cluster_log(1) [OF fair, of j N] by auto
  have "cl_heard (s j) \<le> ?j" "reports_map (take (cl_heard (s j)) (cl_log (s j))) (MetaNamespaceKeyFunc x) = Some x"
    using fair_cluster_ok [OF fair, of j] j(2) by (auto simp: cluster_ok_def)
  then have heard: "cl_heard (s j) \<le> ?j" "reports_map (take (cl_heard (s j)) (cl_log (s N))) (MetaNamespaceKeyFunc x) = Some x"
    by (simp_all add: new)
  have "reports_map (take ?N (cl_log (s N))) (MetaNamespaceKeyFunc x) = Some x"
    using history_server [OF fair _ refl refl, of N] first by (simp add: first_request_def)
  then have "reports_map (take ?j (cl_log (s N))) (MetaNamespaceKeyFunc x) = Some x"
    by (intro history_between [OF history heard(1) _ le_refl heard(2)]) (simp add: new)
  then have "reports_map (cl_log (s j)) (MetaNamespaceKeyFunc x) = Some x" by (simp add: new)
  then have "objs (ext (cl_world (s j))) (bd_Namespace x) (bd_Name x) = Some x"
    using fair_cluster_ok [OF fair, of j] by (simp add: cluster_ok_def same_objects_def)
  then show False using first \<open>j < N\<close> by (simp add: first_request_def)
qed

text \<open>One step of the cluster.\<close>

lemma resource_step:
  assumes server: "api_server env objs" "updates_answer env objs" "accepts env objs name"
    and fair: "fair_cluster env objs c name threads extra s e"
    and history: "history_ok s x" and alone: "left_alone objs s e x N"
    and device: "mounts_if_absent env c s x N" "mounted_by_own_runs env c s e x N" "first_request objs s x N"
    and n: "N \<le> n"
    and now: "objs (ext (cl_world (s n))) (bd_Namespace x) (bd_Name x) = Some y"
    and way: "on_the_way env c x (cl_world (s n)) y"
  obtains y' where "objs (ext (cl_world (s (Suc n)))) (bd_Namespace x) (bd_Name x) = Some y'"
    "on_the_way env c x (cl_world (s (Suc n))) y'" "steps_left name y' < steps_left name y \<or> y' = y"
proof (cases "\<exists>i failed. e n = Queue (Finished i (MetaNamespaceKeyFunc x) failed)")
  case False
  then have "unmounted env c x (cl_world (s n)) \<Longrightarrow> unmounted env c x (cl_world (s (Suc n)))"
    using device(2) n by (auto simp: mounted_by_own_runs_def)
  then show ?thesis using that [of y] alone n now way False by (auto simp: left_alone_def on_the_way_def)
next
  case True
  let ?k = "MetaNamespaceKeyFunc x"
  obtain i failed where ev: "e n = Queue (Finished i ?k failed)" using True by blast
  note place = server_stored(1,2) [OF server(1) now]
  from fair_cluster_step [OF fair, of n] obtain err w' where
    run: "SharedHandler_OnChange (block_device_kind env) (block_device_handlers env c name) ?k (held_object (cl_held (s n) i))
      (cl_world (s n)) = Ret (err, w')" and after: "cl_world (s (Suc n)) = w'"
    and busy: "ws_busy (rc_workers (cl_informer (s n))) i = Some ?k" "rc_read (cl_informer (s n)) i"
    unfolding ev by (auto simp: step_simps elim!: cluster_stepE queue_stepE)
  show ?thesis
  proof (cases "cl_held (s n) i")
    case None
    then have "w' = cl_world (s n)" using run by (simp add: held_object_def nil_sync)
    then show ?thesis using that [of y] now way after by simp
  next
    case (Some v)
    then have run: "SharedHandler_OnChange (block_device_kind env) (block_device_handlers env c name) ?k (Object (Some v))
        (cl_world (s n)) = Ret (err, w')"
      using run by (simp add: held_object_def)
    obtain j where j: "j \<le> n" "rc_reported (cl_informer (s j)) ?k = Some v"
      using held_was_reported [OF fair busy Some] by blast
    let ?p = "cl_heard (s j)" and ?log = "cl_log (s n)"
    obtain new where new: "?log = cl_log (s j) @ new" using fair_cluster_log(1) [OF fair j(1)] by blast
    have p: "?p \<le> length (cl_log (s j))" "reports_map (take ?p (cl_log (s j))) ?k = Some v"
      using fair_cluster_ok [OF fair, of j] j(2) by (auto simp: cluster_ok_def)
    then have p: "?p \<le> length ?log" "reports_map (take ?p ?log) ?k = Some v" by (simp_all add: new)
    have y: "reports_map (take (length ?log) ?log) ?k = Some y"
      using history_server [OF fair now place] by simp
    have v: "bd_Namespace v = bd_Namespace x" "bd_Name v = bd_Name x" "version_of v \<noteq> []"
      "om_DeletionTimestamp (bd_ObjectMeta v) = None"
      using history p unfolding history_ok_def by blast+
    show ?thesis
    proof (cases "version_of v = version_of y")
      case True
      then have "reports_map (take (length ?log) ?log) ?k = Some v"
        using history p y unfolding history_ok_def by (metis le_refl)
      with y have "v = y" by simp
      have y_ok: "wants_mount y" "valid_device y" "bd_Spec y = bd_Spec x" using way by (simp_all add: on_the_way_def)
      have now': "objs (ext (cl_world (s n))) (bd_Namespace y) (bd_Name y) = Some y" using now place by simp
      obtain y' where "objs (ext w') (bd_Namespace y) (bd_Name y) = Some y'"
        "bd_Spec y' = bd_Spec y" "wants_mount y'" "good y'" "valid_device y'"
        "steps_left name y' < steps_left name y \<or> steps_left name y = 0 \<and> y' = y \<and> err = None"
        by (rule current_sync [OF server(1,3) now' y_ok(1,2) on_the_way_can [where s = s, OF way device(1) n] run [unfolded \<open>v = y\<close>]])
      then show ?thesis using that [of y'] after place y_ok(3) by (auto simp: on_the_way_def)
    next
      case False
      have same: "objs (ext w') = objs (ext (cl_world (s n)))"
        using stale_sync [OF server(1,2) _ v(3) False v(4) run] now v(1,2) by simp
      have "unmounted env c x w'" if "y = x" "unmounted env c x (cl_world (s n))"
      proof -
        have "v \<noteq> x" using False that(1) by blast
        from read_before [OF fair history device(3) _ n p this] now that(1) device(3) this have "\<not> wants_mount v \<or> fs_valid v"
          unfolding first_request_def by blast
        from no_mount_sync [OF v(4) this server(1) run] show ?thesis
          using device(2) n that(2) after unfolding mounted_by_own_runs_def by blast
      qed
      then have "on_the_way env c x w' y" using way by (auto simp: on_the_way_def)
      then show ?thesis using that [of y] now after same by simp
    qed
  qed
qed

text \<open>A descent that can only stop when nothing changes any more.\<close>

lemma descent_settles:
  fixes g :: "nat \<Rightarrow> 'a" and h :: "'a \<Rightarrow> nat"
  assumes "\<And>n. N \<le> n \<Longrightarrow> h (g (Suc n)) < h (g n) \<or> g (Suc n) = g n"
  shows "\<exists>T\<ge>N. \<forall>n\<ge>T. g n = g T"
proof -
  obtain T where T: "N \<le> T" "\<And>n. N \<le> n \<Longrightarrow> h (g T) \<le> h (g n)"
    using ex_has_least_nat [of "\<lambda>n. N \<le> n" N "\<lambda>n. h (g n)"] by auto
  have "g n = g T" if "T \<le> n" for n
    using that
  proof (induction n rule: dec_induct)
    case (step n)
    then show ?case using assms [of n] T(1) T(2) [of "Suc n"] by auto
  qed simp
  then show ?thesis using T(1) by blast
qed

text \<open>So the resource comes to a last state, and the history says since when it has it.\<close>

lemma resource_settles:
  assumes server: "api_server env objs" "updates_answer env objs" "accepts env objs name"
    and fair: "fair_cluster env objs c name threads extra s e"
    and history: "history_ok s x" and alone: "left_alone objs s e x N"
    and device: "mounts_if_absent env c s x N" "mounted_by_own_runs env c s e x N" "first_request objs s x N"
    and way: "on_the_way env c x (cl_world (s N)) x"
  obtains y T where "N \<le> T"
    "\<And>n. T \<le> n \<Longrightarrow> objs (ext (cl_world (s n))) (bd_Namespace x) (bd_Name x) = Some y"
    "\<And>n. N \<le> n \<Longrightarrow> \<exists>y. objs (ext (cl_world (s n))) (bd_Namespace x) (bd_Name x) = Some y \<and> on_the_way env c x (cl_world (s n)) y"
proof -
  let ?g = "\<lambda>n. objs (ext (cl_world (s n))) (bd_Namespace x) (bd_Name x)"
  note step = resource_step [OF server fair history alone device]
  have has: "\<exists>y. ?g n = Some y \<and> on_the_way env c x (cl_world (s n)) y" if "N \<le> n" for n
    using that
  proof (induction n rule: dec_induct)
    case base
    show ?case using device(3) way unfolding first_request_def by blast
  next
    case (step n)
    then show ?case using resource_step [OF server fair history alone device step(1)] by blast
  qed
  have "steps_left name (the (?g (Suc n))) < steps_left name (the (?g n)) \<or> ?g (Suc n) = ?g n" if n: "N \<le> n" for n
  proof -
    obtain y where y: "?g n = Some y" "on_the_way env c x (cl_world (s n)) y" using has [OF n] by blast
    obtain y' where "?g (Suc n) = Some y'" "steps_left name y' < steps_left name y \<or> y' = y"
      by (rule step [OF n y])
    then show ?thesis using y(1) by auto
  qed
  then have "\<exists>T\<ge>N. \<forall>n\<ge>T. ?g n = ?g T"
    by (rule descent_settles [where g = ?g and h = "\<lambda>v. steps_left name (the v)"])
  then obtain T where T: "N \<le> T" "\<forall>n\<ge>T. ?g n = ?g T" by blast
  obtain y where y: "?g T = Some y" using has [OF T(1)] by blast
  have "?g n = Some y" if "T \<le> n" for n using T(2) [rule_format, OF that] y by (rule trans)
  with T(1) show ?thesis using has by (rule that)
qed

lemma last_state_since:
  assumes server: "api_server env objs" and fair: "fair_cluster env objs c name threads extra s e"
    and history: "history_ok s x"
    and last: "\<And>n. T \<le> n \<Longrightarrow> objs (ext (cl_world (s n))) (bd_Namespace x) (bd_Name x) = Some y"
  obtains q where "settles_at s y q"
proof -
  note place = server_stored(1,2) [OF server last [OF order_refl]]
  have key: "MetaNamespaceKeyFunc y = MetaNamespaceKeyFunc x" using place by (simp add: MetaNamespaceKeyFunc_def)
  let ?at = "\<lambda>p n. reports_map (take p (cl_log (s n))) (MetaNamespaceKeyFunc x)"
  have late: "?at (length (cl_log (s n))) n = Some y" if "T \<le> n" for n
    using history_server [OF fair last [OF that] place] by simp
  define q where "q = (LEAST p. ?at p T = Some y)"
  have q: "?at q T = Some y" "q \<le> length (cl_log (s T))"
    using LeastI [of "\<lambda>p. ?at p T = Some y", OF late [OF order_refl]]
      Least_le [of "\<lambda>p. ?at p T = Some y", OF late [OF order_refl]] by (simp_all add: q_def)
  have "?at p j = Some y \<longleftrightarrow> q \<le> p" if p: "p \<le> length (cl_log (s j))" for j p
  proof -
    obtain m where m: "j \<le> m" "T \<le> m" by (meson nat_le_linear order_refl)
    obtain a b where ab: "cl_log (s m) = cl_log (s j) @ a" "cl_log (s m) = cl_log (s T) @ b"
      using fair_cluster_log(1) [OF fair m(1)] fair_cluster_log(1) [OF fair m(2)] by blast
    have same: "?at p j = ?at p m" using p by (simp add: ab(1))
    have qm: "?at q m = Some y" "q \<le> length (cl_log (s m))" using q by (simp_all add: ab(2))
    have pm: "p \<le> length (cl_log (s m))" using p by (simp add: ab(1))
    show ?thesis
    proof
      assume "q \<le> p"
      have "?at (length (cl_log (s m))) m = Some y" by (rule late [OF m(2)])
      then have "?at p m = Some y"
        using history qm pm \<open>q \<le> p\<close> unfolding history_ok_def by (metis le_refl)
      then show "?at p j = Some y" by (simp add: same)
    next
      assume y: "?at p j = Some y"
      show "q \<le> p"
      proof (cases "p \<le> length (cl_log (s T))")
        case True
        then have "?at p T = Some y" using y same ab(2) by simp
        then show ?thesis unfolding q_def by (rule Least_le)
      qed (use q(2) in simp)
    qed
  qed
  then have "settles_at s y q" using q(2) by (auto simp: settles_at_def key)
  then show ?thesis by (rule that)
qed

lemma last_run:
  assumes server: "api_server env objs" "accepts env objs name"
    and fair: "fair_cluster env objs c name threads extra s e" and quiet: "\<And>n. e n \<noteq> Queue ShutDown"
    and settles: "settles_at s y q"
    and read: "e n = Reads i (MetaNamespaceKeyFunc y)" "stored_at (cl_informer (s n)) (MetaNamespaceKeyFunc y) = Some y"
    and wants: "wants_mount y" "valid_device y"
    and can: "\<And>m. n \<le> m \<Longrightarrow> objs (ext (cl_world (s m))) (bd_Namespace y) (bd_Name y) = Some y \<Longrightarrow>
      fs_valid y \<or> mountable env c y (cl_world (s m))"
  shows "steps_left name y = 0 \<and> (\<exists>l>n. e l = Queue (Finished i (MetaNamespaceKeyFunc y) False))"
proof -
  obtain m failed where m: "n < m" "e m = Queue (Finished i (MetaNamespaceKeyFunc y) failed)"
    "holds_key i (MetaNamespaceKeyFunc y) (Some y) (s m)" "q \<le> length (cl_log (s m))"
    by (rule last_state_finished [OF fair quiet settles refl read])
  from fair_cluster_step [OF fair, of m] obtain err w' where
    "SharedHandler_OnChange (block_device_kind env) (block_device_handlers env c name) (MetaNamespaceKeyFunc y)
      (held_object (cl_held (s m) i)) (cl_world (s m)) = Ret (err, w')"
    and after: "failed = (err \<noteq> None)" "cl_world (s (Suc m)) = w'"
    unfolding m(2) by (auto elim!: cluster_stepE)
  then have run: "SharedHandler_OnChange (block_device_kind env) (block_device_handlers env c name) (MetaNamespaceKeyFunc y)
      (Object (Some y)) (cl_world (s m)) = Ret (err, w')"
    using m(3) by (simp add: holds_key_def held_object_def)
  have "q \<le> length (cl_log (s (Suc m)))" using fair_cluster_log(1) [OF fair, of m "Suc m"] m(4) by auto
  note stored = settled_server [OF fair settles m(4)] settled_server [OF fair settles this]
  obtain x where "objs (ext w') (bd_Namespace y) (bd_Name y) = Some x"
    "steps_left name x < steps_left name y \<or> steps_left name y = 0 \<and> x = y \<and> err = None"
    by (rule current_sync [OF server stored(1) wants can [OF less_imp_le [OF m(1)] stored(1)] run])
  with stored(2) after have "steps_left name y = 0 \<and> \<not> failed" by auto
  then show ?thesis using m(1,2) by auto
qed

text \<open>C3: a device gets mounted. Take a fair run of server, watch, informer, queue and workers in
  which the controller is not shut down and no new list overlooks the device. From some time on
  let the resource of the device, which asks for a mount point and none of whose earlier states
  had anything to mount, be changed by nothing but the runs of its own handlers, and let the
  server accept valid updates of the stored version. If the device is not mounted at that time
  (or its file system is recorded already), is not mounted by anybody else, and can be mounted
  wherever in the run it is not mounted, then the resource comes to a state that it keeps for
  ever: it still asks for the same, its recorded file system is the requested one, its
  condition Mounted is True, and it has the finalizer. And at last every run of its handlers
  ends without an error. Nothing is assumed of a mount of the device where it is mounted
  already, which the kernel may refuse.\<close>

theorem device_gets_mounted:
  assumes server: "api_server env objs" "updates_answer env objs" "accepts env objs name"
    and fair: "fair_cluster env objs c name threads extra s e"
    and threads: "0 < threads" and quiet: "\<And>n. e n \<noteq> Queue ShutDown"
    and versions: "version_law bd_ObjectMeta (\<Union>n. event_objects (e n))"
    and covers: "\<And>n r. e n = Report r \<Longrightarrow> covered bd_ObjectMeta (cl_informer (s n)) r (MetaNamespaceKeyFunc x)"
    and history: "history_ok s x" and alone: "left_alone objs s e x N"
    and wants: "wants_mount x" "valid_device x"
    and absent: "unmounted env c x (cl_world (s N)) \<or> fs_valid x"
    and device: "mounts_if_absent env c s x N" "mounted_by_own_runs env c s e x N" "first_request objs s x N"
  shows "\<exists>y m. bd_Spec y = bd_Spec x \<and> snd (isValidFileSystem (fs_spec y) (fs_status y))
    \<and> GetStatus DeviceMounted y = ''True''
    \<and> ''wrangler.cattle.io/'' @ name \<in> set (om_Finalizers (bd_ObjectMeta y))
    \<and> (\<forall>n\<ge>m. objs (ext (cl_world (s n))) (bd_Namespace x) (bd_Name x) = Some y)
    \<and> (\<forall>n\<ge>m. \<forall>i. e n = Reads i (MetaNamespaceKeyFunc x) \<longrightarrow>
         (\<exists>l>n. e l = Queue (Finished i (MetaNamespaceKeyFunc x) False)))"
proof -
  have "on_the_way env c x (cl_world (s N)) x" using wants absent by (auto simp: on_the_way_def)
  then obtain y T where T: "N \<le> T"
    and stays: "\<And>n. T \<le> n \<Longrightarrow> objs (ext (cl_world (s n))) (bd_Namespace x) (bd_Name x) = Some y"
    and way: "\<And>n. N \<le> n \<Longrightarrow> \<exists>y. objs (ext (cl_world (s n))) (bd_Namespace x) (bd_Name x) = Some y \<and> on_the_way env c x (cl_world (s n)) y"
    by (rule resource_settles [OF server fair history alone device]) (rule that)
  have y: "bd_Spec y = bd_Spec x" "wants_mount y" "valid_device y" "good y \<or> y = x"
    using way [OF T] stays [OF order_refl] by (auto simp: on_the_way_def)
  have place: "bd_Namespace y = bd_Namespace x" "bd_Name y = bd_Name x"
    using server_stored(1,2) [OF server(1) stays [OF order_refl]] .
  obtain q where settles: "settles_at s y q" by (rule last_state_since [OF server(1) fair history stays])
  have key: "MetaNamespaceKeyFunc y = MetaNamespaceKeyFunc x" using place by (simp add: MetaNamespaceKeyFunc_def)
  obtain m where m: "\<forall>l\<ge>m. stored_at (cl_informer (s l)) (MetaNamespaceKeyFunc y) = Some y
      \<and> rc_seen (cl_informer (s l)) (MetaNamespaceKeyFunc y) = Some y"
    using last_state_is_read [OF fair threads quiet versions _ settles] covers by (auto simp: key)
  have run: "steps_left name y = 0 \<and> (\<exists>l>n. e l = Queue (Finished i (MetaNamespaceKeyFunc y) False))"
    if read: "e n = Reads i (MetaNamespaceKeyFunc y)" "stored_at (cl_informer (s n)) (MetaNamespaceKeyFunc y) = Some y" for n i
  proof (rule last_run [OF server(1,3) fair quiet settles read y(2,3)])
    fix l
    assume l: "n \<le> l" "objs (ext (cl_world (s l))) (bd_Namespace y) (bd_Name y) = Some y"
    show "fs_valid y \<or> mountable env c y (cl_world (s l))"
    proof (cases "good y")
      case True
      then show ?thesis by (simp add: good_def)
    next
      case False
      then have "y = x" using y(4) by blast
      then have "N \<le> l" using read_since [OF fair history device(3)] read(2) l(1) le_trans by blast
      with way [OF this] l(2) show ?thesis
        using on_the_way_can [OF _ device(1) \<open>N \<le> l\<close>] \<open>y = x\<close> by auto
    qed
  qed
  obtain r i where "e r = Reads i (MetaNamespaceKeyFunc y)" "stored_at (cl_informer (s r)) (MetaNamespaceKeyFunc y) = Some y"
    using last_read [OF fair_cluster_informer [OF fair], of m "MetaNamespaceKeyFunc y" y] m by blast
  then have "steps_left name y = 0" using run by blast
  then have "good y" "guarded name y" by (simp_all add: steps_left_def split: if_splits)
  moreover have "\<exists>l>n. e l = Queue (Finished i (MetaNamespaceKeyFunc x) False)"
    if "max m T \<le> n" "e n = Reads i (MetaNamespaceKeyFunc x)" for n i
    using run [of n i] m that by (simp add: key)
  ultimately show ?thesis
    using y(1) stays
    by (intro exI [of _ y] exI [of _ "max m T"]) (auto simp: good_def guarded_def fs_valid_def shows_mounted_def)
qed

end
