(* ===== verification/Mount_Run.thy ===== *)
theory Mount_Run
  imports Convergence
begin

text \<open>
  A concrete run of the whole loop: a device whose resource asks for a mount point is listed, its
  handlers mount it and conflict with each other, add the finalizer, and are done.
\<close>

definition handled :: "string \<Rightarrow> 'o report \<Rightarrow> bool \<Rightarrow> 'o reconcile_event list \<Rightarrow> 'o reconcile_event list" where
  "handled k r failed es =
     Report r # [Pops k, Handles, Distributes, Dispatches, Delivers] @ es @ [Queue (Got 0 k), Reads 0 k, Queue (Finished 0 k failed)]"

definition three_reports :: "string \<Rightarrow> 'o \<Rightarrow> 'o \<Rightarrow> 'o \<Rightarrow> 'o reconcile_event list" where
  "three_reports k x y z =
     handled k (Relist [x]) True [] @ handled k (WatchModified y) False [Queue (Ready k)] @ handled k (WatchModified z) False []"

lemma three_reports_way:
  assumes "object_key meta x = k" "object_key meta y = k" "object_key meta z = k"
    and "om_ResourceVersion (meta x) \<noteq> om_ResourceVersion (meta y)" "om_ResourceVersion (meta y) \<noteq> om_ResourceVersion (meta z)"
  shows "\<exists>t. exec_reconciles meta 2 (three_reports k x y z) (start_reconciler meta extra) = Some t \<and> at_rest t"
  using assms by (simp add: reconcile_defs three_reports_def handled_def at_rest_def Let_def fun_upd_idem fifo_Update_def wq_AddRateLimited_def wq_ready_def)

lemma three_reports_stores:
  assumes "object_key meta x = k" "object_key meta y = k" "object_key meta z = k"
    and "om_ResourceVersion (meta x) \<noteq> om_ResourceVersion (meta y)" "om_ResourceVersion (meta y) \<noteq> om_ResourceVersion (meta z)"
  shows "\<exists>t. exec_reconciles meta 2 (take 7 (three_reports k x y z)) (start_reconciler meta extra) = Some t \<and> stored_at t k = Some x"
    and "\<exists>t. exec_reconciles meta 2 (take 17 (three_reports k x y z)) (start_reconciler meta extra) = Some t \<and> stored_at t k = Some y"
    and "\<exists>t. exec_reconciles meta 2 (take 26 (three_reports k x y z)) (start_reconciler meta extra) = Some t \<and> stored_at t k = Some z"
  using assms
  by (simp_all add: reconcile_defs three_reports_def handled_def Let_def fun_upd_idem fifo_Update_def
      wq_AddRateLimited_def wq_ready_def)

section \<open>The runs of the handlers\<close>

definition demo_sync :: "BlockDevice \<Rightarrow> (bool \<times> BlockDevice list) world \<Rightarrow> (shared_error option \<times> (bool \<times> BlockDevice list) world) outcome" where
  "demo_sync bd w = SharedHandler_OnChange (block_device_kind server_env) (block_device_handlers server_env demo_controller ''h'')
     ''ns/sda-n1'' (Object (Some bd)) w"

definition after_sync :: "BlockDevice \<Rightarrow> (bool \<times> BlockDevice list) world \<Rightarrow> (bool \<times> BlockDevice list) world" where
  "after_sync bd w = (case demo_sync bd w of Ret (err, w') \<Rightarrow> w' | Panic e \<Rightarrow> w)"

definition mounted_world :: "(bool \<times> BlockDevice list) world" where
  "mounted_world = after_sync server_device server_world"

definition mounted_device :: BlockDevice where
  "mounted_device = hd (snd (ext mounted_world))"

definition guarded_world :: "(bool \<times> BlockDevice list) world" where
  "guarded_world = after_sync mounted_device mounted_world"

definition guarded_device :: BlockDevice where
  "guarded_device = hd (snd (ext guarded_world))"

lemma first_run:
  "\<exists>err. demo_sync server_device server_world = Ret (Some err, mounted_world)"
  "snd (ext mounted_world) = [mounted_device, server_device]"
proof -
  have "case demo_sync server_device server_world of Ret (err, w) \<Rightarrow> err \<noteq> None | Panic e \<Rightarrow> False" by code_simp
  then show "\<exists>err. demo_sync server_device server_world = Ret (Some err, mounted_world)"
    by (auto simp: mounted_world_def after_sync_def split: outcome.splits)
  show "snd (ext mounted_world) = [mounted_device, server_device]" by code_simp
qed

lemma second_run:
  "demo_sync mounted_device mounted_world = Ret (None, guarded_world)"
  "snd (ext guarded_world) = [guarded_device, mounted_device, server_device]"
proof -
  have "case demo_sync mounted_device mounted_world of Ret (err, w) \<Rightarrow> (case err of None \<Rightarrow> True | Some e \<Rightarrow> False) | Panic e \<Rightarrow> False" by code_simp
  then show "demo_sync mounted_device mounted_world = Ret (None, guarded_world)"
    by (auto simp: guarded_world_def after_sync_def split: outcome.splits option.splits)
  show "snd (ext guarded_world) = [guarded_device, mounted_device, server_device]" by code_simp
qed

definition demo_state :: "string \<Rightarrow> BlockDevice \<Rightarrow> bool" where
  "demo_state v bd \<longleftrightarrow>
     MetaNamespaceKeyFunc bd = ''ns/sda-n1'' \<and> bd_Namespace bd = ''ns'' \<and> bd_Name bd = ''sda-n1''
     \<and> version_of bd = v \<and> om_UID (bd_ObjectMeta bd) = ''uid'' \<and> wants_mount bd
     \<and> deletion_of bd = None"

lemma demo_devices:
  "demo_state ''1'' server_device" "demo_state ''11'' mounted_device" "demo_state ''111'' guarded_device"
  by code_simp+

lemma demo_not_mounted: "GetStatus DeviceMounted server_device \<noteq> ''True''"
  by code_simp

lemma demo_valid: "valid_device server_device"
  by code_simp

lemma guarded_device_end: "good guarded_device \<and> guarded ''h'' guarded_device"
  by code_simp

lemmas demo_facts = demo_devices [unfolded demo_state_def]

lemma third_run: "demo_sync guarded_device w = Ret (None, w)"
  unfolding demo_sync_def by (rule end_sync) (simp_all add: guarded_device_end demo_facts)

text \<open>
  The kernel of the small machine mounts the device where it is not mounted, and refuses to mount
  it again.
\<close>

lemma demo_scan:
  "case GetDiskByName (demo_host True) (c_BlockInfo demo_controller) (spec_DevPath (bd_Spec server_device)) of
     Ret disk \<Rightarrow> fsi_FsType (disk_FileSystemInfo disk) = ''ext4'' \<and> fsi_MountPoint (disk_FileSystemInfo disk) = ''/data''
   | Panic e \<Rightarrow> False"
  "case GetDiskByName (demo_host False) (c_BlockInfo demo_controller) (spec_DevPath (bd_Spec server_device)) of
     Ret disk \<Rightarrow> fsi_MountPoint (disk_FileSystemInfo disk) = []
   | Panic e \<Rightarrow> False"
  by code_simp+

lemma demo_host_now: "host_now server_env w = demo_host (fst (ext w))"
  by (simp add: server_env_def)

lemma demo_unmounted: "unmounted server_env demo_controller server_device w \<longleftrightarrow> \<not> fst (ext w)"
proof (cases "fst (ext w)")
  case True
  then show ?thesis using demo_scan(1) by (auto simp: unmounted_def demo_host_now)
next
  case False
  then show ?thesis using demo_scan(2) by (auto simp: unmounted_def demo_host_now split: outcome.splits)
qed

lemma demo_mountable:
  assumes "unmounted server_env demo_controller server_device w"
  shows "mountable server_env demo_controller server_device w"
proof -
  let ?dev = "spec_DevPath (bd_Spec server_device)" and ?mp = "fi_MountPoint (fs_spec server_device)"
  have absent: "\<not> fst (ext w)" using assms by (simp add: demo_unmounted)
  have stat: "case host_stat (demo_host b) ?mp of StatFails e \<Rightarrow> False | _ \<Rightarrow> True" for b
    by (cases b) code_simp+
  have mount: "err = None \<and> fst (ext w1)" if "mountDevice server_env ?dev ?mp w = (err, w1)" for err w1
    using that stat [of "fst (ext w)"] absent
    by (auto simp: mountDevice_def MountExt4_def Mkdir_def after_call_def server_env_def split: file_stat.splits prod.splits)
  have spec: "fs_spec server_device = \<lparr>fi_MountPoint = ''/data/'', fi_ForceFormatted = True\<rparr>" by code_simp
  have valid: "snd (isValidFileSystem (fs_spec server_device) (st\<lparr>fst_Type := ''ext4'', fst_MountPoint := ''/data''\<rparr>))" for st
    unfolding spec isValidFileSystem_def by (simp add: IsSupportedFileSystem_def TrimSuffix_def HasSuffix_def)
  show ?thesis
    unfolding mountable_def
  proof (intro allI impI conjI)
    fix err w1 disk st
    assume m: "mountDevice server_env ?dev ?mp w = (err, w1)"
    then show "err = None" using mount by blast
    assume "GetDiskByName (host_now server_env w1) (c_BlockInfo demo_controller) ?dev = Ret disk"
    moreover have "host_now server_env w1 = demo_host True" using mount [OF m] by (simp add: demo_host_now)
    ultimately show "snd (isValidFileSystem (fs_spec server_device)
        (st\<lparr>fst_Type := fsi_FsType (disk_FileSystemInfo disk), fst_MountPoint := fsi_MountPoint (disk_FileSystemInfo disk)\<rparr>))"
      using demo_scan(1) valid by simp
  qed
qed

lemma server_env_accepts: "accepts server_env server_objects name"
  unfolding accepts_def
proof (intro allI impI, elim conjE)
  fix bd w r e w' old
  assume u: "e_Update server_env (bd_Namespace bd) bd w = ((r, e), w')"
    and old: "stored (snd w) (bd_Namespace bd) (bd_Name bd) = Some old"
    and "bd_ObjectMeta bd \<in> {bd_ObjectMeta old, bd_ObjectMeta (with_guard name old)}"
  then have "version_of bd = version_of old" by (auto simp: with_guard_def)
  with server_env_Update [OF u] old show "e = None" by auto
qed

section \<open>The run of the cluster\<close>

definition mount_log :: "BlockDevice report list" where
  "mount_log = [Relist [server_device], WatchModified mounted_device, WatchModified guarded_device]"

definition mount_cluster :: "(nat \<Rightarrow> BlockDevice reconciler) \<Rightarrow> nat \<Rightarrow> (bool \<times> BlockDevice list) cluster" where
  "mount_cluster r n =
     \<lparr> cl_informer = r n,
       cl_world = (if n \<le> 8 then server_world else if n \<le> 18 then mounted_world else guarded_world),
       cl_log = take (if n \<le> 8 then 1 else if n \<le> 18 then 2 else 3) mount_log,
       cl_heard = (if n = 0 then 0 else if n \<le> 9 then 1 else if n \<le> 19 then 2 else 3),
       cl_held = (\<lambda>i. if i = 0 \<and> 7 < n
         then Some (if n \<le> 17 then server_device else if n \<le> 26 then mounted_device else guarded_device) else None) \<rparr>"

abbreviation mount_events :: "BlockDevice reconcile_event list" where
  "mount_events \<equiv> three_reports ''ns/sda-n1'' server_device mounted_device guarded_device"

lemma demo_keys:
  "object_key bd_ObjectMeta server_device = ''ns/sda-n1''" "object_key bd_ObjectMeta mounted_device = ''ns/sda-n1''"
  "object_key bd_ObjectMeta guarded_device = ''ns/sda-n1''"
  using demo_facts by (simp_all add: MetaNamespaceKeyFunc_kind)

lemma mount_history:
  "reports_map (take 0 mount_log) = Map.empty"
  "reports_map (take 1 mount_log) = [''ns/sda-n1'' \<mapsto> server_device]"
  "reports_map (take 2 mount_log) = [''ns/sda-n1'' \<mapsto> mounted_device]"
  "reports_map (take 3 mount_log) = [''ns/sda-n1'' \<mapsto> guarded_device]"
  by (simp_all add: reports_map_def mount_log_def demo_keys numeral_2_eq_2 numeral_3_eq_3)

lemma mount_objects:
  "same_objects [''ns/sda-n1'' \<mapsto> server_device] (server_objects (ext server_world))"
  "same_objects [''ns/sda-n1'' \<mapsto> mounted_device] (server_objects (ext mounted_world))"
  "same_objects [''ns/sda-n1'' \<mapsto> guarded_device] (server_objects (ext guarded_world))"
  by (auto simp: same_objects_def first_run(2) second_run(2) server_world_def stored_def demo_facts split: if_splits)

lemma mount_event:
  "then_quiet mount_events 0 = Report (Relist [server_device])"
  "then_quiet mount_events 7 = Reads 0 ''ns/sda-n1''"
  "then_quiet mount_events 8 = Queue (Finished 0 ''ns/sda-n1'' True)"
  "then_quiet mount_events 9 = Report (WatchModified mounted_device)"
  "then_quiet mount_events 17 = Reads 0 ''ns/sda-n1''"
  "then_quiet mount_events 18 = Queue (Finished 0 ''ns/sda-n1'' False)"
  "then_quiet mount_events 19 = Report (WatchModified guarded_device)"
  "then_quiet mount_events 26 = Reads 0 ''ns/sda-n1''"
  "then_quiet mount_events 27 = Queue (Finished 0 ''ns/sda-n1'' False)"
  by (simp_all add: then_quiet_def three_reports_def handled_def)

lemma mount_event_inside:
  assumes "n \<notin> {0, 7, 8, 9, 17, 18, 19, 26, 27}"
  shows "within_informer (then_quiet mount_events n)" and "then_quiet mount_events n \<noteq> Report r"
    and "then_quiet mount_events n \<noteq> Queue ShutDown" and "then_quiet mount_events n \<noteq> Queue (Finished i k failed)"
proof -
  have "within_informer (then_quiet mount_events n) \<and> then_quiet mount_events n \<noteq> Report r
    \<and> then_quiet mount_events n \<noteq> Queue ShutDown \<and> then_quiet mount_events n \<noteq> Queue (Finished i k failed)"
  proof (cases "n < 28")
    case True
    with assms have "n \<in> {1, 2, 3, 4, 5, 6, 10, 11, 12, 13, 14, 15, 16, 20, 21, 22, 23, 24, 25}"
      by (simp, presburger)
    then show ?thesis
      by (elim insertE emptyE) (simp_all add: then_quiet_def three_reports_def handled_def)
  qed (simp add: then_quiet_def three_reports_def handled_def)
  then show "within_informer (then_quiet mount_events n)" "then_quiet mount_events n \<noteq> Report r"
    "then_quiet mount_events n \<noteq> Queue ShutDown" "then_quiet mount_events n \<noteq> Queue (Finished i k failed)"
    by blast+
qed

lemma mount_step:
  assumes read: "stored_at (r 7) ''ns/sda-n1'' = Some server_device" "stored_at (r 17) ''ns/sda-n1'' = Some mounted_device"
    "stored_at (r 26) ''ns/sda-n1'' = Some guarded_device"
    and step: "reconcile_step bd_ObjectMeta 2 (r n) (then_quiet mount_events n) (r (Suc n))"
  shows "cluster_step server_env server_objects demo_controller ''h'' 2 (mount_cluster r n) (then_quiet mount_events n)
    (mount_cluster r (Suc n))"
proof -
  let ?s = "mount_cluster r n" and ?t = "r (Suc n)" and ?k = "''ns/sda-n1''"
  consider "n \<in> {0, 9, 19}" | "n \<in> {7, 17, 26}" | "n = 8" | "n = 18" | "n = 27" | "n \<notin> {0, 7, 8, 9, 17, 18, 19, 26, 27}"
    by blast
  then show ?thesis
  proof cases
    case 1
    then have ev: "then_quiet mount_events n = Report (cl_log ?s ! cl_heard ?s)" "cl_heard ?s < length (cl_log ?s)"
      and t: "mount_cluster r (Suc n) = ?s\<lparr>cl_informer := ?t, cl_heard := Suc (cl_heard ?s)\<rparr>"
      by (auto simp: mount_event mount_cluster_def mount_log_def)
    show ?thesis
      unfolding t ev(1) by (rule cluster_step.hears [OF ev(2)]) (use step ev(1) in \<open>simp add: mount_cluster_def\<close>)
  next
    case 2
    then have ev: "then_quiet mount_events n = Reads 0 ?k"
      and t: "mount_cluster r (Suc n) = ?s\<lparr>cl_informer := ?t, cl_held := (cl_held ?s)(0 := stored_at (cl_informer ?s) ?k)\<rparr>"
      using read by (auto simp: mount_event mount_cluster_def)
    show ?thesis
      unfolding t ev by (rule cluster_step.reads) (use step ev in \<open>simp add: mount_cluster_def\<close>)
  next
    case 3
    obtain err where err: "demo_sync server_device server_world = Ret (Some err, mounted_world)" using first_run(1) by blast
    have ev: "then_quiet mount_events n = Queue (Finished 0 ?k (Some err \<noteq> None))"
      and t: "mount_cluster r (Suc n) = ?s\<lparr> cl_informer := ?t, cl_world := mounted_world,
        cl_log := cl_log ?s @ [WatchModified mounted_device]\<rparr>"
      using 3 by (auto simp: mount_event mount_cluster_def mount_log_def)
    show ?thesis
      unfolding t ev
      by (rule cluster_step.finishes)
        (use 3 step ev err mount_history(3) mount_objects(2) in
          \<open>simp_all add: mount_cluster_def held_object_def demo_sync_def changes_to_def mount_log_def\<close>)
  next
    case 4
    have ev: "then_quiet mount_events n = Queue (Finished 0 ?k ((None :: shared_error option) \<noteq> None))"
      and t: "mount_cluster r (Suc n) = ?s\<lparr> cl_informer := ?t, cl_world := guarded_world,
        cl_log := cl_log ?s @ [WatchModified guarded_device]\<rparr>"
      using 4 by (auto simp: mount_event mount_cluster_def mount_log_def)
    show ?thesis
      unfolding t ev
      by (rule cluster_step.finishes)
        (use 4 step ev second_run(1) mount_history(4) mount_objects(3) in
          \<open>simp_all add: mount_cluster_def held_object_def demo_sync_def changes_to_def mount_log_def\<close>)
  next
    case 5
    have ev: "then_quiet mount_events n = Queue (Finished 0 ?k ((None :: shared_error option) \<noteq> None))"
      and t: "mount_cluster r (Suc n) = ?s\<lparr> cl_informer := ?t, cl_world := guarded_world, cl_log := cl_log ?s @ []\<rparr>"
      using 5 by (auto simp: mount_event mount_cluster_def)
    show ?thesis
      unfolding t ev
      by (rule cluster_step.finishes)
        (use 5 step ev third_run mount_history(4) mount_objects(3) in
          \<open>simp_all add: mount_cluster_def held_object_def demo_sync_def changes_to_def mount_log_def\<close>)
  next
    case 6
    then have t: "mount_cluster r (Suc n) = ?s\<lparr>cl_informer := ?t\<rparr>"
      by (auto simp: mount_cluster_def)
    show ?thesis
      unfolding t by (rule cluster_step.informs) (use step mount_event_inside(1) [OF 6] in \<open>simp_all add: mount_cluster_def\<close>)
  qed
qed

lemma mount_run:
  obtains r where "fair_cluster server_env server_objects demo_controller ''h'' 2 [] (mount_cluster r) (then_quiet mount_events)"
proof -
  have versions: "om_ResourceVersion (bd_ObjectMeta server_device) \<noteq> om_ResourceVersion (bd_ObjectMeta mounted_device)"
    "om_ResourceVersion (bd_ObjectMeta mounted_device) \<noteq> om_ResourceVersion (bd_ObjectMeta guarded_device)"
    by (simp_all add: demo_facts)
  note way = three_reports_way [where meta = bd_ObjectMeta and extra = "[]", OF demo_keys versions]
    and stores = three_reports_stores [where meta = bd_ObjectMeta and extra = "[]", OF demo_keys versions]
  obtain t where t: "exec_reconciles bd_ObjectMeta 2 mount_events (start_reconciler bd_ObjectMeta []) = Some t" "at_rest t"
    using way by blast
  obtain r where r: "fair_reconcile bd_ObjectMeta 2 [] r (then_quiet mount_events)"
    "\<And>n. exec_reconciles bd_ObjectMeta 2 (take n mount_events) (start_reconciler bd_ObjectMeta []) = Some (r n)"
    using run_then_quiet [OF t(1) at_rest_ready [OF t(2)]] by blast
  have start: "r 0 = start_reconciler bd_ObjectMeta []" using r(2) [of 0] by simp
  have read: "stored_at (r 7) ''ns/sda-n1'' = Some server_device" "stored_at (r 17) ''ns/sda-n1'' = Some mounted_device"
    "stored_at (r 26) ''ns/sda-n1'' = Some guarded_device"
    using stores r(2) [of 7] r(2) [of 17] r(2) [of 26] by auto
  have "cluster_step server_env server_objects demo_controller ''h'' 2 (mount_cluster r n) (then_quiet mount_events n)
      (mount_cluster r (Suc n))" for n
    using run_step [OF r(1), of n] mount_step [OF read] by simp
  moreover have "cluster_start [] server_objects (mount_cluster r 0)"
    using mount_history(2) mount_objects(1) by (simp add: cluster_start_def mount_cluster_def start mount_log_def)
  moreover have "cl_heard (mount_cluster r (n + 28)) = length (cl_log (mount_cluster r (n + 28)))" for n
    by (simp add: mount_cluster_def mount_log_def)
  moreover have "(\<lambda>n. cl_informer (mount_cluster r n)) = r" by (simp add: mount_cluster_def)
  ultimately show ?thesis using r(1) that [of r] le_add1 unfolding fair_cluster_def run_of_def by metis
qed

section \<open>What is assumed of a run holds of this one\<close>

lemma mount_reports:
  assumes "then_quiet mount_events n = Report r"
  shows "r \<in> {Relist [server_device], WatchModified mounted_device, WatchModified guarded_device}"
proof (cases "n \<in> {0, 7, 8, 9, 17, 18, 19, 26, 27}")
  case True
  then show ?thesis using assms by (elim insertE emptyE) (simp_all add: mount_event)
qed (use assms mount_event_inside(2) in blast)

lemma mount_events_facts:
  "then_quiet mount_events n \<noteq> Queue ShutDown"
  "then_quiet mount_events n = Report r \<Longrightarrow> covered bd_ObjectMeta st r ''ns/sda-n1''"
  "version_law bd_ObjectMeta (\<Union>n. event_objects (then_quiet mount_events n))"
proof -
  show "then_quiet mount_events n \<noteq> Queue ShutDown"
  proof (cases "n \<in> {0, 7, 8, 9, 17, 18, 19, 26, 27}")
    case True
    then show ?thesis by (elim insertE emptyE) (simp_all add: mount_event)
  qed (rule mount_event_inside(3))
  show "covered bd_ObjectMeta st r ''ns/sda-n1''" if "then_quiet mount_events n = Report r"
    using mount_reports [OF that] by (auto simp: covered_def demo_keys)
  have "event_objects (then_quiet mount_events n) \<subseteq> {server_device, mounted_device, guarded_device}" for n
    using mount_reports [of n] by (cases "then_quiet mount_events n") auto
  then have "(\<Union>n. event_objects (then_quiet mount_events n)) \<subseteq> {server_device, mounted_device, guarded_device}"
    by blast
  moreover have "x = y" if "x \<in> {server_device, mounted_device, guarded_device}"
    "y \<in> {server_device, mounted_device, guarded_device}" "version_of x = version_of y" for x y
    using that by (elim insertE emptyE) (simp_all add: demo_facts)
  ultimately show "version_law bd_ObjectMeta (\<Union>n. event_objects (then_quiet mount_events n))"
    unfolding version_law_def by blast
qed

lemma mount_history_at:
  assumes "p \<le> 3"
  shows "reports_map (take p mount_log) ''ns/sda-n1'' =
    (if p = 0 then None else if p = 1 then Some server_device else if p = 2 then Some mounted_device else Some guarded_device)"
proof -
  have "p \<in> {0, 1, 2, 3}" using assms by auto
  then show ?thesis by (elim insertE emptyE) (simp_all add: mount_history [simplified])
qed

lemma mount_history_ok: "history_ok (mount_cluster r) server_device"
proof -
  have log: "\<exists>q\<le>3. cl_log (mount_cluster r j) = take q mount_log" for j
    by (rule exI [of _ "if j \<le> 8 then 1 else if j \<le> 18 then 2 else 3"]) (simp add: mount_cluster_def)
  have at: "reports_map (take p (take q mount_log)) ''ns/sda-n1'' =
      (if p = 0 then None else if p = 1 then Some server_device else if p = 2 then Some mounted_device else Some guarded_device)"
    if "p \<le> length (take q mount_log)" "q \<le> 3" for p q
    using that mount_history_at [of p] by (simp add: min_absorb1 mount_log_def)
  show ?thesis
    unfolding history_ok_def
  proof (intro allI impI)
    fix j p v
    assume p: "p \<le> length (cl_log (mount_cluster r j))
      \<and> reports_map (take p (cl_log (mount_cluster r j))) (MetaNamespaceKeyFunc server_device) = Some v"
    obtain q where q: "q \<le> 3" "cl_log (mount_cluster r j) = take q mount_log" using log by blast
    have len: "length (take q mount_log) \<le> 3" by (simp add: mount_log_def)
    have v: "v = (if p = 1 then server_device else if p = 2 then mounted_device else guarded_device)" "p \<noteq> 0"
      using p at [OF _ q(1), of p] by (auto simp: q(2) demo_facts split: if_splits)
    have "reports_map (take t (take q mount_log)) ''ns/sda-n1'' = Some v"
      if "p \<le> t" "t \<le> l" "l \<le> length (take q mount_log)" "reports_map (take l (take q mount_log)) ''ns/sda-n1'' = Some v'"
        "version_of v' = version_of v" for t l v'
    proof -
      have "l = p" using that at [OF that(3) q(1)] v len by (auto simp: demo_facts split: if_splits)
      then show ?thesis using that p by (simp add: q(2) demo_facts)
    qed
    then show "bd_Namespace v = bd_Namespace server_device \<and> bd_Name v = bd_Name server_device \<and> version_of v \<noteq> []
        \<and> om_DeletionTimestamp (bd_ObjectMeta v) = None
        \<and> (\<forall>t l v'. p \<le> t \<and> t \<le> l \<and> l \<le> length (cl_log (mount_cluster r j))
             \<and> reports_map (take l (cl_log (mount_cluster r j))) (MetaNamespaceKeyFunc server_device) = Some v'
             \<and> version_of v' = version_of v \<longrightarrow>
             reports_map (take t (cl_log (mount_cluster r j))) (MetaNamespaceKeyFunc server_device) = Some v)"
      using v(1) demo_facts by (auto simp: q(2) wants_mount_def)
  qed
qed

lemma mount_left_alone: "left_alone server_objects (mount_cluster r) (then_quiet mount_events) server_device 0"
  unfolding left_alone_def
proof (intro allI impI)
  fix n
  assume no: "\<forall>i failed. then_quiet mount_events n \<noteq> Queue (Finished i (MetaNamespaceKeyFunc server_device) failed)"
  have "n \<noteq> 8" "n \<noteq> 18" using no mount_event(3,6) by (auto simp: demo_facts)
  then have "cl_world (mount_cluster r (Suc n)) = cl_world (mount_cluster r n)" by (simp add: mount_cluster_def)
  then show "server_objects (ext (cl_world (mount_cluster r (Suc n)))) (bd_Namespace server_device) (bd_Name server_device)
      = server_objects (ext (cl_world (mount_cluster r n))) (bd_Namespace server_device) (bd_Name server_device)"
    by simp
qed

lemma mount_first_request: "first_request server_objects (mount_cluster r) server_device 0"
proof -
  have "v = server_device"
    if p: "p \<le> Suc 0" "reports_map (take (min p (Suc 0)) mount_log) ''ns/sda-n1'' = Some v" for p v
    using p mount_history_at [of p] by (auto simp: min_absorb1 split: if_splits)
  moreover have "server_objects (ext server_world) ''ns'' ''sda-n1'' = Some server_device"
    by (simp add: server_world_def stored_def demo_facts)
  ultimately show ?thesis by (auto simp: first_request_def mount_cluster_def demo_facts)
qed

lemma mount_device:
  "mounts_if_absent server_env demo_controller (mount_cluster r) server_device 0"
  "mounted_by_own_runs server_env demo_controller (mount_cluster r) (then_quiet mount_events) server_device 0"
proof -
  show "mounts_if_absent server_env demo_controller (mount_cluster r) server_device 0"
    using demo_mountable by (simp add: mounts_if_absent_def)
  have mount: "mount_call ''/dev/sda'' ''/data/'' \<in> set (new_calls server_world mounted_world)"
    and there: "fst (ext mounted_world)" "fst (ext guarded_world)"
    by code_simp+
  show "mounted_by_own_runs server_env demo_controller (mount_cluster r) (then_quiet mount_events) server_device 0"
    unfolding mounted_by_own_runs_def
  proof (intro allI impI, elim conjE)
    fix n
    assume absent: "unmounted server_env demo_controller server_device (cl_world (mount_cluster r n))"
      and no: "(\<forall>i failed. then_quiet mount_events n \<noteq> Queue (Finished i (MetaNamespaceKeyFunc server_device) failed))
        \<or> (\<forall>dev mp ty fl opt. CallMount dev mp ty fl opt
             \<notin> set (new_calls (cl_world (mount_cluster r n)) (cl_world (mount_cluster r (Suc n)))))"
    have "n \<le> 8" using absent there by (auto simp: demo_unmounted mount_cluster_def split: if_splits)
    moreover have "n \<noteq> 8" using no mount mount_event(3) by (auto simp: mount_cluster_def demo_facts)
    ultimately show "unmounted server_env demo_controller server_device (cl_world (mount_cluster r (Suc n)))"
      using absent by (simp add: mount_cluster_def)
  qed
qed

text \<open>The device is not mounted at first, and in the end it is.\<close>

theorem device_gets_mounted_witness:
  "\<exists>s e y m. fair_cluster server_env server_objects demo_controller ''h'' 2 [] s e
    \<and> server_objects (ext (cl_world (s 0))) ''ns'' ''sda-n1'' = Some server_device
    \<and> GetStatus DeviceMounted server_device \<noteq> ''True''
    \<and> (\<forall>n\<ge>m. server_objects (ext (cl_world (s n))) ''ns'' ''sda-n1'' = Some y)
    \<and> GetStatus DeviceMounted y = ''True''"
proof -
  obtain r where r: "fair_cluster server_env server_objects demo_controller ''h'' 2 [] (mount_cluster r) (then_quiet mount_events)"
    by (rule mount_run)
  have start: "server_objects (ext (cl_world (mount_cluster r 0))) ''ns'' ''sda-n1'' = Some server_device"
    by (simp add: mount_cluster_def server_world_def stored_def demo_facts)
  have covers: "covered bd_ObjectMeta (cl_informer (mount_cluster r n)) x (MetaNamespaceKeyFunc server_device)"
    if "then_quiet mount_events n = Report x" for n x
    using mount_events_facts(2) [OF that] by (simp add: demo_facts)
  have absent: "unmounted server_env demo_controller server_device (cl_world (mount_cluster r 0)) \<or> fs_valid server_device"
    by (simp add: demo_unmounted mount_cluster_def server_world_def)
  have "wants_mount server_device" "valid_device server_device" by (simp_all add: demo_facts demo_valid)
  from device_gets_mounted [OF server_env_laws server_env_answers server_env_accepts r _ mount_events_facts(1,3) covers
      mount_history_ok mount_left_alone this absent mount_device mount_first_request]
  obtain y m where "GetStatus DeviceMounted y = ''True''"
    "\<forall>n\<ge>m. server_objects (ext (cl_world (mount_cluster r n))) (bd_Namespace server_device) (bd_Name server_device) = Some y"
    by auto
  then show ?thesis using r start demo_not_mounted by (auto simp: demo_facts)
qed

end
