(* ===== verification/Command_Line.thy ===== *)
theory Command_Line
  imports Daemon
begin

text \<open>
  The command lines of the programs: the flags of \<open>main.go\<close> and of \<open>cmd/ndm_daemonset\<close>, the
  command line library behind them (\<open>vendor/github.com/urfave/cli/v2\<close>, with the package \<open>flag\<close> of
  the standard library), and \<open>main\<close> itself. A flag gets its value from the command line, else
  from its environment variable, else from its default.
\<close>

section \<open>Values\<close>

definition ParseBool :: "string \<Rightarrow> bool option" where
  "ParseBool s =
     (if s \<in> set [''1'', ''t'', ''T'', ''TRUE'', ''true'', ''True''] then Some True
      else if s \<in> set [''0'', ''f'', ''F'', ''FALSE'', ''false'', ''False''] then Some False
      else None)"

text \<open>
  \<open>strconv.ParseInt\<close> with base 0 and 64 bits: a prefix names the base, and underscores may
  separate digits. \<open>lower_byte\<close> sets the bit of the lower case.
\<close>

definition lower_byte :: "char \<Rightarrow> nat" where
  "lower_byte c = (let n = of_char c in if even (n div 32) then n + 32 else n)"

definition digit_of :: "char \<Rightarrow> nat option" where
  "digit_of c =
     (if is_digit c then Some (digit_val c)
      else if 97 \<le> lower_byte c \<and> lower_byte c \<le> 122 then Some (lower_byte c - 97 + 10)
      else None)"

fun parse_base :: "nat \<Rightarrow> nat \<Rightarrow> string \<Rightarrow> num_error + nat" where
  "parse_base base n [] = Inr n"
| "parse_base base n (c # cs) =
     (if c = CHR ''_'' then parse_base base n cs
      else case digit_of c of
             None \<Rightarrow> Inl ErrSyntax
           | Some d \<Rightarrow>
               if d \<ge> base then Inl ErrSyntax
               else if base * n + d \<ge> 2 ^ 64 then Inl ErrRange
               else parse_base base (base * n + d) cs)"

datatype last_seen = AtStart | AtDigit | AtUnderscore | AtOther

fun underscores_loop :: "bool \<Rightarrow> last_seen \<Rightarrow> string \<Rightarrow> bool" where
  "underscores_loop hex i [] \<longleftrightarrow> i \<noteq> AtUnderscore"
| "underscores_loop hex i (c # cs) \<longleftrightarrow>
     (if is_digit c \<or> hex \<and> 97 \<le> lower_byte c \<and> lower_byte c \<le> 102 then underscores_loop hex AtDigit cs
      else if c = CHR ''_'' then i = AtDigit \<and> underscores_loop hex AtUnderscore cs
      else i \<noteq> AtUnderscore \<and> underscores_loop hex AtOther cs)"

definition underscoreOK :: "string \<Rightarrow> bool" where
  "underscoreOK s =
     (if length s \<ge> 2 \<and> s ! 0 = CHR ''0'' \<and> lower_byte (s ! 1) \<in> set [98, 111, 120]
      then underscores_loop (lower_byte (s ! 1) = 120) AtDigit (drop 2 s)
      else underscores_loop False AtStart s)"

definition ParseUint0 :: "string \<Rightarrow> num_error + nat" where
  "ParseUint0 s =
     (if s = [] then Inl ErrSyntax
      else
        let prefixed = length s \<ge> 3 \<and> s ! 0 = CHR ''0'';
            (base, digits) =
              (if s ! 0 \<noteq> CHR ''0'' then (10, s)
               else if prefixed \<and> lower_byte (s ! 1) = 98 then (2, drop 2 s)
               else if prefixed \<and> lower_byte (s ! 1) = 111 then (8, drop 2 s)
               else if prefixed \<and> lower_byte (s ! 1) = 120 then (16, drop 2 s)
               else (8, drop 1 s))
        in case parse_base base 0 digits of
             Inl e \<Rightarrow> Inl e
           | Inr n \<Rightarrow> if CHR ''_'' \<in> set digits \<and> \<not> underscoreOK s then Inl ErrSyntax else Inr n)"

definition ParseInt0 :: "string \<Rightarrow> num_error + int" where
  "ParseInt0 s =
     (let neg = HasPrefix s ''-'';
          body = (if neg \<or> HasPrefix s ''+'' then drop 1 s else s)
      in if s = [] then Inl ErrSyntax
         else case ParseUint0 body of
                Inl e \<Rightarrow> Inl e
              | Inr n \<Rightarrow>
                  if \<not> neg \<and> n \<ge> 2 ^ 63 \<or> neg \<and> n > 2 ^ 63 then Inl ErrRange
                  else Inr (if neg then - int n else int n))"

section \<open>Flags\<close>

text \<open>
  The kinds of flags, each with its default value and the variable that it sets. Names and
  aliases have no commas or spaces, and no flag reads its value from a file.
\<close>

datatype 'st flag_kind =
    StringFlag string "string \<Rightarrow> 'st \<Rightarrow> 'st"
  | IntFlag int "int \<Rightarrow> 'st \<Rightarrow> 'st"
  | BoolFlag bool "bool \<Rightarrow> 'st \<Rightarrow> 'st"

record 'st cli_flag =
  cf_Name :: string
  cf_Aliases :: "string list"
  cf_EnvVars :: "string list"
  cf_DefaultText :: string
  cf_Usage :: string
  cf_Kind :: "'st flag_kind"

datatype cli_error =
    EnvValue string string
  | BadFlagSyntax string
  | NotDefined string
  | HelpRequested
  | InvalidBoolean string string
  | NeedsArgument string
  | InvalidValue string string
  | TwoForms string string

text \<open>What parsing fills: the variables of the program, the two flags of the library, and which names were used.\<close>

record 'o cli_state =
  cs_dest :: 'o
  cs_help :: bool
  cs_version :: bool
  cs_visited :: "string list"

fun flagFromEnv :: "(string \<Rightarrow> string option) \<Rightarrow> string list \<Rightarrow> string option" where
  "flagFromEnv getenv [] = None"
| "flagFromEnv getenv (v # vs) = (case getenv (TrimSpace v) of Some x \<Rightarrow> Some x | None \<Rightarrow> flagFromEnv getenv vs)"

definition flag_names :: "'st cli_flag \<Rightarrow> string list" where
  "flag_names f = cf_Name f # cf_Aliases f"

text \<open>An empty variable sets a string, but leaves a number or a truth value at its default.\<close>

definition Apply :: "(string \<Rightarrow> string option) \<Rightarrow> 'st cli_flag \<Rightarrow> 'st \<Rightarrow> cli_error + 'st" where
  "Apply getenv f st =
     (let val = flagFromEnv getenv (cf_EnvVars f)
      in case cf_Kind f of
           StringFlag v setter \<Rightarrow> Inr (setter (case val of Some x \<Rightarrow> x | None \<Rightarrow> v) st)
         | IntFlag v setter \<Rightarrow>
             (case val of
                Some x \<Rightarrow>
                  if x = [] then Inr (setter v st)
                  else (case ParseInt0 x of Inl e \<Rightarrow> Inl (EnvValue x (cf_Name f)) | Inr i \<Rightarrow> Inr (setter i st))
              | None \<Rightarrow> Inr (setter v st))
         | BoolFlag v setter \<Rightarrow>
             (case val of
                Some x \<Rightarrow>
                  if x = [] then Inr (setter v st)
                  else (case ParseBool x of None \<Rightarrow> Inl (EnvValue x (cf_Name f)) | Some b \<Rightarrow> Inr (setter b st))
              | None \<Rightarrow> Inr (setter v st)))"

fun flagSet :: "(string \<Rightarrow> string option) \<Rightarrow> 'st cli_flag list \<Rightarrow> 'st \<Rightarrow> cli_error + 'st" where
  "flagSet getenv [] st = Inr st"
| "flagSet getenv (f # fs) st = (case Apply getenv f st of Inl e \<Rightarrow> Inl e | Inr st \<Rightarrow> flagSet getenv fs st)"

definition HelpFlag :: "'o cli_state cli_flag" where
  "HelpFlag =
     \<lparr> cf_Name = ''help'', cf_Aliases = [''h''], cf_EnvVars = [], cf_DefaultText = [], cf_Usage = ''show help'',
       cf_Kind = BoolFlag False (\<lambda>b st. st\<lparr>cs_help := b\<rparr>) \<rparr>"

definition VersionFlag :: "'o cli_state cli_flag" where
  "VersionFlag =
     \<lparr> cf_Name = ''version'', cf_Aliases = [''v''], cf_EnvVars = [], cf_DefaultText = [],
       cf_Usage = ''print the version'', cf_Kind = BoolFlag False (\<lambda>b st. st\<lparr>cs_version := b\<rparr>) \<rparr>"

section \<open>Parsing\<close>

definition find_flag :: "string \<Rightarrow> 'st cli_flag list \<Rightarrow> 'st flag_kind option" where
  "find_flag name fs = map_option cf_Kind (find (\<lambda>f. name \<in> set (flag_names f)) fs)"

fun set_value :: "'st flag_kind \<Rightarrow> string \<Rightarrow> ('st \<Rightarrow> 'st) option" where
  "set_value (StringFlag v setter) x = Some (setter x)"
| "set_value (IntFlag v setter) x = (case ParseInt0 x of Inl e \<Rightarrow> None | Inr i \<Rightarrow> Some (setter i))"
| "set_value (BoolFlag v setter) x = map_option setter (ParseBool x)"

definition is_bool :: "'st flag_kind \<Rightarrow> bool" where
  "is_bool k = (case k of BoolFlag v setter \<Rightarrow> True | _ \<Rightarrow> False)"

definition split_value :: "string \<Rightarrow> string \<times> string option" where
  "split_value s =
     (let name = takeWhile (\<lambda>c. c \<noteq> CHR ''='') s
      in (name, if length name < length s then Some (drop (Suc (length name)) s) else None))"

definition visit :: "string \<Rightarrow> ('o cli_state \<Rightarrow> 'o cli_state) \<Rightarrow> 'o cli_state \<Rightarrow> 'o cli_state" where
  "visit name setter st = (setter st)\<lparr>cs_visited := cs_visited st @ [name]\<rparr>"

text \<open>
  \<open>FlagSet.Parse\<close>: flags up to the first argument that is none, or up to \<open>--\<close>. A flag that is not
  a truth value takes the next argument if it has no \<open>=\<close>. The first error ends the parsing;
  what was set before stays set.
\<close>

fun parse_args ::
    "'o cli_state cli_flag list \<Rightarrow> string list \<Rightarrow> 'o cli_state \<Rightarrow> cli_error option \<times> string list \<times> 'o cli_state" where
  "parse_args fs [] st = (None, [], st)"
| "parse_args fs (s # rest) st =
     (if length s < 2 \<or> s ! 0 \<noteq> CHR ''-'' then (None, s # rest, st)
      else if s = ''--'' then (None, rest, st)
      else
        let arg = drop (if s ! 1 = CHR ''-'' then 2 else 1) s
        in if arg = [] \<or> hd arg = CHR ''-'' \<or> hd arg = CHR ''='' then (Some (BadFlagSyntax s), s # rest, st)
           else
             let (name, value) = split_value arg
             in case find_flag name fs of
                  None \<Rightarrow> (Some (if name = ''help'' \<or> name = ''h'' then HelpRequested else NotDefined name), rest, st)
                | Some k \<Rightarrow>
                    if is_bool k then
                      (case set_value k (case value of Some v \<Rightarrow> v | None \<Rightarrow> ''true'') of
                         None \<Rightarrow> (Some (InvalidBoolean (case value of Some v \<Rightarrow> v | None \<Rightarrow> []) name), rest, st)
                       | Some setter \<Rightarrow> parse_args fs rest (visit name setter st))
                    else
                      (case value of
                         Some v \<Rightarrow>
                           (case set_value k v of
                              None \<Rightarrow> (Some (InvalidValue v name), rest, st)
                            | Some setter \<Rightarrow> parse_args fs rest (visit name setter st))
                       | None \<Rightarrow>
                           (case rest of
                              [] \<Rightarrow> (Some (NeedsArgument name), [], st)
                            | v # rest' \<Rightarrow>
                                (case set_value k v of
                                   None \<Rightarrow> (Some (InvalidValue v name), rest', st)
                                 | Some setter \<Rightarrow> parse_args fs rest' (visit name setter st)))))"

text \<open>A flag may be used under one of its names only.\<close>

fun normalizeFlags :: "'st cli_flag list \<Rightarrow> string list \<Rightarrow> cli_error option" where
  "normalizeFlags [] visited = None"
| "normalizeFlags (f # fs) visited =
     (case filter (\<lambda>n. n \<in> set visited) (flag_names f) of
        a # b # others \<Rightarrow> Some (TwoForms b a)
      | _ \<Rightarrow> normalizeFlags fs visited)"

section \<open>The application\<close>

record 'o App =
  ap_Name :: string
  ap_Version :: string
  ap_Usage :: string
  ap_Flags :: "'o cli_state cli_flag list"

datatype 'o cli_result =
    CliError cli_error
  | CliHelp
  | CliVersion
  | CliHelpCommand "string list"
  | CliAction 'o

text \<open>\<open>Setup\<close> adds the help command, the help flag and, if there is a version, the version flag.\<close>

definition all_flags :: "'o App \<Rightarrow> 'o cli_state cli_flag list" where
  "all_flags app = ap_Flags app @ [HelpFlag] @ (if ap_Version app \<noteq> [] then [VersionFlag] else [])"

definition app_Run :: "(string \<Rightarrow> string option) \<Rightarrow> 'o App \<Rightarrow> 'o \<Rightarrow> string list \<Rightarrow> 'o cli_result" where
  "app_Run getenv app vars args =
     (case flagSet getenv (all_flags app) \<lparr>cs_dest = vars, cs_help = False, cs_version = False, cs_visited = []\<rparr> of
        Inl e \<Rightarrow> CliError e
      | Inr st \<Rightarrow>
          (let (err, rest, st) = parse_args (all_flags app) (drop 1 args) st
           in case normalizeFlags (all_flags app) (cs_visited st) of
                Some e \<Rightarrow> CliError e
              | None \<Rightarrow>
                  (case err of
                     Some e \<Rightarrow> CliError e
                   | None \<Rightarrow>
                       if cs_help st then CliHelp
                       else if cs_version st then CliVersion
                       else if rest \<noteq> [] \<and> hd rest \<in> set [''help'', ''h''] then CliHelpCommand (tl rest)
                       else CliAction (cs_dest st))))"

section \<open>The flags of the node disk manager\<close>

definition setting_flag ::
    "string \<Rightarrow> string list \<Rightarrow> string \<Rightarrow> string \<Rightarrow> 'st flag_kind \<Rightarrow> 'st cli_flag" where
  "setting_flag name vars text usage kind =
     \<lparr> cf_Name = name, cf_Aliases = [], cf_EnvVars = vars, cf_DefaultText = text, cf_Usage = usage, cf_Kind = kind \<rparr>"

definition dest :: "('a \<Rightarrow> 'o \<Rightarrow> 'o) \<Rightarrow> 'a \<Rightarrow> 'o cli_state \<Rightarrow> 'o cli_state" where
  "dest f v st = st\<lparr>cs_dest := f v (cs_dest st)\<rparr>"

definition main_flags :: "Option cli_state cli_flag list" where
  "main_flags =
     [ setting_flag ''kubeconfig'' [''KUBECONFIG''] [] ''Kube config for accessing k8s cluster''
         (StringFlag [] (dest (\<lambda>v opt. opt\<lparr>opt_KubeConfig := v\<rparr>))),
       setting_flag ''namespace'' [''LONGHORN_NAMESPACE''] ''longhorn-system'' []
         (StringFlag [] (dest (\<lambda>v opt. opt\<lparr>opt_Namespace := v\<rparr>))),
       setting_flag ''threadiness'' [] ''2'' []
         (IntFlag 0 (dest (\<lambda>v opt. opt\<lparr>opt_Threadiness := v\<rparr>))),
       setting_flag ''debug'' [''NDM_DEBUG''] [] ''enable debug logs''
         (BoolFlag False (dest (\<lambda>v opt. opt\<lparr>opt_Debug := v\<rparr>))),
       setting_flag ''profile-listen-address'' [] [] ''Address to listen on for profiling''
         (StringFlag ''0.0.0.0:6060'' (dest (\<lambda>v opt. opt\<lparr>opt_ProfilerAddress := v\<rparr>))),
       setting_flag ''trace'' [''NDM_TRACE''] [] ''Enable trace logs''
         (BoolFlag False (dest (\<lambda>v opt. opt\<lparr>opt_Trace := v\<rparr>))),
       setting_flag ''log-format'' [''NDM_LOG_FORMAT''] [] ''Log format''
         (StringFlag ''text'' (dest (\<lambda>v opt. opt\<lparr>opt_LogFormat := v\<rparr>))),
       setting_flag ''node-name'' [''NODE_NAME''] [] ''Specify the node name''
         (StringFlag [] (dest (\<lambda>v opt. opt\<lparr>opt_NodeName := v\<rparr>))) ]"

definition main_app :: "string \<Rightarrow> string \<Rightarrow> Option App" where
  "main_app Version GitCommit =
     \<lparr> ap_Name = ''node-disk-manager'', ap_Version = FriendlyVersion Version GitCommit,
       ap_Usage = ''node-disk-manager help to manage node disks, implementing block device partition and file system formatting.'',
       ap_Flags = main_flags \<rparr>"

definition zero_Option :: Option where
  "zero_Option =
     \<lparr> opt_KubeConfig = [], opt_Namespace = [], opt_NodeName = [], opt_Threadiness = 0,
       opt_Debug = False, opt_Trace = False, opt_LogFormat = [], opt_ProfilerAddress = [] \<rparr>"

text \<open>
  \<open>main\<close>: what the process does first with its options (the address on which it is profiled, the
  format and level of its log), and then the result of \<open>run\<close>. The library returns every error
  to \<open>main\<close>, which logs it and exits.
\<close>

datatype main_result =
    MainPrints
  | MainFatalUsage cli_error
  | MainFatal go_error
  | MainRuns "string option" "formatter \<times> log_level" run_result

definition main_action :: "(Option \<Rightarrow> 'w world \<Rightarrow> (run_result \<times> 'w world) outcome) \<Rightarrow> Option \<Rightarrow> 'w world \<Rightarrow>
    (main_result \<times> 'w world) outcome" where
  "main_action run_opt opt w =
     (let profiling = initProfiling opt;
          logs = initLogs opt
      in bind_outcome (run_opt opt w) (\<lambda>(r, w).
           Ret (case r of RunError err \<Rightarrow> MainFatal err | _ \<Rightarrow> MainRuns profiling logs r, w)))"

definition main ::
    "string \<Rightarrow> string \<Rightarrow> (string \<Rightarrow> string option) \<Rightarrow> (Option \<Rightarrow> 'w world \<Rightarrow> (run_result \<times> 'w world) outcome) \<Rightarrow>
     string list \<Rightarrow> 'w world \<Rightarrow> (main_result \<times> 'w world) outcome" where
  "main Version GitCommit getenv run_opt args w =
     (case app_Run getenv (main_app Version GitCommit) zero_Option args of
        CliError e \<Rightarrow> Ret (MainFatalUsage e, w)
      | CliAction opt \<Rightarrow> main_action run_opt opt w
      | _ \<Rightarrow> Ret (MainPrints, w))"

section \<open>The scan printer\<close>

text \<open>
  \<open>cmd/ndm_daemonset\<close> prints what the library \<open>ghw\<close> finds. Its flag sets no variable. \<open>scan\<close> is the
  library's result, \<open>show\<close> are its renderings; the log lines are returned.
\<close>

definition ndm_app :: "string \<Rightarrow> string \<Rightarrow> unit App" where
  "ndm_app Version GitCommit =
     \<lparr> ap_Name = ''ndm'', ap_Version = FriendlyVersion Version GitCommit, ap_Usage = ''ndm daemonset.'',
       ap_Flags = [setting_flag ''kubeconfig'' [''KUBECONFIG''] [] [] (StringFlag [] (dest (\<lambda>v u. u)))] \<rparr>"

record ('b, 'd, 'p) ghw_scan =
  gs_Disks :: "'b \<Rightarrow> 'd list"
  gs_Partitions :: "'d \<Rightarrow> 'p list"
  gs_ShowBlock :: "'b \<Rightarrow> string"
  gs_ShowDisk :: "'d \<Rightarrow> string"
  gs_ShowPart :: "'p \<Rightarrow> string"

definition ndm_run :: "('b, 'd, 'p) ghw_scan \<Rightarrow> string + 'b \<Rightarrow> string + string list" where
  "ndm_run g scan =
     (case scan of
        Inl err \<Rightarrow> Inl (''Error getting block storage info: '' @ err)
      | Inr block \<Rightarrow>
          Inr ((''block: '' @ gs_ShowBlock g block @ [CHR 0x0A])
            # concat (map (\<lambda>disk.
                ('' disk: '' @ gs_ShowDisk g disk @ [CHR 0x0A])
                # map (\<lambda>part. [CHR 0x09] @ ''part: '' @ gs_ShowPart g part @ [CHR 0x0A]) (gs_Partitions g disk))
              (gs_Disks g block))))"

datatype ndm_result = NdmPrints | NdmFatalUsage cli_error | NdmFatal string | NdmLogs "string list"

definition ndm_main ::
    "string \<Rightarrow> string \<Rightarrow> (string \<Rightarrow> string option) \<Rightarrow> ('b, 'd, 'p) ghw_scan \<Rightarrow> string + 'b \<Rightarrow> string list \<Rightarrow> ndm_result" where
  "ndm_main Version GitCommit getenv g scan args =
     (case app_Run getenv (ndm_app Version GitCommit) () args of
        CliError e \<Rightarrow> NdmFatalUsage e
      | CliAction u \<Rightarrow> (case ndm_run g scan of Inl msg \<Rightarrow> NdmFatal msg | Inr ls \<Rightarrow> NdmLogs ls)
      | _ \<Rightarrow> NdmPrints)"

section \<open>The code generation\<close>

text \<open>
  \<open>pkg/codegen\<close> runs the generator of the wrangler library on the two resource types, and
  \<open>pkg/codegen/cleanup\<close> removes what an earlier run generated. What these library functions do
  to the files is a parameter.
\<close>

record codegen_group =
  cg_Types :: "string list"
  cg_GenerateTypes :: bool
  cg_GenerateClients :: bool

record codegen_options =
  co_OutputPackage :: string
  co_Boilerplate :: string
  co_Groups :: "(string \<times> codegen_group) list"

definition ndm_codegen_options :: codegen_options where
  "ndm_codegen_options =
     \<lparr> co_OutputPackage = ''github.com/longhorn/node-disk-manager/pkg/generated'',
       co_Boilerplate = ''scripts/boilerplate.go.txt'',
       co_Groups =
         [(''longhorn.io'',
           \<lparr> cg_Types = [''BlockDevice'', ''Node''], cg_GenerateTypes = True, cg_GenerateClients = False \<rparr>)] \<rparr>"

definition codegen_main ::
    "((string \<Rightarrow> string option) \<Rightarrow> codegen_options \<Rightarrow> 'w \<Rightarrow> 'w) \<Rightarrow> (string \<Rightarrow> string option) \<Rightarrow> 'w \<Rightarrow> 'w" where
  "codegen_main generate getenv w = generate (getenv(''GOPATH'' := None)) ndm_codegen_options w"

text \<open>The first failure ends the process.\<close>

definition cleanup_main ::
    "(string \<Rightarrow> 'w \<Rightarrow> string option \<times> 'w) \<Rightarrow> (string \<Rightarrow> 'w \<Rightarrow> string option \<times> 'w) \<Rightarrow> 'w \<Rightarrow> string option \<times> 'w" where
  "cleanup_main Cleanup RemoveAll w =
     (case Cleanup ''./pkg/apis'' w of
        (Some err, w) \<Rightarrow> (Some err, w)
      | (None, w) \<Rightarrow> RemoveAll ''./pkg/generated'' w)"

end
