(* ===== verification/Command_Line_Props.thy ===== *)
theory Command_Line_Props
  imports Command_Line Generated
begin

text \<open>
  What the options of the program are for a command line and an environment. The arguments are
  given as settings, each of which has a rendering as one or two words; the specification
  ignores the parser: the last setting of an option wins, over its environment variable, over its default.
\<close>

section \<open>Numbers\<close>

lemma digit_of_digit: "is_digit c \<Longrightarrow> digit_of c = Some (digit_val c)"
  by (simp add: digit_of_def)

lemma digit_val_less: "is_digit c \<Longrightarrow> digit_val c < 10"
  unfolding is_digit_def digit_val_def by arith

lemma digit_neq: "is_digit c \<Longrightarrow> c \<notin> {CHR ''_'', CHR ''-'', CHR ''+''}"
  by (auto simp: is_digit_def)

lemma digits_decimal: "list_all is_digit (decimal n)"
proof (induction n rule: decimal.induct)
  case (1 n)
  then show ?case by (subst decimal.simps) auto
qed

lemma parse_base_digits: "list_all is_digit s \<Longrightarrow> parse_base 10 n s = parse_digits n s"
  by (induction s arbitrary: n) (use digit_neq in \<open>auto simp: digit_of_digit dest!: digit_val_less\<close>)

lemma hd_decimal: "0 < n \<Longrightarrow> hd (decimal n) \<noteq> CHR ''0''"
proof (induction n rule: decimal.induct)
  case (1 n)
  show ?case
  proof (cases "n < 10")
    case True
    have "of_char (char_of (48 + n)) \<noteq> (of_char (CHR ''0'') :: nat)"
      using True 1(2) by (subst of_char_digit) auto
    then have "char_of (48 + n) \<noteq> CHR ''0''" by metis
    with True show ?thesis by (subst decimal.simps) simp
  next
    case False
    with 1 have "hd (decimal (n div 10)) \<noteq> CHR ''0''" by auto
    with False show ?thesis by (subst decimal.simps) simp
  qed
qed

lemma ParseUint0_decimal:
  assumes "n < 2 ^ 64"
  shows "ParseUint0 (decimal n) = Inr n"
proof (cases "n = 0")
  case True
  have "decimal 0 = ''0''" by code_simp
  with True show ?thesis by (simp add: ParseUint0_def)
next
  case False
  then have "decimal n ! 0 \<noteq> CHR ''0''" using hd_decimal [of n] by (simp add: hd_conv_nth)
  moreover have "CHR ''_'' \<notin> set (decimal n)"
    using digits_decimal [of n] by (auto simp: list_all_iff is_digit_def)
  moreover have "parse_base 10 0 (decimal n) = Inr n"
    using parse_base_digits [OF digits_decimal] parse_digits_decimal [OF assms] by simp
  ultimately show ?thesis by (simp add: ParseUint0_def)
qed

definition int_arg :: "int \<Rightarrow> string" where
  "int_arg n = (if n < 0 then ''-'' @ decimal (nat (- n)) else decimal (nat n))"

lemma no_sign: "\<not> HasPrefix (decimal n) ''-'' \<and> \<not> HasPrefix (decimal n) ''+''"
proof -
  obtain c cs where eq: "decimal n = c # cs" by (cases "decimal n") auto
  then have "is_digit c" using digits_decimal [of n] by simp
  then show ?thesis using digit_neq [of c] by (auto simp: eq HasPrefix_def)
qed

lemma ParseInt0_int_arg:
  assumes "- (2 ^ 63) \<le> n" and "n < 2 ^ 63"
  shows "ParseInt0 (int_arg n) = Inr n"
proof (cases "n < 0")
  case True
  then have "ParseUint0 (decimal (nat (- n))) = Inr (nat (- n))"
    using assms(1) by (simp add: ParseUint0_decimal)
  moreover have "nat (- n) \<le> 2 ^ 63" using assms(1) by simp
  ultimately show ?thesis using True by (simp add: ParseInt0_def int_arg_def HasPrefix_def)
next
  case False
  then have "ParseUint0 (decimal (nat n)) = Inr (nat n)"
    using assms(2) False by (simp add: ParseUint0_decimal)
  moreover have "\<not> nat n \<ge> 2 ^ 63" using assms(2) False by simp
  ultimately show ?thesis using False no_sign [of "nat n"] by (simp add: ParseInt0_def int_arg_def Let_def)
qed


section \<open>Parsing\<close>

lemma split_value_word:
  assumes "CHR ''='' \<notin> set name"
  shows "split_value (name @ CHR ''='' # v) = (name, Some v)"
proof -
  have "takeWhile (\<lambda>c. c \<noteq> CHR ''='') (name @ CHR ''='' # v) = name"
    using assms by (induction name) auto
  then show ?thesis by (simp add: split_value_def Let_def del: takeWhile_eq_all_conv)
qed

lemma split_value_name:
  assumes "CHR ''='' \<notin> set name"
  shows "split_value name = (name, None)"
proof -
  have "takeWhile (\<lambda>c. c \<noteq> CHR ''='') name = name"
    using assms by (induction name) auto
  then show ?thesis by (simp add: split_value_def Let_def del: takeWhile_eq_all_conv)
qed

definition plain_name :: "string \<Rightarrow> bool" where
  "plain_name name \<longleftrightarrow> name \<noteq> [] \<and> hd name \<noteq> CHR ''-'' \<and> CHR ''='' \<notin> set name"

definition flag_word :: "string \<Rightarrow> string" where
  "flag_word name = ''--'' @ name"

text \<open>One flag: in one word with its value, in two words, or a truth value without one.\<close>

lemma parse_args_word:
  assumes "plain_name name" and "find_flag name fs = Some k" and "set_value k v = Some setter"
  shows "parse_args fs ((flag_word name @ ''='' @ v) # rest) st = parse_args fs rest (visit name setter st)"
proof -
  obtain a list where name: "name = a # list" "a \<noteq> CHR ''-''" "a \<noteq> CHR ''=''" "CHR ''='' \<notin> set name"
    using assms(1) by (cases name) (auto simp: plain_name_def)
  note split = split_value_word [OF name(4), of v]
  show ?thesis
    using assms(2,3) split name(2,3) by (simp add: name(1) flag_word_def)
qed

lemma parse_args_two_words:
  assumes "plain_name name" and "find_flag name fs = Some k" and "\<not> is_bool k" and "set_value k v = Some setter"
  shows "parse_args fs (flag_word name # v # rest) st = parse_args fs rest (visit name setter st)"
proof -
  obtain a list where name: "name = a # list" "a \<noteq> CHR ''-''" "a \<noteq> CHR ''=''" "CHR ''='' \<notin> set name"
    using assms(1) by (cases name) (auto simp: plain_name_def)
  note split = split_value_name [OF name(4)]
  show ?thesis
    using assms(2-4) split name(2,3) by (simp add: name(1) flag_word_def)
qed

lemma parse_args_bool:
  assumes "plain_name name" and "find_flag name fs = Some k" and "is_bool k" and "set_value k ''true'' = Some setter"
  shows "parse_args fs (flag_word name # rest) st = parse_args fs rest (visit name setter st)"
proof -
  obtain a list where name: "name = a # list" "a \<noteq> CHR ''-''" "a \<noteq> CHR ''=''" "CHR ''='' \<notin> set name"
    using assms(1) by (cases name) (auto simp: plain_name_def)
  note split = split_value_name [OF name(4)]
  show ?thesis
    using assms(2-4) split name(2,3) by (simp add: name(1) flag_word_def)
qed

lemma normalizeFlags_single:
  "(\<And>f. f \<in> set fs \<Longrightarrow> \<exists>n. filter (\<lambda>n. n \<in> set visited) (flag_names f) = [n]
      \<or> filter (\<lambda>n. n \<in> set visited) (flag_names f) = []) \<Longrightarrow> normalizeFlags fs visited = None"
proof (induction fs)
  case (Cons f fs)
  then have "normalizeFlags fs visited = None" by simp
  with Cons.prems [of f] show ?case by auto
qed simp

section \<open>Settings\<close>

datatype setting =
    SetKubeConfig string
  | SetNamespace string
  | SetThreadiness int
  | SetDebug bool
  | SetProfilerAddress string
  | SetTrace bool
  | SetLogFormat string
  | SetNodeName string

fun setting_name :: "setting \<Rightarrow> string" where
  "setting_name (SetKubeConfig v) = ''kubeconfig''"
| "setting_name (SetNamespace v) = ''namespace''"
| "setting_name (SetThreadiness n) = ''threadiness''"
| "setting_name (SetDebug b) = ''debug''"
| "setting_name (SetProfilerAddress v) = ''profile-listen-address''"
| "setting_name (SetTrace b) = ''trace''"
| "setting_name (SetLogFormat v) = ''log-format''"
| "setting_name (SetNodeName v) = ''node-name''"

definition bool_arg :: "bool \<Rightarrow> string" where
  "bool_arg b = (if b then ''true'' else ''false'')"

fun setting_value :: "setting \<Rightarrow> string" where
  "setting_value (SetKubeConfig v) = v"
| "setting_value (SetNamespace v) = v"
| "setting_value (SetThreadiness n) = int_arg n"
| "setting_value (SetDebug b) = bool_arg b"
| "setting_value (SetProfilerAddress v) = v"
| "setting_value (SetTrace b) = bool_arg b"
| "setting_value (SetLogFormat v) = v"
| "setting_value (SetNodeName v) = v"

datatype form = OneWord | Short

text \<open>
  The short form has the value in a word of its own, or is the flag alone for a truth value that
  is set; a truth value that is cleared has one form only.
\<close>

fun setting_args :: "form \<times> setting \<Rightarrow> string list" where
  "setting_args (Short, SetDebug True) = [flag_word ''debug'']"
| "setting_args (Short, SetTrace True) = [flag_word ''trace'']"
| "setting_args (Short, SetKubeConfig v) = [flag_word ''kubeconfig'', v]"
| "setting_args (Short, SetNamespace v) = [flag_word ''namespace'', v]"
| "setting_args (Short, SetThreadiness n) = [flag_word ''threadiness'', int_arg n]"
| "setting_args (Short, SetProfilerAddress v) = [flag_word ''profile-listen-address'', v]"
| "setting_args (Short, SetLogFormat v) = [flag_word ''log-format'', v]"
| "setting_args (Short, SetNodeName v) = [flag_word ''node-name'', v]"
| "setting_args (how, s) = [flag_word (setting_name s) @ ''='' @ setting_value s]"

fun apply_setting :: "setting \<Rightarrow> Option \<Rightarrow> Option" where
  "apply_setting (SetKubeConfig v) opt = opt\<lparr>opt_KubeConfig := v\<rparr>"
| "apply_setting (SetNamespace v) opt = opt\<lparr>opt_Namespace := v\<rparr>"
| "apply_setting (SetThreadiness n) opt = opt\<lparr>opt_Threadiness := n\<rparr>"
| "apply_setting (SetDebug b) opt = opt\<lparr>opt_Debug := b\<rparr>"
| "apply_setting (SetProfilerAddress v) opt = opt\<lparr>opt_ProfilerAddress := v\<rparr>"
| "apply_setting (SetTrace b) opt = opt\<lparr>opt_Trace := b\<rparr>"
| "apply_setting (SetLogFormat v) opt = opt\<lparr>opt_LogFormat := v\<rparr>"
| "apply_setting (SetNodeName v) opt = opt\<lparr>opt_NodeName := v\<rparr>"

text \<open>The numbers that a Go \<open>int\<close> can hold.\<close>

fun setting_ok :: "setting \<Rightarrow> bool" where
  "setting_ok (SetThreadiness n) \<longleftrightarrow> - (2 ^ 63) \<le> n \<and> n < 2 ^ 63"
| "setting_ok s \<longleftrightarrow> True"

definition the_flags :: "string \<Rightarrow> string \<Rightarrow> Option cli_state cli_flag list" where
  "the_flags V C = all_flags (main_app V C)"

lemma the_flags_eq: "the_flags V C = main_flags @ [HelpFlag, VersionFlag]"
  by (simp add: the_flags_def all_flags_def main_app_def FriendlyVersion_def)

lemma find_flag_Cons:
  "find_flag n (setting_flag name vars t u k # fs) = (if n = name then Some k else find_flag n fs)"
  by (simp add: find_flag_def flag_names_def setting_flag_def)

lemma find_flag_append:
  "find_flag n fs = Some k \<Longrightarrow> find_flag n (fs @ gs) = Some k"
  by (induction fs) (auto simp: find_flag_def split: if_splits)

lemma ParseBool_arg [simp]: "ParseBool (bool_arg b) = Some b" "ParseBool ''true'' = Some True"
  by (simp_all add: ParseBool_def bool_arg_def)

fun setting_kind :: "setting \<Rightarrow> Option cli_state flag_kind" where
  "setting_kind (SetKubeConfig v) = StringFlag [] (dest (\<lambda>v opt. opt\<lparr>opt_KubeConfig := v\<rparr>))"
| "setting_kind (SetNamespace v) = StringFlag [] (dest (\<lambda>v opt. opt\<lparr>opt_Namespace := v\<rparr>))"
| "setting_kind (SetThreadiness n) = IntFlag 0 (dest (\<lambda>v opt. opt\<lparr>opt_Threadiness := v\<rparr>))"
| "setting_kind (SetDebug b) = BoolFlag False (dest (\<lambda>v opt. opt\<lparr>opt_Debug := v\<rparr>))"
| "setting_kind (SetProfilerAddress v) =
     StringFlag ''0.0.0.0:6060'' (dest (\<lambda>v opt. opt\<lparr>opt_ProfilerAddress := v\<rparr>))"
| "setting_kind (SetTrace b) = BoolFlag False (dest (\<lambda>v opt. opt\<lparr>opt_Trace := v\<rparr>))"
| "setting_kind (SetLogFormat v) = StringFlag ''text'' (dest (\<lambda>v opt. opt\<lparr>opt_LogFormat := v\<rparr>))"
| "setting_kind (SetNodeName v) = StringFlag [] (dest (\<lambda>v opt. opt\<lparr>opt_NodeName := v\<rparr>))"

lemma find_main_flag: "find_flag (setting_name s) (the_flags V C) = Some (setting_kind s)"
  unfolding the_flags_eq
  by (rule find_flag_append, cases s) (simp_all add: main_flags_def find_flag_Cons)

lemma setting_kind_value:
  "setting_ok s \<Longrightarrow> set_value (setting_kind s) (setting_value s) =
     Some (\<lambda>st. st\<lparr>cs_dest := apply_setting s (cs_dest st)\<rparr>)"
  by (cases s) (simp_all add: fun_eq_iff dest_def ParseInt0_int_arg)

lemma plain_setting_name: "plain_name (setting_name s)"
  by (cases s) (simp_all add: plain_name_def)


lemma parse_setting:
  assumes "setting_ok s"
  shows "parse_args (the_flags V C) (setting_args (how, s) @ rest) st =
    parse_args (the_flags V C) rest (visit (setting_name s) (\<lambda>st. st\<lparr>cs_dest := apply_setting s (cs_dest st)\<rparr>) st)"
    (is "_ = ?next")
proof -
  note flag = plain_setting_name [of s] find_main_flag [of s V C]
  note word = parse_args_word [OF flag setting_kind_value [OF assms], of rest st]
  have two: "\<not> is_bool (setting_kind s) \<Longrightarrow>
      parse_args (the_flags V C) (flag_word (setting_name s) # setting_value s # rest) st = ?next"
    by (rule parse_args_two_words [OF flag _ setting_kind_value [OF assms]])
  have alone: "is_bool (setting_kind s) \<Longrightarrow> setting_value s = ''true'' \<Longrightarrow>
      parse_args (the_flags V C) (flag_word (setting_name s) # rest) st = ?next"
    using parse_args_bool [OF flag] setting_kind_value [OF assms] by auto
  show ?thesis
    by (cases "(how, s)" rule: setting_args.cases) (use word two alone in \<open>auto simp: is_bool_def bool_arg_def\<close>)
qed

definition settings_args :: "(form \<times> setting) list \<Rightarrow> string list" where
  "settings_args ss = concat (map setting_args ss)"

lemma parse_settings:
  "list_all (\<lambda>x. setting_ok (snd x)) ss \<Longrightarrow>
   parse_args (the_flags V C) (settings_args ss) st =
     (None, [], st\<lparr>cs_dest := fold apply_setting (map snd ss) (cs_dest st),
        cs_visited := cs_visited st @ map (setting_name \<circ> snd) ss\<rparr>)"
proof (induction ss arbitrary: st)
  case (Cons x ss)
  obtain how s where x: "x = (how, s)" by fastforce
  show ?case
    using Cons parse_setting [of s V C how "settings_args ss" st]
    by (simp add: x settings_args_def visit_def)
qed (simp add: settings_args_def)

lemma setting_name_neq: "n \<in> {''help'', ''h'', ''version'', ''v''} \<Longrightarrow> setting_name s \<noteq> n"
  by (cases s) auto

lemma single_names: "list_all (\<lambda>f. flag_names f = [cf_Name f]) main_flags"
  by (simp add: main_flags_def setting_flag_def flag_names_def)

lemma normalize_settings: "normalizeFlags (the_flags V C) (map (setting_name \<circ> snd) ss) = None"
proof (rule normalizeFlags_single)
  fix f assume "f \<in> set (the_flags V C)"
  then consider "f \<in> set main_flags" | "f = HelpFlag" | "f = VersionFlag"
    unfolding the_flags_eq by force
  then consider n where "flag_names f = [n]" | "set (flag_names f) \<subseteq> {''help'', ''h'', ''version'', ''v''}"
  proof cases
    case 1
    then have "flag_names f = [cf_Name f]" using single_names by (simp only: list_all_iff)
    then show ?thesis by (rule that(1))
  next
    case 2
    show ?thesis by (rule that(2)) (simp add: 2 flag_names_def HelpFlag_def)
  next
    case 3
    show ?thesis by (rule that(2)) (simp add: 3 flag_names_def VersionFlag_def)
  qed
  then show "\<exists>n. filter (\<lambda>n. n \<in> set (map (setting_name \<circ> snd) ss)) (flag_names f) = [n]
      \<or> filter (\<lambda>n. n \<in> set (map (setting_name \<circ> snd) ss)) (flag_names f) = []"
  proof cases
    case 2
    have "n \<notin> set (map (setting_name \<circ> snd) ss)" if "n \<in> set (flag_names f)" for n
    proof
      assume "n \<in> set (map (setting_name \<circ> snd) ss)"
      then obtain s where "setting_name s = n" by auto
      with setting_name_neq [OF subsetD [OF 2 that]] show False by blast
    qed
    then have "filter (\<lambda>n. n \<in> set (map (setting_name \<circ> snd) ss)) (flag_names f) = []"
      by (intro filter_False ballI)
    then show ?thesis by blast
  qed simp
qed

section \<open>The environment\<close>

definition env_text :: "(string \<Rightarrow> string option) \<Rightarrow> string \<Rightarrow> string \<Rightarrow> string" where
  "env_text getenv var def_value = (case getenv var of Some x \<Rightarrow> x | None \<Rightarrow> def_value)"

definition env_switch :: "(string \<Rightarrow> string option) \<Rightarrow> string \<Rightarrow> bool" where
  "env_switch getenv var = (case getenv var of Some x \<Rightarrow> ParseBool x = Some True | None \<Rightarrow> False)"

definition bad_switch :: "(string \<Rightarrow> string option) \<Rightarrow> string \<Rightarrow> string option" where
  "bad_switch getenv var =
     (case getenv var of Some x \<Rightarrow> if x \<noteq> [] \<and> ParseBool x = None then Some x else None | None \<Rightarrow> None)"

definition env_options :: "(string \<Rightarrow> string option) \<Rightarrow> Option" where
  "env_options getenv =
     \<lparr> opt_KubeConfig = env_text getenv ''KUBECONFIG'' [],
       opt_Namespace = env_text getenv ''LONGHORN_NAMESPACE'' [],
       opt_NodeName = env_text getenv ''NODE_NAME'' [],
       opt_Threadiness = 0,
       opt_Debug = env_switch getenv ''NDM_DEBUG'',
       opt_Trace = env_switch getenv ''NDM_TRACE'',
       opt_LogFormat = env_text getenv ''NDM_LOG_FORMAT'' ''text'',
       opt_ProfilerAddress = ''0.0.0.0:6060'' \<rparr>"

definition fresh :: "Option \<Rightarrow> Option cli_state" where
  "fresh opt = \<lparr>cs_dest = opt, cs_help = False, cs_version = False, cs_visited = []\<rparr>"

lemma flagSet_append:
  "flagSet getenv (fs @ gs) st = (case flagSet getenv fs st of Inl e \<Rightarrow> Inl e | Inr st \<Rightarrow> flagSet getenv gs st)"
  by (induction fs arbitrary: st) (auto split: sum.splits)

lemma TrimSpace_vars [simp]:
  "TrimSpace ''KUBECONFIG'' = ''KUBECONFIG''" "TrimSpace ''LONGHORN_NAMESPACE'' = ''LONGHORN_NAMESPACE''"
  "TrimSpace ''NODE_NAME'' = ''NODE_NAME''" "TrimSpace ''NDM_DEBUG'' = ''NDM_DEBUG''"
  "TrimSpace ''NDM_TRACE'' = ''NDM_TRACE''" "TrimSpace ''NDM_LOG_FORMAT'' = ''NDM_LOG_FORMAT''"
  by code_simp+

lemma Apply_text:
  "Apply getenv (setting_flag name [] t u (StringFlag v (dest f))) (fresh opt) = Inr (fresh (f v opt))"
  "TrimSpace var = var \<Longrightarrow>
   Apply getenv (setting_flag name [var] t u (StringFlag v (dest f))) (fresh opt) = Inr (fresh (f (env_text getenv var v) opt))"
  by (auto simp: Apply_def setting_flag_def dest_def fresh_def env_text_def split: option.splits)

lemma Apply_number:
  "Apply getenv (setting_flag name [] t u (IntFlag v (dest f))) (fresh opt) = Inr (fresh (f v opt))"
  by (simp add: Apply_def setting_flag_def dest_def fresh_def)

lemma Apply_switch:
  "TrimSpace var = var \<Longrightarrow>
   Apply getenv (setting_flag name [var] t u (BoolFlag False (dest f))) (fresh opt) =
     (case bad_switch getenv var of
        Some x \<Rightarrow> Inl (EnvValue x name)
      | None \<Rightarrow> Inr (fresh (f (env_switch getenv var) opt)))"
  by (auto simp: Apply_def setting_flag_def dest_def fresh_def env_switch_def bad_switch_def ParseBool_def
      split: option.splits)

lemma Apply_library: "Apply getenv HelpFlag (fresh opt) = Inr (fresh opt)"
    "Apply getenv VersionFlag (fresh opt) = Inr (fresh opt)"
  by (simp_all add: Apply_def HelpFlag_def VersionFlag_def fresh_def)

lemma flagSet_main:
  "flagSet getenv (the_flags V C) (fresh zero_Option) =
     (case bad_switch getenv ''NDM_DEBUG'' of
        Some x \<Rightarrow> Inl (EnvValue x ''debug'')
      | None \<Rightarrow>
          (case bad_switch getenv ''NDM_TRACE'' of
             Some x \<Rightarrow> Inl (EnvValue x ''trace'')
           | None \<Rightarrow> Inr (fresh (env_options getenv))))"
  by (simp add: the_flags_eq flagSet_append main_flags_def Apply_text Apply_number Apply_switch Apply_library
      env_options_def zero_Option_def split: option.split)


section \<open>The options of the program\<close>

text \<open>Settings on the command line, applied from left to right to what the environment gives.\<close>

definition settings_options :: "(string \<Rightarrow> string option) \<Rightarrow> (form \<times> setting) list \<Rightarrow> Option" where
  "settings_options getenv ss = fold apply_setting (map snd ss) (env_options getenv)"

lemma app_Run_settings:
  assumes "list_all (\<lambda>x. setting_ok (snd x)) ss"
    and "bad_switch getenv ''NDM_DEBUG'' = None" and "bad_switch getenv ''NDM_TRACE'' = None"
  shows "app_Run getenv (main_app V C) zero_Option (prog # settings_args ss) = CliAction (settings_options getenv ss)"
  using flagSet_main [of getenv V C] parse_settings [OF assms(1), of V C] assms(2,3) normalize_settings [of V C ss]
  by (simp add: app_Run_def fresh_def the_flags_def settings_options_def)

text \<open>Without any setting or variable the options are the defaults.\<close>

lemma no_settings: "settings_options (\<lambda>v. None) [] = default_options"
  by (simp add: settings_options_def env_options_def env_text_def env_switch_def default_options_def)

lemma keeps_namespace:
  "\<forall>v. SetNamespace v \<notin> set ss \<Longrightarrow> opt_Namespace (fold apply_setting ss opt) = opt_Namespace opt"
proof (induction ss arbitrary: opt)
  case (Cons s ss)
  have "opt_Namespace (apply_setting s opt) = opt_Namespace opt"
    using Cons.prems by (cases s) auto
  with Cons show ?case by simp
qed simp

text \<open>
  The help announces the namespace \<open>longhorn-system\<close> and two workers as defaults. Neither is one:
  without a namespace the program ends at once, and without a number of workers the
  controllers have the five of their factory.
\<close>

lemma main_needs_namespace:
  assumes "list_all (\<lambda>x. setting_ok (snd x)) ss"
    and "bad_switch getenv ''NDM_DEBUG'' = None" and "bad_switch getenv ''NDM_TRACE'' = None"
    and "\<forall>how v. (how, SetNamespace v) \<notin> set ss" and "getenv ''LONGHORN_NAMESPACE'' = None"
  shows "main V C getenv (\<lambda>opt. run env opt ctx ghwSetup clientConfig factory leads startAll)
      (prog # settings_args ss) w
    = Ret (MainFatal (PlainError ''either node name or namespace is empty''), w)"
proof -
  have "\<forall>v. SetNamespace v \<notin> set (map snd ss)" using assms(4) by force
  then have "opt_Namespace (settings_options getenv ss) = []"
    using assms(5) keeps_namespace by (simp add: settings_options_def env_options_def env_text_def)
  then show ?thesis
    using app_Run_settings [OF assms(1-3)] by (simp add: main_def main_action_def run_def)
qed

lemma default_workers: "getWorkers Map.empty 5 noMatch (Inr k) (opt_Threadiness default_options) = (5, None)"
  by (simp add: getWorkers_def default_options_def)

text \<open>C32: the command line. However the settings are written and ordered, the program runs with the
  last setting of each option, else with its environment variable, else with its default, and
  with nothing else; a switch whose variable is neither empty nor a truth value ends it
  before anything else happens, also when the command line sets the switch.\<close>

theorem command_line_settings:
  assumes "list_all (\<lambda>x. setting_ok (snd x)) ss"
  shows "main V C getenv run_opt (prog # settings_args ss) w =
    (case bad_switch getenv ''NDM_DEBUG'' of
       Some x \<Rightarrow> Ret (MainFatalUsage (EnvValue x ''debug''), w)
     | None \<Rightarrow>
         (case bad_switch getenv ''NDM_TRACE'' of
            Some x \<Rightarrow> Ret (MainFatalUsage (EnvValue x ''trace''), w)
          | None \<Rightarrow> main_action run_opt (settings_options getenv ss) w))"
proof (cases "bad_switch getenv ''NDM_DEBUG'' = None \<and> bad_switch getenv ''NDM_TRACE'' = None")
  case True
  then show ?thesis using app_Run_settings [OF assms] by (simp add: main_def)
next
  case False
  then show ?thesis
    using flagSet_main [of getenv V C]
    by (auto simp: main_def app_Run_def fresh_def the_flags_def split: option.splits)
qed

definition demo_getenv :: "string \<Rightarrow> string option" where
  "demo_getenv v = (if v = ''NDM_DEBUG'' then Some ''1'' else if v = ''NODE_NAME'' then Some ''n1'' else None)"

definition demo_run_opt :: "Option \<Rightarrow> bool world \<Rightarrow> (run_result \<times> bool world) outcome" where
  "demo_run_opt opt w =
     Ret (if opt = default_options\<lparr>opt_NodeName := ''n1'', opt_Namespace := ''ns'', opt_Threadiness := - 3\<rparr>
          then WaitingForLock else RunFatal [], w)"

theorem command_line_settings_witness:
  "main ''v1'' ''abc'' demo_getenv demo_run_opt
     [''ndm'', ''--namespace=x'', ''--namespace'', ''ns'', ''--threadiness=-3'', ''--debug=false''] demo_world
   = Ret (MainRuns (Some ''0.0.0.0:6060'') (TextFormatter, InfoLevel) WaitingForLock, demo_world)"
proof -
  let ?ss = "[(OneWord, SetNamespace ''x''), (Short, SetNamespace ''ns''), (OneWord, SetThreadiness (- 3)),
    (OneWord, SetDebug False)]"
  have args: "settings_args ?ss = [''--namespace=x'', ''--namespace'', ''ns'', ''--threadiness=-3'', ''--debug=false'']"
    by code_simp
  have bad: "bad_switch demo_getenv ''NDM_DEBUG'' = None" "bad_switch demo_getenv ''NDM_TRACE'' = None"
    by code_simp+
  have opts: "settings_options demo_getenv ?ss =
      default_options\<lparr>opt_NodeName := ''n1'', opt_Namespace := ''ns'', opt_Threadiness := - 3\<rparr>"
    by code_simp
  show ?thesis
    using command_line_settings [of ?ss "''v1''" "''abc''" demo_getenv demo_run_opt "''ndm''" demo_world]
    by (simp add: args bad opts main_action_def demo_run_opt_def initProfiling_def initLogs_def default_options_def)
qed

end
