(* ===== verification/Spec2Isabelle.thy ===== *)
theory Spec2Isabelle
  imports Startup Api_Server Netlink Informer Object_Copies Mount_Run Command_Line_Props
begin

text \<open>
  The node disk manager: a daemon that runs on the nodes of a Kubernetes cluster, describes
  the block devices of its node as \<open>BlockDevice\<close> resources, mounts a device where the user
  asks for it, and follows the udev events of the kernel. This development models its Go
  code and proves what each part does.

  Parts of the program and the theories that model them:

    \<^item> \<open>pkg/block\<close> scans the machine: disks and partitions from sysfs, mounts from the mount
      table, attributes from the udev database, identifiers from \<open>blkid\<close>. Theory \<open>Host\<close> holds
      what it reads (a \<open>host\<close> is the machine at one moment, with arbitrary files, links and
      command outputs), \<open>Block\<close> the package function by function, \<open>Block_Props\<close> its properties.
    \<^item> \<open>pkg/apis/longhorn.io/v1beta1\<close> defines the resources and registers their kinds: theory
      \<open>Api_Types\<close>. Its generated deep copies, on an explicit heap: theory \<open>Object_Copies\<close>, over
      the general theory \<open>Deep_Copy\<close>.
    \<^item> \<open>pkg/controller/blockdevice/blockdevice.go\<close> and \<open>pkg/util\<close> build the resources of a disk:
      theories \<open>Builder\<close> and \<open>Builder_Props\<close>.
    \<^item> The generated clients of the block devices and of the nodes (\<open>pkg/generated\<close>): theory
      \<open>World\<close>. The informer cache and the label selectors behind them: theory \<open>Cache\<close>; the cache
      after any history of events, and the cache of the nodes: theory \<open>Informer\<close>. The conditions
      of a resource: theory \<open>Conditions\<close>.
    \<^item> \<open>pkg/controller/blockdevice/controller.go\<close> registers the node's devices and handles the
      change and the deletion of a resource: theories \<open>Controller\<close> and \<open>Controller_Props\<close>.
      \<open>pkg/controller/node\<close> handles the deletion of a node: theory \<open>Node_Controller\<close>.
    \<^item> The generated adapters of the handlers, for any kind of resource, and the finalizer that
      makes the deletion handler run before a resource disappears: theory \<open>Handlers\<close>. The queue
      of keys with its workers: theory \<open>Work_Queue\<close>. The controller that runs all handlers of a
      kind on a key: theory \<open>Shared_Handler\<close>. The shared controllers and the rest of the generated
      ones (keys, indexers, status handlers, generating handlers, factories): theory \<open>Generated\<close>.
    \<^item> From the watch of the server to the handlers: the queue of deltas (theory \<open>Delta_FIFO\<close>),
      the buffer of a listener (theory \<open>Ring_Buffer\<close>), and the informer, its listener, the work
      queue and the workers as goroutines that interleave (theory \<open>Reconcile\<close>, a step relation
      over resources of any kind). Its invariants are in \<open>Reconcile_Props\<close>, what fairness gives
      in \<open>Reconcile_Live\<close> over the general theory \<open>Fair_Runs\<close>, concrete runs and the main
      theorems in \<open>Reconcile_Runs\<close>.
    \<^item> What these do together with an API server that has optimistic concurrency: theory
      \<open>Api_Server\<close>; and the whole loop from the server over the watch, the informer, the queue and
      the handlers back to the server, a run of the handlers being one step: theory \<open>Cluster\<close>, on top of \<open>Handler_Runs\<close> (what one run
      of the handlers does to the stored resource). That this loop comes to rest: theory
      \<open>Convergence\<close>, with a concrete run in \<open>Mount_Run\<close>.
    \<^item> \<open>pkg/udev\<close> handles the events of devices: theories \<open>Udev\<close> and \<open>Udev_Props\<close>; the netlink
      connection that it gets them from: theory \<open>Netlink\<close>.
    \<^item> \<open>main.go\<close>, \<open>pkg/option\<close>, \<open>pkg/version\<close> and the two \<open>Register\<close> functions: theory \<open>Daemon\<close>.
      The function \<open>main\<close> with the flags and the command line library, the scan printer under
      \<open>cmd/ndm_daemonset\<close> and the drivers of the code generation: theory \<open>Command_Line\<close>, with
      its properties in \<open>Command_Line_Props\<close>.
    \<^item> The running program: the work queues of both controllers with their workers, which run
      the handlers in any order, and the udev monitor, while the cluster changes: theory
      \<open>System\<close>, a step relation over the whole of the above. That the factory of controllers
      gives it one queue and one list of handlers for each kind: theory \<open>Registration\<close>, and that
      all its requests for controllers reach that one factory: theory \<open>Factory\<close>. The start of the
      caches and then of the controllers, whose queues begin with the keys of what the caches
      delivered: theory \<open>Startup\<close>.

  Theories \<open>Prelude\<close>, \<open>Go_Strings\<close> and \<open>Go_Runtime\<close> hold what these share: outcomes and errors of
  Go calls, the \<open>strings\<close>, \<open>strconv\<close>, \<open>path/filepath\<close> and \<open>bufio\<close> functions that the code uses.

  How the state and the operations correspond to the code. A Go call that may panic is an
  \<open>outcome\<close>; an error result is a \<open>go_error option\<close>; machine integers are 64-bit words. What the
  controllers touch outside (the API server, the cache that other goroutines fill, the
  kernel, the clock) is a record \<open>env\<close> of arbitrary operations on an arbitrary state, and a
  \<open>world\<close> is that state with the list of the calls made so far. As every operation of the
  environment may change the state in any way, interleaving with other actors between two
  calls is covered; theorems that need more say so by named hypotheses, each with a witness:
  \<open>answers\<close> (the errors of the calls), \<open>reads_informer\<close> and \<open>reads_valid\<close> (what the cache
  holds), \<open>refusals_end\<close> and \<open>faults_end\<close> (that the server refuses finitely often), \<open>mounts_ok\<close>
  (that a mount shows in the mount table), \<open>api_server\<close> (that the server stores what it
  accepts, refuses an update of an old version as a conflict, and alone decides about the
  deletion of a resource, which goes away with its last finalizer). The theorems on the way to the
  handlers have runs instead of a world; \<open>version_law\<close> says that equal versions of a resource
  are equal resources, \<open>covered\<close> that a new list does not overlook a key, \<open>fair_run\<close> that every
  goroutine that can go on for good does go on at some time, among them the handlers, which
  return. For the whole loop, \<open>fair_cluster\<close> adds that the watch goes on as well, \<open>updates_answer\<close>
  that the server answers an update with what it stored and a refused one with an empty resource,
  and \<open>settles_at\<close> that a resource has a last state, which it never had before. Convergence does
  not assume the last: \<open>left_alone\<close> says that others leave the resource alone from some time on,
  \<open>accepts\<close> that the server takes the valid updates of the stored version that leave all but the
  status and the finalizer of the handlers alone, and \<open>history_ok\<close> that the server gives each state
  a version of its own and that nobody asks for the deletion. Of the device it is assumed that,
  in the worlds of the run, it can be mounted where it is not mounted (\<open>mounts_if_absent\<close>), and
  that nobody but the handlers of its resource mounts it (\<open>mounted_by_own_runs\<close>); a second mount
  may fail, so \<open>first_request\<close> says that no run on an older state of the resource has mounted it.

  Interfaces between the parts are locales, interpreted on the model: \<open>device_cache\<close> (what a
  cache promises; provided by the informer's store), \<open>condition_ops\<close> (what reads and writes of
  a condition promise; provided by the wrangler library's operations), \<open>disk_source\<close> (what the
  builder needs of a scan; provided by \<open>pkg/block\<close>), \<open>resource_kind\<close> (what the finalizer
  handler needs of a kind of resource; provided by the block devices and by the nodes),
  \<open>deep_copier\<close> (what a deep copy promises; provided by each of the generated copies),
  \<open>fifo_buffer\<close> (what the informer needs of a buffer; provided by the growing ring).

  What the groups of lemmas show. \<open>Block_Props\<close>: parsing inverts printing, which entries a scan
  finds and in what order, and where it panics or never finds anything. \<open>Builder_Props\<close>:
  names, labels and validity of the resources, and that selectors find them again.
  \<open>Controller_Props\<close> and \<open>Node_Controller\<close>: the exact calls of each operation, on success and
  on every error, the fields that a write keeps, the truth of the \<open>Mounted\<close> condition, and
  that handling settles. \<open>Udev_Props\<close>: what each event does, when its handler returns, and
  when it retries for ever. \<open>Netlink\<close>: that parsing inverts printing, which messages of udevd
  are lost, and what an error of the socket does. \<open>Handlers\<close>: the order of deletions and
  finalizers. \<open>Work_Queue\<close>: no key is lost and no two workers have the same. \<open>Api_Server\<close>: what
  registration leaves in the server, and that the handlers of a resource first conflict with
  each other and then settle. \<open>Informer\<close>: the indexed cache is a map from keys to resources.
  \<open>Generated\<close>: what a status handler writes. \<open>Object_Copies\<close>: a copy shares nothing with its
  original, which is why the other theories may treat a resource as a value and a deep copy
  as the identity. \<open>Daemon\<close>: what has happened before the program serves. \<open>Startup\<close>: no
  notification is lost while the program starts. \<open>Command_Line_Props\<close>: which options it
  has for a command line and an environment. \<open>Reconcile_Props\<close> and \<open>Reconcile_Runs\<close>: no change is
  missed between the server and the workers, what the server last reported is what the handlers
  are run on in the end, and a way in which a deletion is overlooked. \<open>Cluster\<close>: the last
  state of a resource is truthful, or its handlers fail for ever. \<open>Convergence\<close>: a device that is
  not mounted and can be gets mounted and guarded by its finalizer, after which its handlers change nothing
  more: a run on an old version changes nothing, a run on the stored one brings it nearer to
  its end, and the stored one is read at last. \<open>System\<close>: in every
  reachable state all calls are within what the daemon of a node may do, and the queues
  serve each key by one worker at a time.

  Bounds and fuel. Removing and updating a device after an event recurse without a bound in
  the code: they are partial functions into \<open>option\<close>, \<open>None\<close> being that they never return.
  Adding recurses inside a loop and takes the number of nested retries it may make;
  \<open>AddBlockDevice_returns\<close> shows that any number above the refusals that the server has left is
  enough and that a larger one changes nothing. A mount table line is cut at 64 KiB, as the
  scanner of Go does.

  Simplifications that the theories declare where they make them: in \<open>System\<close> a step of the daemon
  is a whole run of a handler that returns, so a run that panics or never returns has no state
  of its own (what such runs do is stated of the operations themselves, in \<open>Udev_Props\<close>); in
  \<open>Cluster\<close> a run of the handlers takes effect at one moment, its end, and a new list shows the
  server as it is then; in \<open>Object_Copies\<close> the fields of the metadata that the program never reads are
  one slice; in \<open>Cache\<close> the index functions are total, as those of the program are; in \<open>Startup\<close>
  the goroutine that makes the queue of a controller does so when the controller is started.

  Not modelled: the text of log lines and of the help; the HTTP server of the profiler; leader
  election, the watch connection and how it is restarted, and the generator behind
  \<open>pkg/codegen\<close> (library code that the program only calls); how long a queue delays a key and
  when a resync is due, which are left open; the netlink socket itself and the compilation of
  matchers, of which the program uses none; the Go interface types of the generated code, which
  have no operations of their own.
\<close>

end
